(* ===== verification/Base.thy ===== *)
theory Base
  imports Main "HOL-Library.Word" "HOL-Library.Sublist"
begin

text \<open>
  The prelude of the development: the byte type of the wire codecs, the
  big-endian conversions that every codec of the engine uses
  (\<open>u16::to_be_bytes\<close>, \<open>u32::from_be_bytes\<close>, \<open>as u16\<close>), the result
  type of fallible operations, and the collections of rewrite rules that carry
  the proofs of the components.

  \<^item> \<open>wire\<close>: unfolds and evaluates wire-format encoders and decoders.
  \<^item> \<open>res\<close>: case analysis of results and options.
\<close>

unbundle bit_operations_syntax

named_theorems wire \<open>rewrite rules of the wire codecs\<close>
named_theorems res \<open>rewrite rules for results\<close>

type_synonym byte = "8 word"
type_synonym bytes = "byte list"

section \<open>Results\<close>

text \<open>
  A Rust \<open>Result<T, E>\<close> is the sum \<open>E + T\<close>: \<open>Inl\<close> is \<open>Err\<close>,
  \<open>Inr\<close> is \<open>Ok\<close>.  The question-mark operator is \<open>and_then\<close>.
\<close>

fun and_then :: "'e + 'a \<Rightarrow> ('a \<Rightarrow> 'e + 'b) \<Rightarrow> 'e + 'b" where
  "and_then (Inl e) f = Inl e"
| "and_then (Inr a) f = f a"

fun map_err :: "('e \<Rightarrow> 'f) \<Rightarrow> 'e + 'a \<Rightarrow> 'f + 'a" where
  "map_err f (Inl e) = Inl (f e)"
| "map_err f (Inr a) = Inr a"

fun ok_or :: "'e \<Rightarrow> 'a option \<Rightarrow> 'e + 'a" where
  "ok_or e None = Inl e"
| "ok_or e (Some a) = Inr a"

definition is_ok :: "'e + 'a \<Rightarrow> bool" where
  "is_ok r = (case r of Inl _ \<Rightarrow> False | Inr _ \<Rightarrow> True)"

lemma is_ok_simps [simp]: "is_ok (Inr a)" "\<not> is_ok (Inl e)"
  by (simp_all add: is_ok_def)

lemma and_then_Inr_iff [res]:
  "and_then r f = Inr b \<longleftrightarrow> (\<exists>a. r = Inr a \<and> f a = Inr b)"
  by (cases r) auto

lemma and_then_Inl_iff [res]:
  "and_then r f = Inl e \<longleftrightarrow> r = Inl e \<or> (\<exists>a. r = Inr a \<and> f a = Inl e)"
  by (cases r) auto

lemma map_err_Inr_iff [res, simp]: "map_err f r = Inr a \<longleftrightarrow> r = Inr a"
  by (cases r) auto

lemma ok_or_Inr_iff [res, simp]: "ok_or e x = Inr a \<longleftrightarrow> x = Some a"
  by (cases x) auto

text \<open>\<open>Option::and_then\<close> and \<open>unwrap_or\<close>.\<close>

definition opt_bind :: "'a option \<Rightarrow> ('a \<Rightarrow> 'b option) \<Rightarrow> 'b option" where
  "opt_bind x f = (case x of None \<Rightarrow> None | Some a \<Rightarrow> f a)"

lemma opt_bind_simps [simp]: "opt_bind None f = None" "opt_bind (Some a) f = f a"
  by (simp_all add: opt_bind_def)

definition unwrap_or :: "'a \<Rightarrow> 'a option \<Rightarrow> 'a" where
  "unwrap_or d x = (case x of None \<Rightarrow> d | Some a \<Rightarrow> a)"

lemma unwrap_or_simps [simp]: "unwrap_or d None = d" "unwrap_or d (Some a) = a"
  by (simp_all add: unwrap_or_def)

section \<open>Big-endian integers\<close>

definition to_be16 :: "16 word \<Rightarrow> bytes" where
  "to_be16 w = [ucast (drop_bit 8 w), ucast w]"

definition from_be16 :: "byte \<Rightarrow> byte \<Rightarrow> 16 word" where
  "from_be16 a b = push_bit 8 (ucast a) OR ucast b"

definition to_be32 :: "32 word \<Rightarrow> bytes" where
  "to_be32 w = [ucast (drop_bit 24 w), ucast (drop_bit 16 w), ucast (drop_bit 8 w), ucast w]"

definition from_be32 :: "byte \<Rightarrow> byte \<Rightarrow> byte \<Rightarrow> byte \<Rightarrow> 32 word" where
  "from_be32 a b c d =
     push_bit 24 (ucast a) OR push_bit 16 (ucast b) OR push_bit 8 (ucast c) OR ucast d"

text \<open>The casts \<open>n as u16\<close> and \<open>n as u32\<close> of a \<open>usize\<close>: reduction modulo the width.\<close>

definition as_u8 :: "nat \<Rightarrow> byte" where "as_u8 n = word_of_nat n"
definition as_u16 :: "nat \<Rightarrow> 16 word" where "as_u16 n = word_of_nat n"
definition as_u32 :: "nat \<Rightarrow> 32 word" where "as_u32 n = word_of_nat n"

lemma length_to_be [simp]: "length (to_be16 w) = 2" "length (to_be32 v) = 4"
  by (simp_all add: to_be16_def to_be32_def)

lemma bit_byte_beyond [simp]: "8 \<le> n \<Longrightarrow> \<not> bit (w :: byte) n"
  using bit_imp_le_length[of w n] by auto

lemma from_to_be16 [simp, wire]: "from_be16 (ucast (drop_bit 8 w)) (ucast w) = w"
  unfolding from_be16_def
  by (rule bit_word_eqI) (auto simp: bit_simps not_less)

lemma from_to_be32 [simp, wire]:
  "from_be32 (ucast (drop_bit 24 w)) (ucast (drop_bit 16 w)) (ucast (drop_bit 8 w)) (ucast w) = w"
proof (rule bit_word_eqI)
  fix n assume "n < LENGTH(32)"
  then consider "n < 8" | "8 \<le> n" "n < 16" | "16 \<le> n" "n < 24" | "24 \<le> n" "n < 32" by fastforce
  then show "bit (from_be32 (ucast (drop_bit 24 w)) (ucast (drop_bit 16 w))
      (ucast (drop_bit 8 w)) (ucast w)) n = bit w n"
    by cases (auto simp: from_be32_def bit_simps)
qed

lemma to_from_be16 [simp, wire]: "to_be16 (from_be16 a b) = [a, b]"
  unfolding from_be16_def to_be16_def
  by (auto intro!: bit_word_eqI simp: bit_simps)

lemma to_from_be32 [simp, wire]: "to_be32 (from_be32 a b c d) = [a, b, c, d]"
  unfolding from_be32_def to_be32_def
  by (auto intro!: bit_word_eqI simp: bit_simps)

lemma from_be16_inject [simp]: "from_be16 a b = from_be16 c d \<longleftrightarrow> a = c \<and> b = d"
proof
  assume "from_be16 a b = from_be16 c d"
  then have "to_be16 (from_be16 a b) = to_be16 (from_be16 c d)" by (rule arg_cong)
  then show "a = c \<and> b = d" by simp
qed simp

lemma from_be32_inject [simp]:
  "from_be32 a b c d = from_be32 a' b' c' d' \<longleftrightarrow> a = a' \<and> b = b' \<and> c = c' \<and> d = d'"
proof
  assume "from_be32 a b c d = from_be32 a' b' c' d'"
  then have "to_be32 (from_be32 a b c d) = to_be32 (from_be32 a' b' c' d')" by (rule arg_cong)
  then show "a = a' \<and> b = b' \<and> c = c' \<and> d = d'" by simp
qed simp

lemma to_be16_inject [simp]: "to_be16 v = to_be16 w \<longleftrightarrow> v = w"
proof
  assume "to_be16 v = to_be16 w"
  then have "from_be16 (ucast (drop_bit 8 v)) (ucast v) = from_be16 (ucast (drop_bit 8 w)) (ucast w)"
    unfolding to_be16_def by (simp del: from_to_be16)
  then show "v = w" by simp
qed simp

lemma to_be32_inject [simp]: "to_be32 v = to_be32 w \<longleftrightarrow> v = w"
proof
  assume "to_be32 v = to_be32 w"
  then have "from_be32 (ucast (drop_bit 24 v)) (ucast (drop_bit 16 v)) (ucast (drop_bit 8 v)) (ucast v)
    = from_be32 (ucast (drop_bit 24 w)) (ucast (drop_bit 16 w)) (ucast (drop_bit 8 w)) (ucast w)"
    unfolding to_be32_def by (simp del: from_to_be32)
  then show "v = w" by simp
qed simp

lemma unat_as_u16 [simp]: "n < 65536 \<Longrightarrow> unat (as_u16 n) = n"
  by (simp add: as_u16_def unsigned_of_nat take_bit_nat_eq_self)

lemma unat_as_u32 [simp]: "n < 4294967296 \<Longrightarrow> unat (as_u32 n) = n"
  by (simp add: as_u32_def unsigned_of_nat take_bit_nat_eq_self)

lemma unat_as_u8 [simp]: "n < 256 \<Longrightarrow> unat (as_u8 n) = n"
  by (simp add: as_u8_def unsigned_of_nat take_bit_nat_eq_self)

lemma as_u8_unat [simp]: "as_u8 (unat w) = w"
  by (simp add: as_u8_def)

lemma unat_byte_less [simp]: "unat (w :: byte) < 256"
  using unsigned_less[of w, where 'a=nat] by simp

lemma unat_u16_less [simp]: "unat (w :: 16 word) < 65536"
  using unsigned_less[of w, where 'a=nat] by simp

lemma unat_u32_less [simp]: "unat (w :: 32 word) < 4294967296"
  using unsigned_less[of w, where 'a=nat] by simp

section \<open>Lists\<close>

text \<open>Splitting off the front of a buffer: \<open>BytesMut::split_to\<close>, and \<open>advance\<close> its second part.\<close>

definition split_to :: "nat \<Rightarrow> 'a list \<Rightarrow> 'a list \<times> 'a list" where
  "split_to n xs = (take n xs, drop n xs)"

lemma split_to_append [simp]: "length xs = n \<Longrightarrow> split_to n (xs @ ys) = (xs, ys)"
  by (simp add: split_to_def)

lemma list_length_ge_2:
  assumes "2 \<le> length xs" obtains a b ys where "xs = a # b # ys"
  using assms by (cases xs; cases "tl xs") auto

lemma list_length_ge_4:
  assumes "4 \<le> length xs" obtains a b c d ys where "xs = a # b # c # d # ys"
proof -
  from assms have "2 \<le> length xs" by simp
  then obtain a b ys where xs: "xs = a # b # ys" by (rule list_length_ge_2)
  with assms have "2 \<le> length ys" by simp
  then obtain c d zs where "ys = c # d # zs" by (rule list_length_ge_2)
  with xs show ?thesis by (intro that) simp
qed

lemma list_length_ge_6:
  assumes "6 \<le> length xs" obtains a b c d e f ys where "xs = a # b # c # d # e # f # ys"
proof -
  from assms have "4 \<le> length xs" by simp
  then obtain a b c d ys where xs: "xs = a # b # c # d # ys" by (rule list_length_ge_4)
  with assms have "2 \<le> length ys" by simp
  then obtain e f zs where "ys = e # f # zs" by (rule list_length_ge_2)
  with xs show ?thesis by (intro that) simp
qed

lemma list_length_ge_8:
  assumes "8 \<le> length xs"
  obtains a b c d e f g h ys where "xs = a # b # c # d # e # f # g # h # ys"
proof -
  from assms have "4 \<le> length xs" by simp
  then obtain a b c d ys where xs: "xs = a # b # c # d # ys" by (rule list_length_ge_4)
  with assms have "4 \<le> length ys" by simp
  then obtain e f g h zs where "ys = e # f # g # h # zs" by (rule list_length_ge_4)
  with xs show ?thesis by (intro that) simp
qed

end
