(* ===== verification/Text.thy ===== *)
theory Text
  imports Base
begin

text \<open>
  The part of Rust's \<open>str\<close> and \<open>String\<close> that the client uses, written out on
  HOL strings.  A Rust string is the list of its UTF-8 bytes: a HOL \<open>char\<close> is
  one byte, so \<open>length\<close> is \<open>str::len\<close>.  Operations that Rust defines on
  characters and not on bytes (\<open>trim\<close>, \<open>chars\<close>) decode the UTF-8 they meet;
  \<open>utf8_lossy\<close> is \<open>String::from_utf8_lossy\<close>.  The lemmas give what each
  operation returns: the first match of a search, the parts of a split, and
  that reading a printed number gives it back.
\<close>

section \<open>Bytes and characters\<close>

definition byte_of_char :: "char \<Rightarrow> byte" where
  "byte_of_char c = word_of_nat (of_char c)"

definition char_of_byte :: "byte \<Rightarrow> char" where
  "char_of_byte b = char_of (unat b)"

definition bytes_of_str :: "string \<Rightarrow> bytes" where
  "bytes_of_str s = map byte_of_char s"

definition str_of_bytes :: "bytes \<Rightarrow> string" where
  "str_of_bytes b = map char_of_byte b"

abbreviation code :: "char \<Rightarrow> nat" where "code c \<equiv> of_char c"

lemma char_of_byte_of_char [simp]: "char_of_byte (byte_of_char c) = c"
  by (simp add: char_of_byte_def byte_of_char_def unsigned_of_nat take_bit_nat_eq_self)

lemma byte_of_char_of_byte [simp]: "byte_of_char (char_of_byte b) = b"
  by (simp add: char_of_byte_def byte_of_char_def)

lemma bytes_of_str_simps [simp]:
  "bytes_of_str [] = []" "bytes_of_str (c # s) = byte_of_char c # bytes_of_str s"
  "bytes_of_str (s @ t) = bytes_of_str s @ bytes_of_str t"
  "length (bytes_of_str s) = length s"
  by (simp_all add: bytes_of_str_def)

lemma str_of_bytes_simps [simp]:
  "str_of_bytes [] = []" "str_of_bytes (b # s) = char_of_byte b # str_of_bytes s"
  "str_of_bytes (x @ y) = str_of_bytes x @ str_of_bytes y"
  "length (str_of_bytes x) = length x"
  by (simp_all add: str_of_bytes_def)

lemma str_of_bytes_of_str [simp]: "str_of_bytes (bytes_of_str s) = s"
  by (induction s) simp_all

lemma bytes_of_str_of_bytes [simp]: "bytes_of_str (str_of_bytes b) = b"
  by (induction b) simp_all

abbreviation CR :: char where "CR \<equiv> CHR 0x0D"
abbreviation LF :: char where "LF \<equiv> CHR 0x0A"
definition CRLF :: string where "CRLF = [CR, LF]"
definition DQ :: string where "DQ = [CHR 0x22]"

section \<open>UTF-8\<close>

text \<open>
  \<open>utf8_step\<close> decodes one character or one maximal invalid part, as the
  standard library's \<open>Utf8Chunks\<close> does: the text it contributes, and the number
  of bytes it takes besides the lead byte.
\<close>

definition is_cont :: "byte \<Rightarrow> bool" where
  "is_cont b = (128 \<le> unat b \<and> unat b < 192)"

definition replacement :: string where
  "replacement = [CHR 0xEF, CHR 0xBF, CHR 0xBD]"

definition second_ok3 :: "nat \<Rightarrow> byte \<Rightarrow> bool" where
  "second_ok3 a b =
     (if a = 224 then 160 \<le> unat b \<and> unat b < 192
      else if a = 237 then 128 \<le> unat b \<and> unat b < 160
      else is_cont b)"

definition second_ok4 :: "nat \<Rightarrow> byte \<Rightarrow> bool" where
  "second_ok4 a b =
     (if a = 240 then 144 \<le> unat b \<and> unat b < 192
      else if a = 244 then 128 \<le> unat b \<and> unat b < 144
      else is_cont b)"

definition utf8_step :: "byte \<Rightarrow> bytes \<Rightarrow> string \<times> nat" where
  "utf8_step a r =
    (let n = unat a in
     if n < 128 then ([char_of_byte a], 0)
     else if 194 \<le> n \<and> n < 224 then
       (case r of b # _ \<Rightarrow> if is_cont b then (str_of_bytes [a, b], 1) else (replacement, 0)
        | [] \<Rightarrow> (replacement, 0))
     else if 224 \<le> n \<and> n < 240 then
       (case r of b # r' \<Rightarrow>
          if second_ok3 n b then
            (case r' of c # _ \<Rightarrow> if is_cont c then (str_of_bytes [a, b, c], 2) else (replacement, 1)
             | [] \<Rightarrow> (replacement, 1))
          else (replacement, 0)
        | [] \<Rightarrow> (replacement, 0))
     else if 240 \<le> n \<and> n < 245 then
       (case r of b # r' \<Rightarrow>
          if second_ok4 n b then
            (case r' of c # r'' \<Rightarrow>
               if is_cont c then
                 (case r'' of d # _ \<Rightarrow> if is_cont d then (str_of_bytes [a, b, c, d], 3)
                                      else (replacement, 2)
                  | [] \<Rightarrow> (replacement, 2))
               else (replacement, 1)
             | [] \<Rightarrow> (replacement, 1))
          else (replacement, 0)
        | [] \<Rightarrow> (replacement, 0))
     else (replacement, 0))"

fun utf8_lossy :: "bytes \<Rightarrow> string" where
  "utf8_lossy [] = []"
| "utf8_lossy (a # r) = (let (t, n) = utf8_step a r in t @ utf8_lossy (drop n r))"

lemma utf8_lossy_ascii [simp]:
  "(\<forall>c \<in> set s. code c < 128) \<Longrightarrow> utf8_lossy (bytes_of_str s) = s"
proof (induction s)
  case (Cons c s)
  then have "unat (byte_of_char c) < 128"
    by (simp add: byte_of_char_def unsigned_of_nat take_bit_nat_eq_self)
  with Cons show ?case by (simp add: utf8_step_def)
qed simp

text \<open>\<open>str::from_utf8\<close>: the text when every part is valid.\<close>

fun utf8_valid :: "bytes \<Rightarrow> bool" where
  "utf8_valid [] = True"
| "utf8_valid (a # r) =
     (let (t, n) = utf8_step a r in
      t = str_of_bytes (a # take n r) \<and> utf8_valid (drop n r))"

text \<open>\<open>str::chars\<close>: the characters of a valid string, each as its bytes.\<close>

definition utf8_more :: "char \<Rightarrow> nat" where
  "utf8_more c = (if code c < 128 then 0 else if code c < 224 then 1 else if code c < 240 then 2 else 3)"

fun chars :: "string \<Rightarrow> string list" where
  "chars [] = []"
| "chars (c # s) = (c # take (utf8_more c) s) # chars (drop (utf8_more c) s)"

lemma concat_chars [simp]: "concat (chars s) = s"
  by (induction s rule: chars.induct) simp_all

lemma chars_ascii: "(\<forall>c \<in> set s. code c < 128) \<Longrightarrow> chars s = map (\<lambda>c. [c]) s"
  by (induction s) (simp_all add: utf8_more_def)

section \<open>White space and trimming\<close>

definition ascii_ws :: "char \<Rightarrow> bool" where
  "ascii_ws c = (code c = 32 \<or> (9 \<le> code c \<and> code c \<le> 13))"

definition ws2 :: "char \<Rightarrow> char \<Rightarrow> bool" where
  "ws2 a b = (code a = 0xC2 \<and> (code b = 0x85 \<or> code b = 0xA0))"

definition ws3 :: "char \<Rightarrow> char \<Rightarrow> char \<Rightarrow> bool" where
  "ws3 a b c =
    ((code a = 0xE1 \<and> code b = 0x9A \<and> code c = 0x80)
     \<or> (code a = 0xE2 \<and> code b = 0x80
         \<and> ((0x80 \<le> code c \<and> code c \<le> 0x8A) \<or> code c = 0xA8 \<or> code c = 0xA9 \<or> code c = 0xAF))
     \<or> (code a = 0xE2 \<and> code b = 0x81 \<and> code c = 0x9F)
     \<or> (code a = 0xE3 \<and> code b = 0x80 \<and> code c = 0x80))"

fun ws_prefix :: "string \<Rightarrow> nat" where
  "ws_prefix [] = 0"
| "ws_prefix (a # s) =
     (if ascii_ws a then 1
      else case s of [] \<Rightarrow> 0
      | b # s' \<Rightarrow> if ws2 a b then 2
          else case s' of [] \<Rightarrow> 0 | c # _ \<Rightarrow> if ws3 a b c then 3 else 0)"

fun ws_suffix_rev :: "string \<Rightarrow> nat" where
  "ws_suffix_rev [] = 0"
| "ws_suffix_rev (a # s) =
     (if ascii_ws a then 1
      else case s of [] \<Rightarrow> 0
      | b # s' \<Rightarrow> if ws2 b a then 2
          else case s' of [] \<Rightarrow> 0 | c # _ \<Rightarrow> if ws3 c b a then 3 else 0)"

definition is_whitespace :: "string \<Rightarrow> bool" where
  "is_whitespace c = (c \<noteq> [] \<and> ws_prefix c = length c)"

text \<open>Dropping with a test that says how many leading characters to drop.\<close>

function drop_while_prefix :: "(string \<Rightarrow> nat) \<Rightarrow> string \<Rightarrow> string" where
  "drop_while_prefix p s =
     (if s = [] \<or> p s = 0 then s else drop_while_prefix p (drop (p s) s))"
  by auto
termination by (relation "measure (length \<circ> snd)") auto

declare drop_while_prefix.simps [simp del]

definition trim_start :: "string \<Rightarrow> string" where
  "trim_start s = drop_while_prefix ws_prefix s"

definition trim_end :: "string \<Rightarrow> string" where
  "trim_end s = rev (drop_while_prefix ws_suffix_rev (rev s))"

definition trim :: "string \<Rightarrow> string" where
  "trim s = trim_end (trim_start s)"

definition trim_start_matches :: "string \<Rightarrow> string \<Rightarrow> string" where
  "trim_start_matches pat s =
     drop_while_prefix (\<lambda>t. if prefix pat t then length pat else 0) s"

definition trim_matches :: "char \<Rightarrow> string \<Rightarrow> string" where
  "trim_matches c s = rev (dropWhile (\<lambda>x. x = c) (rev (dropWhile (\<lambda>x. x = c) s)))"

lemma drop_while_prefix_suffix: "suffix (drop_while_prefix p s) s"
proof (induction p s rule: drop_while_prefix.induct)
  case (1 p s)
  then show ?case
    by (subst drop_while_prefix.simps) (auto intro: suffix_order.trans [OF _ suffix_drop])
qed

lemma drop_while_prefix_id: "p s = 0 \<Longrightarrow> drop_while_prefix p s = s"
  by (simp add: drop_while_prefix.simps)

lemma ws_prefix_0_if_ascii:
  "s = [] \<or> (code (hd s) < 128 \<and> \<not> ascii_ws (hd s)) \<Longrightarrow> ws_prefix s = 0"
  by (cases s) (auto simp: ws2_def ws3_def split: list.splits)

lemma ws_suffix_rev_0_if_ascii:
  "s = [] \<or> (code (hd s) < 128 \<and> \<not> ascii_ws (hd s)) \<Longrightarrow> ws_suffix_rev s = 0"
  by (cases s) (auto simp: ws2_def ws3_def split: list.splits)

lemma set_trim_subset: "set (trim s) \<subseteq> set s"
proof -
  have "set (drop_while_prefix p t) \<subseteq> set t" for p t
    using drop_while_prefix_suffix[of p t] by (rule set_mono_suffix)
  then show ?thesis
    unfolding trim_def trim_end_def trim_start_def
    by (metis set_rev subset_trans)
qed

lemma trim_id:
  assumes "s \<noteq> [] \<Longrightarrow> code (hd s) < 128 \<and> \<not> ascii_ws (hd s)"
    and "s \<noteq> [] \<Longrightarrow> code (last s) < 128 \<and> \<not> ascii_ws (last s)"
  shows "trim s = s"
proof (cases "s = []")
  case True
  then show ?thesis
    by (simp add: trim_def trim_start_def trim_end_def drop_while_prefix_id)
next
  case False
  have "trim_start s = s"
    unfolding trim_start_def
    by (rule drop_while_prefix_id, rule ws_prefix_0_if_ascii) (use assms(1) in blast)
  moreover have "hd (rev s) = last s" using False by (simp add: hd_rev)
  then have "trim_end s = s"
    unfolding trim_end_def
    by (subst drop_while_prefix_id, intro ws_suffix_rev_0_if_ascii) (use assms(2) False in auto)
  ultimately show ?thesis by (simp add: trim_def)
qed

section \<open>Searching and splitting\<close>

fun find_sub :: "'a list \<Rightarrow> 'a list \<Rightarrow> nat option" where
  "find_sub pat [] = (if pat = [] then Some 0 else None)"
| "find_sub pat (x # xs) =
     (if prefix pat (x # xs) then Some 0 else map_option Suc (find_sub pat xs))"

definition contains_sub :: "'a list \<Rightarrow> 'a list \<Rightarrow> bool" where
  "contains_sub pat s = (find_sub pat s \<noteq> None)"

definition split_once :: "'a list \<Rightarrow> 'a list \<Rightarrow> ('a list \<times> 'a list) option" where
  "split_once pat s =
     (case find_sub pat s of None \<Rightarrow> None
      | Some i \<Rightarrow> Some (take i s, drop (i + length pat) s))"

definition strip_prefix :: "'a list \<Rightarrow> 'a list \<Rightarrow> 'a list option" where
  "strip_prefix p s = (if prefix p s then Some (drop (length p) s) else None)"

definition strip_suffix :: "'a list \<Rightarrow> 'a list \<Rightarrow> 'a list option" where
  "strip_suffix p s = (if suffix p s then Some (take (length s - length p) s) else None)"

lemma find_sub_Some:
  "find_sub pat s = Some i \<Longrightarrow> i + length pat \<le> length s \<and> take (length pat) (drop i s) = pat"
proof (induction pat s arbitrary: i rule: find_sub.induct)
  case (2 pat x xs)
  show ?case
  proof (cases "prefix pat (x # xs)")
    case True
    then obtain zs where zs: "x # xs = pat @ zs" by (auto simp: prefix_def)
    from True 2 have "i = 0" by simp
    with zs show ?thesis using prefix_length_le[OF True] by simp
  next
    case False
    with 2 obtain j where "find_sub pat xs = Some j" "i = Suc j" by auto
    with False 2 show ?thesis by simp
  qed
qed (auto split: if_splits)

lemma find_sub_first:
  "find_sub pat s = Some i \<Longrightarrow> j < i \<Longrightarrow> \<not> prefix pat (drop j s)"
proof (induction pat s arbitrary: i j rule: find_sub.induct)
  case (2 pat x xs)
  then show ?case by (cases j) (auto split: if_splits)
qed (auto split: if_splits)

lemma find_sub_None:
  "find_sub pat s = None \<Longrightarrow> \<not> prefix pat (drop j s)"
proof (induction pat s arbitrary: j rule: find_sub.induct)
  case (2 pat x xs)
  then show ?case by (cases j) (auto split: if_splits)
qed (auto split: if_splits)

text \<open>Searching a growing buffer: a match that is there stays the first match.\<close>

lemma find_sub_append:
  "find_sub pat s = Some i \<Longrightarrow> find_sub pat (s @ t) = Some i"
proof (induction pat s arbitrary: i rule: find_sub.induct)
  case (1 pat)
  then show ?case by (cases t) (auto split: if_splits)
next
  case (2 pat x xs)
  show ?case
  proof (cases "prefix pat (x # xs)")
    case True
    then have "prefix pat (x # xs @ t)" by (metis append_Cons prefix_append)
    with True 2 show ?thesis by simp
  next
    case False
    with 2 obtain j where j: "find_sub pat xs = Some j" "i = Suc j" by auto
    have "\<not> prefix pat (x # xs @ t)"
    proof
      assume p: "prefix pat (x # xs @ t)"
      have "length pat \<le> length xs" using find_sub_Some[OF j(1)] by simp
      with p False show False
        by (metis append_Cons prefix_length_prefix prefixI length_Cons le_SucI)
    qed
    with j 2 False show ?thesis by simp
  qed
qed

lemma split_once_Some:
  assumes "split_once pat s = Some (a, b)"
  shows "s = a @ pat @ b"
proof -
  from assms obtain i where i: "find_sub pat s = Some i"
    "a = take i s" "b = drop (i + length pat) s"
    by (auto simp: split_once_def split: option.splits)
  from find_sub_Some[OF i(1)] have "take (length pat) (drop i s) = pat" by simp
  then have "drop i s = pat @ drop (i + length pat) s"
    by (metis append_take_drop_id drop_drop add.commute)
  with i show ?thesis by (metis append_take_drop_id)
qed

fun split_on :: "char \<Rightarrow> string \<Rightarrow> string list" where
  "split_on c [] = [[]]"
| "split_on c (x # xs) =
     (if x = c then [] # split_on c xs
      else case split_on c xs of [] \<Rightarrow> [[x]] | y # ys \<Rightarrow> (x # y) # ys)"

lemma split_on_not_Nil [simp]: "split_on c s \<noteq> []"
  by (induction s) (auto split: list.splits)

lemma split_on_no_sep: "c \<notin> set s \<Longrightarrow> split_on c s = [s]"
  by (induction s) auto

lemma split_on_append:
  "c \<notin> set s \<Longrightarrow> split_on c (s @ c # t) = s # split_on c t"
  by (induction s) (auto split: list.splits)

text \<open>\<open>str::lines\<close>: split after each line feed, one carriage return dropped before it.\<close>

definition chomp_cr :: "string \<Rightarrow> string" where
  "chomp_cr s = (if s \<noteq> [] \<and> last s = CR then butlast s else s)"

definition lines :: "string \<Rightarrow> string list" where
  "lines s =
     (let parts = split_on LF s in
      map chomp_cr (butlast parts) @ (if last parts = [] then [] else [last parts]))"

text \<open>\<open>str::split_whitespace\<close> on characters.\<close>

fun split_ws_chars :: "string list \<Rightarrow> string \<Rightarrow> string list" where
  "split_ws_chars [] w = (if w = [] then [] else [w])"
| "split_ws_chars (c # cs) w =
     (if is_whitespace c then (if w = [] then split_ws_chars cs [] else w # split_ws_chars cs [])
      else split_ws_chars cs (w @ c))"

definition split_whitespace :: "string \<Rightarrow> string list" where
  "split_whitespace s = split_ws_chars (chars s) []"

fun join :: "string \<Rightarrow> string list \<Rightarrow> string" where
  "join sep [] = []"
| "join sep [s] = s"
| "join sep (s # t # ts) = s @ sep @ join sep (t # ts)"

section \<open>Case\<close>

definition lower_char :: "char \<Rightarrow> char" where
  "lower_char c = (if 65 \<le> code c \<and> code c \<le> 90 then char_of (code c + 32) else c)"

definition to_ascii_lowercase :: "string \<Rightarrow> string" where
  "to_ascii_lowercase s = map lower_char s"

definition eq_ignore_ascii_case :: "string \<Rightarrow> string \<Rightarrow> bool" where
  "eq_ignore_ascii_case s t = (to_ascii_lowercase s = to_ascii_lowercase t)"

section \<open>Numbers\<close>

definition digit_char :: "nat \<Rightarrow> char" where
  "digit_char d = (if d < 10 then char_of (48 + d) else char_of (87 + d))"

fun digit_val :: "nat \<Rightarrow> char \<Rightarrow> nat option" where
  "digit_val radix c =
     (let n = code c;
          d = (if 48 \<le> n \<and> n \<le> 57 then n - 48
               else if 97 \<le> n \<and> n \<le> 122 then n - 87
               else if 65 \<le> n \<and> n \<le> 90 then n - 55 else 36)
      in if d < radix then Some d else None)"

declare digit_val.simps [simp del]

fun show_radix :: "nat \<Rightarrow> nat \<Rightarrow> string" where
  "show_radix r n =
     (if r < 2 \<or> n < r then [digit_char n] else show_radix r (n div r) @ [digit_char (n mod r)])"

declare show_radix.simps [simp del]

definition show_nat :: "nat \<Rightarrow> string" where "show_nat n = show_radix 10 n"

text \<open>\<open>{:04x}\<close> and the like: hexadecimal, padded with zeros to a width.\<close>

definition show_hex :: "nat \<Rightarrow> nat \<Rightarrow> string" where
  "show_hex width n =
     (let s = show_radix 16 n in replicate (width - length s) (CHR ''0'') @ s)"

text \<open>
  \<open>from_str_radix\<close> of an unsigned type with values below \<open>bound\<close>: an optional plus
  sign, at least one digit, no other character, and no overflow on the way.
\<close>

fun parse_digits :: "nat \<Rightarrow> nat \<Rightarrow> nat \<Rightarrow> string \<Rightarrow> nat option" where
  "parse_digits radix bound acc [] = Some acc"
| "parse_digits radix bound acc (c # s) =
     (case digit_val radix c of None \<Rightarrow> None
      | Some d \<Rightarrow> if acc * radix + d < bound then parse_digits radix bound (acc * radix + d) s
                 else None)"

definition parse_radix :: "nat \<Rightarrow> nat \<Rightarrow> string \<Rightarrow> nat option" where
  "parse_radix radix bound s =
     (let t = (if prefix ''+'' s then drop 1 s else s) in
      if t = [] then None else parse_digits radix bound 0 t)"

definition parse_uint :: "nat \<Rightarrow> string \<Rightarrow> nat option" where
  "parse_uint bound s = parse_radix 10 bound s"

lemma code_char_of [simp]: "n < 256 \<Longrightarrow> code (char_of n) = n"
  by simp

lemma digit_val_digit_char [simp]:
  "d < radix \<Longrightarrow> radix \<le> 16 \<Longrightarrow> digit_val radix (digit_char d) = Some d"
  by (auto simp: digit_val.simps digit_char_def Let_def)

lemma parse_digits_bound: "parse_digits radix bound acc s = Some n \<Longrightarrow> acc < bound \<Longrightarrow> n < bound"
  by (induction radix bound acc s rule: parse_digits.induct) (auto split: option.splits if_splits)

lemma parse_radix_bound:
  "parse_radix radix bound s = Some n \<Longrightarrow> 0 < bound \<Longrightarrow> n < bound"
  by (auto simp: parse_radix_def Let_def split: if_splits dest: parse_digits_bound)

lemma parse_uint_bound: "parse_uint bound s = Some n \<Longrightarrow> 0 < bound \<Longrightarrow> n < bound"
  unfolding parse_uint_def by (rule parse_radix_bound)

lemma parse_digits_append:
  "parse_digits radix bound acc (s @ t) =
     (case parse_digits radix bound acc s of None \<Rightarrow> None
      | Some a \<Rightarrow> parse_digits radix bound a t)"
  by (induction radix bound acc s rule: parse_digits.induct) (auto split: option.splits)

lemma parse_digits_show:
  "2 \<le> r \<Longrightarrow> r \<le> 16 \<Longrightarrow> n < bound \<Longrightarrow> parse_digits r bound 0 (show_radix r n) = Some n"
proof (induction r n rule: show_radix.induct)
  case (1 r n)
  show ?case
  proof (cases "n < r")
    case True
    with 1 show ?thesis by (subst show_radix.simps) simp
  next
    case False
    then have "n div r < bound"
      using 1 by (meson div_le_dividend le_less_trans)
    with 1 False have "parse_digits r bound 0 (show_radix r (n div r)) = Some (n div r)" by simp
    moreover have "n div r * r + n mod r = n" by simp
    ultimately show ?thesis
      using 1 False by (subst show_radix.simps) (simp add: parse_digits_append)
  qed
qed

lemma show_radix_not_Nil [simp]: "show_radix r n \<noteq> []"
  by (subst show_radix.simps) simp

lemma set_show_radix:
  "2 \<le> r \<Longrightarrow> set (show_radix r n) \<subseteq> digit_char ` {..<r}"
  by (induction r n rule: show_radix.induct) (subst show_radix.simps, auto)

lemma digit_char_not_plus: "d < 16 \<Longrightarrow> digit_char d \<noteq> CHR ''+''"
proof -
  assume "d < 16"
  then have "code (digit_char d) \<noteq> code CHR ''+''" by (auto simp: digit_char_def)
  then show ?thesis by metis
qed

lemma digit_char_inject:
  "d < 16 \<Longrightarrow> e < 16 \<Longrightarrow> digit_char d = digit_char e \<longleftrightarrow> d = e"
  using digit_val_digit_char[of d 16] digit_val_digit_char[of e 16]
  by (metis le_refl option.inject)

lemma digit_char_0: "CHR ''0'' = digit_char 0"
  by (simp add: digit_char_def) code_simp

lemma hd_show_radix:
  "2 \<le> r \<Longrightarrow> r \<le> 16 \<Longrightarrow> 0 < n \<Longrightarrow> hd (show_radix r n) \<noteq> CHR ''0''"
proof (induction r n rule: show_radix.induct)
  case (1 r n)
  then show ?case
    by (subst show_radix.simps) (auto simp: digit_char_0 digit_char_inject div_greater_zero_iff)
qed

lemma length_show_radix:
  "2 \<le> r \<Longrightarrow> n < r ^ k \<Longrightarrow> 0 < k \<Longrightarrow> length (show_radix r n) \<le> k"
proof (induction k arbitrary: n)
  case (Suc k)
  show ?case
  proof (cases "n < r")
    case False
    with Suc have k: "0 < k" by (cases k) auto
    from Suc have "n div r < r ^ k" by (simp add: less_mult_imp_div_less mult.commute)
    with Suc k have "length (show_radix r (n div r)) \<le> k" by simp
    with Suc False show ?thesis by (subst show_radix.simps) simp
  qed (subst show_radix.simps, simp)
qed simp

lemma parse_radix_show:
  assumes "2 \<le> r" "r \<le> 16" "n < bound"
  shows "parse_radix r bound (show_radix r n) = Some n"
proof -
  obtain c s where s: "show_radix r n = c # s" using show_radix_not_Nil by (cases "show_radix r n") auto
  have "c \<in> digit_char ` {..<r}" using set_show_radix[OF assms(1), of n] s by auto
  then have "c \<noteq> CHR ''+''" using assms digit_char_not_plus by auto
  then show ?thesis
    using parse_digits_show[OF assms] s by (simp add: parse_radix_def Let_def)
qed

lemma parse_uint_show_nat [simp]: "n < bound \<Longrightarrow> parse_uint bound (show_nat n) = Some n"
  by (simp add: parse_uint_def show_nat_def parse_radix_show)

lemma set_show_nat: "set (show_nat n) \<subseteq> {c. 48 \<le> code c \<and> code c \<le> 57}"
  using set_show_radix[of 10 n] by (auto simp: show_nat_def digit_char_def)

lemma show_nat_not_Nil [simp]: "show_nat n \<noteq> []"
  by (simp add: show_nat_def)

section \<open>Debug formatting\<close>

text \<open>
  \<open>{:?}\<close> of a string, used in error texts only.  Characters outside ASCII are
  left as they are (Rust escapes the unprintable ones).
\<close>

definition debug_char :: "char \<Rightarrow> string" where
  "debug_char c =
     (if c = CHR 0x22 \<or> c = CHR 0x5C then [CHR 0x5C, c]
      else if c = LF then [CHR 0x5C, CHR ''n'']
      else if c = CR then [CHR 0x5C, CHR ''r'']
      else if c = CHR 0x09 then [CHR 0x5C, CHR ''t'']
      else if code c = 0 then [CHR 0x5C, CHR ''0'']
      else if code c < 32 \<or> code c = 127 then [CHR 0x5C] @ ''u{'' @ show_radix 16 (code c) @ ''}''
      else [c])"

definition debug_str :: "string \<Rightarrow> string" where
  "debug_str s = DQ @ concat (map debug_char s) @ DQ"

end
