(* ===== verification/Errors.thy ===== *)
theory Errors
  imports Text
begin

text \<open>
  The error type of the engine (\<open>error.rs\<close>), its classification into
  permanent and transient failures, the resolved configuration and the parser
  of the pinned certificate fingerprint (\<open>config.rs\<close>).

  A \<open>std::io::Error\<close> is its kind and its text; the kinds are those the client
  tells apart.
\<close>

datatype io_kind = Unexpected_Eof | Other_Kind

datatype io_error = Io_Error (io_kind: io_kind) (io_text: string)

datatype vpn_error =
    Config_Error string
  | Privilege string
  | Tun string
  | Tun_Unavailable string
  | Routing string
  | Tls string
  | Protocol string
  | Auth_Failed string
  | Server_Disconnect string
  | Io io_error
  | Not_Implemented string

fun is_permanent :: "vpn_error \<Rightarrow> bool" where
  "is_permanent (Config_Error _) = True"
| "is_permanent (Privilege _) = True"
| "is_permanent (Auth_Failed _) = True"
| "is_permanent (Tun_Unavailable _) = True"
| "is_permanent _ = False"

fun show_error :: "vpn_error \<Rightarrow> string" where
  "show_error (Config_Error s) = ''configuration error: '' @ s"
| "show_error (Privilege s) = ''privilege error: '' @ s"
| "show_error (Tun s) = ''TUN error: '' @ s"
| "show_error (Tun_Unavailable s) = ''TUN unavailable: '' @ s"
| "show_error (Routing s) = ''routing error: '' @ s"
| "show_error (Tls s) = ''TLS error: '' @ s"
| "show_error (Protocol s) = ''protocol error: '' @ s"
| "show_error (Auth_Failed s) = ''authentication failed: '' @ s"
| "show_error (Server_Disconnect s) = ''server disconnected: '' @ s"
| "show_error (Io e) = ''I/O error: '' @ io_text e"
| "show_error (Not_Implemented s) = ''not implemented: '' @ s"

type_synonym 'a result = "vpn_error + 'a"

section \<open>Configuration\<close>

datatype protocol = AnyConnect | Checkpoint | FortiGate

definition default_protocol :: protocol where "default_protocol = AnyConnect"

record config =
  cfg_host :: string
  cfg_port :: "16 word"
  cfg_username :: string
  cfg_password :: "string option"
  cfg_verbose :: bool
  cfg_cert_sha256 :: "bytes option"
  cfg_insecure :: bool
  cfg_protocol :: protocol
  cfg_realm :: string

definition config_new :: "string \<Rightarrow> 16 word \<Rightarrow> string \<Rightarrow> config" where
  "config_new h p u =
    \<lparr>cfg_host = h, cfg_port = p, cfg_username = u, cfg_password = None, cfg_verbose = False, cfg_cert_sha256 = None,
     cfg_insecure = False, cfg_protocol = default_protocol, cfg_realm = []\<rparr>"

section \<open>Certificate fingerprints\<close>

definition is_hexdigit :: "char \<Rightarrow> bool" where
  "is_hexdigit c = (digit_val 16 c \<noteq> None)"

text \<open>\<open>u8::from_str_radix(.., 16)\<close> of two characters.\<close>

fun hex_pairs :: "string \<Rightarrow> bytes option" where
  "hex_pairs [] = Some []"
| "hex_pairs [c] = None"
| "hex_pairs (c # d # s) =
     (case (parse_radix 16 256 [c, d], hex_pairs s) of
        (Some n, Some bs) \<Rightarrow> Some (as_u8 n # bs)
      | _ \<Rightarrow> None)"

definition clean_fingerprint :: "string \<Rightarrow> string" where
  "clean_fingerprint input =
    concat (filter (\<lambda>c. c \<noteq> '':'' \<and> \<not> is_whitespace c)
      (chars (trim_start_matches ''SHA256:'' (trim_start_matches ''sha256:'' (trim input)))))"

definition parse_sha256_fingerprint :: "string \<Rightarrow> bytes result" where
  "parse_sha256_fingerprint input =
    (let cleaned = clean_fingerprint input in
     if length cleaned \<noteq> 64 \<or> \<not> list_all is_hexdigit cleaned then
       Inl (Config_Error (''invalid SHA-256 fingerprint '' @ [CHR 0x27] @ input @ [CHR 0x27] @
         '': expected 64 hex characters (32 bytes)''))
     else ok_or (Config_Error ''invalid fingerprint hex'') (hex_pairs cleaned))"

lemma is_hexdigit_parse:
  "is_hexdigit c \<Longrightarrow> is_hexdigit d \<Longrightarrow> \<exists>n < 256. parse_radix 16 256 [c, d] = Some n"
proof -
  assume c: "is_hexdigit c" and d: "is_hexdigit d"
  from c obtain x where x: "digit_val 16 c = Some x" "x < 16"
    by (auto simp: is_hexdigit_def digit_val.simps Let_def split: if_splits)
  from d obtain y where y: "digit_val 16 d = Some y" "y < 16"
    by (auto simp: is_hexdigit_def digit_val.simps Let_def split: if_splits)
  have "c \<noteq> CHR ''+''" using c by (auto simp: is_hexdigit_def digit_val.simps Let_def)
  with x y show ?thesis by (simp add: parse_radix_def Let_def)
qed

lemma hex_pairs_length:
  "hex_pairs s = Some bs \<Longrightarrow> length s = 2 * length bs"
  by (induction s arbitrary: bs rule: hex_pairs.induct) (auto split: option.splits)

lemma hex_pairs_total:
  "list_all is_hexdigit s \<Longrightarrow> even (length s) \<Longrightarrow> \<exists>bs. hex_pairs s = Some bs"
proof (induction s rule: hex_pairs.induct)
  case (3 c d s)
  then obtain bs where "hex_pairs s = Some bs" by auto
  moreover from 3 obtain n where "parse_radix 16 256 [c, d] = Some n"
    using is_hexdigit_parse[of c d] by auto
  ultimately show ?case by simp
qed auto

text \<open>The conversion of two digits cannot fail, and the result has 32 bytes.\<close>

lemma parse_sha256_fingerprint_Inr:
  "is_ok (parse_sha256_fingerprint s) \<longleftrightarrow>
     length (clean_fingerprint s) = 64 \<and> list_all is_hexdigit (clean_fingerprint s)"
  using hex_pairs_total[of "clean_fingerprint s"]
  by (auto simp: parse_sha256_fingerprint_def Let_def)

lemma parse_sha256_fingerprint_length:
  "parse_sha256_fingerprint s = Inr bs \<Longrightarrow> length bs = 32"
  by (auto simp: parse_sha256_fingerprint_def Let_def split: if_splits dest: hex_pairs_length)

end
