(* ===== verification/Stream_Decoder.thy ===== *)
theory Stream_Decoder
  imports Errors
begin

text \<open>
  The contract of the buffered decoders.  Every \<open>try_decode_*\<close> of the engine
  takes one frame off the front of a receive buffer that the caller keeps
  across reads: \<open>Ok(None)\<close> means that more bytes are needed and leaves the buffer
  as it is.  \<open>drain\<close> is the loop of the callers, which decodes until the decoder
  asks for more or fails; \<open>feed\<close> appends one read to the buffer and drains, the
  way the forwarding loop does for each read.

  The interface \<open>stream_decoder\<close> holds the laws a decoder must obey; its lemmas
  show that draining returns, and that a sequence of reads yields the frames of
  the whole byte stream, no matter where the reads cut it.  \<open>frame_codec\<close>
  extends it with an encoder, and gives that back-to-back frames decode to the
  sequence that was encoded.
\<close>

text \<open>The result of a decoder that works on a \<open>&mut BytesMut\<close>: what it returns, and the buffer after.\<close>

type_synonym 'f decoder = "bytes \<Rightarrow> 'f option result \<times> bytes"

text \<open>
  The decode loop.  Not returning is the value \<open>None\<close>.  The result is the frames
  in order, and either the error that stopped the loop or the bytes left over.
\<close>

partial_function (option) drain_from ::
  "'f decoder \<Rightarrow> 'f list \<Rightarrow> bytes \<Rightarrow> ('f list \<times> (vpn_error + bytes)) option" where
  "drain_from dec acc buf =
     (case dec buf of
        (Inl e, _) \<Rightarrow> Some (acc, Inl e)
      | (Inr None, b) \<Rightarrow> Some (acc, Inr b)
      | (Inr (Some f), b) \<Rightarrow> drain_from dec (acc @ [f]) b)"

declare drain_from.simps [code]

definition drain :: "'f decoder \<Rightarrow> bytes \<Rightarrow> ('f list \<times> (vpn_error + bytes)) option" where
  "drain dec buf = drain_from dec [] buf"

text \<open>Reads are appended to the buffer one at a time, each followed by a drain.\<close>

fun feed :: "'f decoder \<Rightarrow> bytes \<Rightarrow> bytes list \<Rightarrow> ('f list \<times> (vpn_error + bytes)) option" where
  "feed dec buf [] = Some ([], Inr buf)"
| "feed dec buf (c # cs) =
     (case drain dec (buf @ c) of
        None \<Rightarrow> None
      | Some (fs, Inl e) \<Rightarrow> Some (fs, Inl e)
      | Some (fs, Inr rest) \<Rightarrow> map_option (\<lambda>(gs, r). (fs @ gs, r)) (feed dec rest cs))"

text \<open>A decoder followed by a classification of the frames.\<close>

definition map_decoder :: "('f \<Rightarrow> 'g) \<Rightarrow> 'f decoder \<Rightarrow> 'g decoder" where
  "map_decoder g dec buf =
     (case dec buf of
        (Inl e, b) \<Rightarrow> (Inl e, b)
      | (Inr None, b) \<Rightarrow> (Inr None, b)
      | (Inr (Some f), b) \<Rightarrow> (Inr (Some (g f)), b))"

locale stream_decoder =
  fixes dec :: "'f decoder"
  assumes need_more_keeps: "dec b = (Inr None, b') \<Longrightarrow> b' = b"
    and progress: "dec b = (Inr (Some f), b') \<Longrightarrow> length b' < length b"
    and frame_stable: "dec b = (Inr (Some f), b') \<Longrightarrow> dec (b @ c) = (Inr (Some f), b' @ c)"
    and error_stable: "dec b = (Inl e, b') \<Longrightarrow> fst (dec (b @ c)) = Inl e"
begin

lemma decode_cases [case_names error more frame]:
  obtains e b' where "dec b = (Inl e, b')"
  | "dec b = (Inr None, b)"
  | f b' where "dec b = (Inr (Some f), b')" "length b' < length b"
proof (cases "dec b")
  case (Pair r b')
  show thesis
  proof (cases r)
    case (Inl e)
    with Pair show thesis by (intro that(1)) simp
  next
    case (Inr fo)
    show thesis
    proof (cases fo)
      case None
      with Pair Inr show thesis using need_more_keeps[of b b'] by (intro that(2)) simp
    next
      case (Some f)
      with Pair Inr show thesis using progress[of b f b'] by (intro that(3)) simp_all
    qed
  qed
qed

lemma drain_from_acc:
  "drain_from dec acc b = map_option (\<lambda>(fs, r). (acc @ fs, r)) (drain_from dec [] b)"
proof (induction "length b" arbitrary: b acc rule: less_induct)
  case less
  show ?case
  proof (cases b rule: decode_cases)
    case (frame f b')
    show ?thesis
      by (simp add: drain_from.simps[of dec _ b] frame(1) less[OF frame(2), of "acc @ [f]"]
          less[OF frame(2), of "[f]"] option.map_comp o_def split_def)
  qed (simp_all add: drain_from.simps[of dec _ b])
qed

lemma drain_error: "dec b = (Inl e, b') \<Longrightarrow> drain dec b = Some ([], Inl e)"
  by (simp add: drain_def drain_from.simps[of dec _ b])

lemma drain_more: "dec b = (Inr None, b) \<Longrightarrow> drain dec b = Some ([], Inr b)"
  by (simp add: drain_def drain_from.simps[of dec _ b])

lemma drain_frame:
  "dec b = (Inr (Some f), b') \<Longrightarrow>
     drain dec b = map_option (\<lambda>(fs, r). (f # fs, r)) (drain dec b')"
  by (simp add: drain_def drain_from.simps[of dec _ b] drain_from_acc[of "[f]"])

lemma drain_total: "\<exists>fs r. drain dec b = Some (fs, r)"
proof (induction "length b" arbitrary: b rule: less_induct)
  case less
  show ?case
    by (cases b rule: decode_cases)
       (auto simp: drain_error drain_more drain_frame dest!: less)
qed

lemma drain_stuck:
  "drain dec b = Some (fs, Inr rest) \<Longrightarrow> dec rest = (Inr None, rest)"
proof (induction "length b" arbitrary: b fs rule: less_induct)
  case less
  show ?case
  proof (cases b rule: decode_cases)
    case (frame f b')
    then show ?thesis using less by (auto simp: drain_frame)
  qed (use less.prems in \<open>auto simp: drain_error drain_more\<close>)
qed

lemma drain_append_rest:
  "drain dec b = Some (fs, Inr rest) \<Longrightarrow>
     drain dec (b @ c) = map_option (\<lambda>(gs, r). (fs @ gs, r)) (drain dec (rest @ c))"
proof (induction "length b" arbitrary: b fs rule: less_induct)
  case less
  show ?case
  proof (cases b rule: decode_cases)
    case (error e b')
    then show ?thesis using less.prems by (simp add: drain_error)
  next
    case more
    then show ?thesis using less.prems by (auto simp: drain_more option.map_id)
  next
    case (frame f b')
    then obtain fs' where fs': "drain dec b' = Some (fs', Inr rest)" "fs = f # fs'"
      using less.prems by (auto simp: drain_frame)
    show ?thesis
      by (simp add: drain_frame[OF frame_stable[OF frame(1)]] less.hyps[OF frame(2) fs'(1)] fs'(2)
          option.map_comp o_def split_def)
  qed
qed

lemma drain_append_error:
  "drain dec b = Some (fs, Inl e) \<Longrightarrow> drain dec (b @ c) = Some (fs, Inl e)"
proof (induction "length b" arbitrary: b fs rule: less_induct)
  case less
  show ?case
  proof (cases b rule: decode_cases)
    case (error e' b')
    then obtain b'' where "dec (b @ c) = (Inl e', b'')"
      using error_stable[of b e' b' c] by (cases "dec (b @ c)") auto
    then show ?thesis using less.prems error by (simp add: drain_error)
  next
    case more
    then show ?thesis using less.prems by (simp add: drain_more)
  next
    case (frame f b')
    then obtain fs' where fs': "drain dec b' = Some (fs', Inl e)" "fs = f # fs'"
      using less.prems by (auto simp: drain_frame)
    show ?thesis
      by (simp add: drain_frame[OF frame_stable[OF frame(1)]] less.hyps[OF frame(2) fs'(1)] fs'(2))
  qed
qed

text \<open>Where the reads cut the stream does not matter.\<close>

lemma feed_chunks:
  "cs \<noteq> [] \<Longrightarrow> feed dec buf cs = drain dec (buf @ concat cs)"
proof (induction cs arbitrary: buf)
  case (Cons c cs)
  obtain fs r where d: "drain dec (buf @ c) = Some (fs, r)" using drain_total by blast
  show ?case
  proof (cases r)
    case (Inl e)
    then show ?thesis using d drain_append_error[of "buf @ c" fs e "concat cs"] by simp
  next
    case (Inr rest)
    have "feed dec rest cs = drain dec (rest @ concat cs)"
    proof (cases "cs = []")
      case True
      then show ?thesis using drain_stuck d Inr by (simp add: drain_more)
    next
      case False
      then show ?thesis by (rule Cons.IH)
    qed
    then show ?thesis using d Inr drain_append_rest[of "buf @ c" fs rest "concat cs"] by simp
  qed
qed simp

lemma feed_same_stream:
  "cs \<noteq> [] \<Longrightarrow> ds \<noteq> [] \<Longrightarrow> concat cs = concat ds \<Longrightarrow> feed dec buf cs = feed dec buf ds"
  by (simp add: feed_chunks)

text \<open>Classifying what is decoded keeps the laws.\<close>

lemma mapped: "stream_decoder (map_decoder g dec)"
proof
  fix b b' c :: bytes and f e
  show "map_decoder g dec b = (Inr None, b') \<Longrightarrow> b' = b"
    by (cases b rule: decode_cases) (auto simp: map_decoder_def)
  show "map_decoder g dec b = (Inr (Some f), b') \<Longrightarrow> length b' < length b"
    by (cases b rule: decode_cases) (auto simp: map_decoder_def)
  show "map_decoder g dec b = (Inr (Some f), b') \<Longrightarrow> map_decoder g dec (b @ c) = (Inr (Some f), b' @ c)"
    by (cases b rule: decode_cases) (auto simp: map_decoder_def frame_stable)
  show "map_decoder g dec b = (Inl e, b') \<Longrightarrow> fst (map_decoder g dec (b @ c)) = Inl e"
    by (cases b rule: decode_cases)
       (auto simp: map_decoder_def dest: error_stable[of _ _ _ c] split: prod.splits)
qed

end

locale frame_codec = stream_decoder dec for dec :: "'f decoder" +
  fixes enc :: "'p \<Rightarrow> bytes" and ev :: "'p \<Rightarrow> 'f" and ok :: "'p \<Rightarrow> bool"
  assumes decode_encode: "ok p \<Longrightarrow> dec (enc p @ rest) = (Inr (Some (ev p)), rest)"
begin

lemma drain_encoded:
  "list_all ok ps \<Longrightarrow>
     drain dec (concat (map enc ps) @ rest)
       = map_option (\<lambda>(fs, r). (map ev ps @ fs, r)) (drain dec rest)"
proof (induction ps)
  case Nil
  then show ?case by (simp add: case_prod_eta option.map_ident)
next
  case (Cons p ps)
  then show ?case
    using decode_encode[of p "concat (map enc ps) @ rest"]
    by (simp add: drain_frame option.map_comp o_def split_def)
qed

lemma feed_encoded:
  assumes "list_all ok ps" "cs \<noteq> []" "concat cs = concat (map enc ps)"
    and "dec [] = (Inr None, [])"
  shows "feed dec [] cs = Some (map ev ps, Inr [])"
  using assms drain_encoded[of ps "[]"] by (simp add: feed_chunks drain_more)

end

end
