(* ===== verification/Ipv4.thy ===== *)
theory Ipv4
  imports Text
begin

text \<open>
  \<open>std::net::Ipv4Addr\<close>: four octets, its value as a 32-bit number
  (\<open>u32::from\<close>), its text form and the parser of that form.  Addresses are
  ordered by value, as Rust orders them.
\<close>

datatype ipv4 = Ipv4 (oct1: byte) (oct2: byte) (oct3: byte) (oct4: byte)

fun ipv4_bits :: "ipv4 \<Rightarrow> 32 word" where
  "ipv4_bits (Ipv4 a b c d) = from_be32 a b c d"

definition ipv4_of_bits :: "32 word \<Rightarrow> ipv4" where
  "ipv4_of_bits w =
     Ipv4 (ucast (drop_bit 24 w)) (ucast (drop_bit 16 w)) (ucast (drop_bit 8 w)) (ucast w)"

definition unspecified :: ipv4 where "unspecified = Ipv4 0 0 0 0"

definition is_unspecified :: "ipv4 \<Rightarrow> bool" where
  "is_unspecified a = (a = unspecified)"

lemma ipv4_bits_of_bits [simp]: "ipv4_bits (ipv4_of_bits w) = w"
  by (simp add: ipv4_of_bits_def)

lemma ipv4_of_bits_bits [simp]: "ipv4_of_bits (ipv4_bits a) = a"
proof -
  have "ipv4_of_bits w = (case to_be32 w of [a, b, c, d] \<Rightarrow> Ipv4 a b c d | _ \<Rightarrow> unspecified)" for w
    by (simp add: ipv4_of_bits_def to_be32_def)
  then show ?thesis by (cases a) simp
qed

lemma ipv4_bits_inject [simp]: "ipv4_bits a = ipv4_bits b \<longleftrightarrow> a = b"
  by (metis ipv4_of_bits_bits)

instantiation ipv4 :: linorder
begin

definition less_eq_ipv4 :: "ipv4 \<Rightarrow> ipv4 \<Rightarrow> bool" where
  "less_eq_ipv4 a b = (ipv4_bits a \<le> ipv4_bits b)"

definition less_ipv4 :: "ipv4 \<Rightarrow> ipv4 \<Rightarrow> bool" where
  "less_ipv4 a b = (ipv4_bits a < ipv4_bits b)"

instance
  by standard (auto simp: less_eq_ipv4_def less_ipv4_def less_le_not_le antisym)

end

section \<open>Text form\<close>

definition show_ipv4 :: "ipv4 \<Rightarrow> string" where
  "show_ipv4 a = join ''.'' (map (show_nat \<circ> unat) [oct1 a, oct2 a, oct3 a, oct4 a])"

text \<open>
  The parser of the standard library: four decimal octets of at most three
  digits, without leading zeros, with nothing around them.
\<close>

definition parse_octet :: "string \<Rightarrow> byte option" where
  "parse_octet s =
     (if s = [] \<or> 3 < length s \<or> (1 < length s \<and> hd s = CHR ''0'') then None
      else map_option as_u8 (parse_digits 10 256 0 s))"

definition parse_ipv4 :: "string \<Rightarrow> ipv4 option" where
  "parse_ipv4 s =
     (case map parse_octet (split_on (CHR ''.'') s) of
        [Some a, Some b, Some c, Some d] \<Rightarrow> Some (Ipv4 a b c d)
      | _ \<Rightarrow> None)"

lemma parse_octet_show: "parse_octet (show_nat (unat b)) = Some b"
proof -
  have n: "unat b < 256" by simp
  then have "unat b < 1000" by (rule less_trans) simp
  then have len: "length (show_nat (unat b)) \<le> 3"
    using length_show_radix[of 10 "unat b" 3] by (simp add: show_nat_def)
  have hd: "hd (show_nat (unat b)) \<noteq> CHR ''0''" if "1 < length (show_nat (unat b))"
  proof (cases "unat b = 0")
    case True
    with that show ?thesis by (simp add: show_nat_def show_radix.simps)
  next
    case False
    then show ?thesis using hd_show_radix[of 10 "unat b"] by (simp add: show_nat_def)
  qed
  have "parse_digits 10 256 0 (show_nat (unat b)) = Some (unat b)"
    using parse_digits_show[of 10 "unat b" 256] n by (simp add: show_nat_def)
  with len hd show ?thesis by (auto simp: parse_octet_def)
qed

lemma dot_not_in_show_nat: "CHR ''.'' \<notin> set (show_nat n)"
  using set_show_nat[of n] by auto

theorem parse_show_ipv4: "parse_ipv4 (show_ipv4 a) = Some a"
proof -
  have "split_on (CHR ''.'') (show_ipv4 a) = map (show_nat \<circ> unat) [oct1 a, oct2 a, oct3 a, oct4 a]"
    by (simp add: show_ipv4_def split_on_append split_on_no_sep dot_not_in_show_nat)
  then show ?thesis by (simp add: parse_ipv4_def parse_octet_show)
qed

end
