(* ===== verification/Session_Params.thy ===== *)
theory Session_Params
  imports Ipv4
begin

text \<open>
  What the tunnel needs to know of a session, whatever the protocol
  (\<open>SessionParams\<close> of \<open>tunnel.rs\<close>), and the arithmetic of network masks that the
  FortiGate and Check Point configurations share.
\<close>

record session_params =
  sp_address :: ipv4
  sp_netmask :: "ipv4 option"
  sp_dns :: "ipv4 list"
  sp_mtu :: "16 word"
  sp_keepalive :: "nat option"
  sp_dpd :: "nat option"
  sp_disconnected_timeout :: "nat option"

section \<open>Masks\<close>

text \<open>\<open>u32::MAX << (32 - p)\<close>, and zero for the empty prefix.\<close>

definition prefix_bits :: "nat \<Rightarrow> 32 word" where
  "prefix_bits p = (if p = 0 then 0 else push_bit (32 - p) (- 1))"

definition count_ones :: "32 word \<Rightarrow> nat" where
  "count_ones w = length (filter (bit w) [0..<32])"

lemma bit_prefix_bits:
  "p \<le> 32 \<Longrightarrow> bit (prefix_bits p) n \<longleftrightarrow> 32 - p \<le> n \<and> n < 32"
  by (auto simp: prefix_bits_def bit_simps)

lemma count_ones_prefix_bits [simp]: "p \<le> 32 \<Longrightarrow> count_ones (prefix_bits p) = p"
proof -
  assume p: "p \<le> 32"
  have "[0..<32] = [0..<32 - p] @ [32 - p..<32]"
    using upt_add_eq_append[of 0 "32 - p" p] p by simp
  moreover have "filter (bit (prefix_bits p)) [0..<32 - p] = []"
    by (auto simp: filter_empty_conv bit_prefix_bits p)
  moreover have "filter (bit (prefix_bits p)) [32 - p..<32] = [32 - p..<32]"
    by (auto simp: filter_id_conv bit_prefix_bits p)
  ultimately have "filter (bit (prefix_bits p)) [0..<32] = [32 - p..<32]"
    by (simp only: filter_append append_Nil)
  then show ?thesis by (simp add: count_ones_def p)
qed

lemma count_ones_le: "count_ones w \<le> 32"
  unfolding count_ones_def using length_filter_le[of "bit w" "[0..<32]"] by simp

text \<open>Pushing addresses that are new, in order.\<close>

definition push_new :: "'a \<Rightarrow> 'a list \<Rightarrow> 'a list" where
  "push_new a xs = (if a \<in> set xs then xs else xs @ [a])"

lemma distinct_push_new [simp]: "distinct (push_new a xs) \<longleftrightarrow> distinct xs"
  by (simp add: push_new_def)

lemma set_push_new [simp]: "set (push_new a xs) = insert a (set xs)"
  by (auto simp: push_new_def)

lemma distinct_fold_push_new [simp]: "distinct xs \<Longrightarrow> distinct (fold push_new ys xs)"
  by (induction ys arbitrary: xs) auto

lemma set_fold_push_new [simp]: "set (fold push_new ys xs) = set xs \<union> set ys"
  by (induction ys arbitrary: xs) auto

end
