(* ===== verification/Net_Io.thy ===== *)
theory Net_Io
  imports Errors
begin

text \<open>
  The byte stream under every protocol (a TLS connection, through
  \<open>AsyncRead\<close> and \<open>AsyncWrite\<close>) and the clock, as an explicit state.

  What the peer sends is a script: each entry is the time (in milliseconds) at
  which it becomes readable and what one \<open>read\<close> returns.  \<open>Data []\<close> is a read
  of zero bytes (end of stream).  When the script is exhausted the peer is
  silent for ever.  What the client writes is recorded in \<open>sent\<close>; the script
  of write outcomes makes a write fail when its next entry is an error.
  Computing takes no time: the clock moves only while a read waits.
\<close>

datatype read_event = Data bytes | Read_Fail io_error

record stream =
  clock :: nat
  inbox :: "(nat \<times> read_event) list"
  write_script :: "io_error option list"
  sent :: "bytes list"

text \<open>One read without a timeout: \<open>None\<close> when it never returns.\<close>

definition read_ev :: "stream \<Rightarrow> (read_event \<times> stream) option" where
  "read_ev s =
     (case inbox s of [] \<Rightarrow> None
      | (a, ev) # rest \<Rightarrow> Some (ev, s\<lparr>clock := max (clock s) a, inbox := rest\<rparr>))"

text \<open>\<open>tokio::time::timeout(left, read)\<close>: \<open>None\<close> when the timer fires first.\<close>

definition read_timeout :: "nat \<Rightarrow> stream \<Rightarrow> read_event option \<times> stream" where
  "read_timeout left s =
     (case inbox s of
        (a, ev) # rest \<Rightarrow>
          if a \<le> clock s + left then (Some ev, s\<lparr>clock := max (clock s) a, inbox := rest\<rparr>)
          else (None, s\<lparr>clock := clock s + left\<rparr>)
      | [] \<Rightarrow> (None, s\<lparr>clock := clock s + left\<rparr>))"

text \<open>\<open>write_all\<close> followed by \<open>flush\<close>.\<close>

definition write_flush :: "bytes \<Rightarrow> stream \<Rightarrow> unit result \<times> stream" where
  "write_flush b s =
     (case write_script s of
        Some e # rest \<Rightarrow> (Inl (Io e), s\<lparr>write_script := rest\<rparr>)
      | None # rest \<Rightarrow> (Inr (), s\<lparr>write_script := rest, sent := sent s @ [b]\<rparr>)
      | [] \<Rightarrow> (Inr (), s\<lparr>sent := sent s @ [b]\<rparr>))"

lemma read_timeout_less:
  "read_timeout left s = (Some ev, s') \<Longrightarrow> length (inbox s') < length (inbox s)"
  by (auto simp: read_timeout_def split: list.splits if_splits)

lemma read_timeout_clock:
  "read_timeout left s = (r, s') \<Longrightarrow> clock s \<le> clock s' \<and> clock s' \<le> clock s + left"
  by (auto simp: read_timeout_def split: list.splits if_splits)

lemma read_timeout_None_clock:
  "read_timeout left s = (None, s') \<Longrightarrow> clock s' = clock s + left"
  by (auto simp: read_timeout_def split: list.splits if_splits)

lemma read_timeout_sent:
  "read_timeout left s = (r, s') \<Longrightarrow> sent s' = sent s \<and> write_script s' = write_script s"
  by (auto simp: read_timeout_def split: list.splits if_splits)

lemma write_flush_clock:
  "write_flush b s = (r, s') \<Longrightarrow> clock s' = clock s \<and> inbox s' = inbox s"
  by (auto simp: write_flush_def split: list.splits option.splits)

lemma write_flush_ok:
  "write_flush b s = (Inr u, s') \<Longrightarrow> sent s' = sent s @ [b]"
  by (auto simp: write_flush_def split: list.splits option.splits)

lemma write_flush_sent:
  "write_flush b s = (r, s') \<Longrightarrow> sent s' = sent s \<or> sent s' = sent s @ [b]"
  by (auto simp: write_flush_def split: list.splits option.splits)

lemma write_flush_error:
  "write_flush b s = (Inl e, s') \<Longrightarrow> \<exists>io. e = Io io"
  by (auto simp: write_flush_def split: list.splits option.splits)

section \<open>Reads into a fixed buffer\<close>

text \<open>
  \<open>read(&mut chunk)\<close> returns at most the size of the chunk; what is left of the
  event is read next.
\<close>

definition cap_event :: "nat \<Rightarrow> nat \<times> read_event \<Rightarrow> (nat \<times> read_event) list \<Rightarrow> read_event \<times> (nat \<times> read_event) list" where
  "cap_event cap ae rest =
     (case ae of
        (a, Data d) \<Rightarrow> if length d \<le> cap then (Data d, rest) else (Data (take cap d), (a, Data (drop cap d)) # rest)
      | (_, ev) \<Rightarrow> (ev, rest))"

definition read_chunk_timeout :: "nat \<Rightarrow> nat \<Rightarrow> stream \<Rightarrow> read_event option \<times> stream" where
  "read_chunk_timeout cap left s =
     (case inbox s of
        ae # rest \<Rightarrow>
          if fst ae \<le> clock s + left then
            (let (ev, inbox') = cap_event cap ae rest in
             (Some ev, s\<lparr>clock := max (clock s) (fst ae), inbox := inbox'\<rparr>))
          else (None, s\<lparr>clock := clock s + left\<rparr>)
      | [] \<Rightarrow> (None, s\<lparr>clock := clock s + left\<rparr>))"

definition read_chunk :: "nat \<Rightarrow> stream \<Rightarrow> (read_event \<times> stream) option" where
  "read_chunk cap s =
     (case inbox s of
        ae # rest \<Rightarrow>
          (let (ev, inbox') = cap_event cap ae rest in
           Some (ev, s\<lparr>clock := max (clock s) (fst ae), inbox := inbox'\<rparr>))
      | [] \<Rightarrow> None)"

fun event_size :: "nat \<times> read_event \<Rightarrow> nat" where
  "event_size (_, Data d) = length d + 1"
| "event_size (_, Read_Fail _) = 1"

definition inbox_size :: "stream \<Rightarrow> nat" where
  "inbox_size s = sum_list (map event_size (inbox s))"

lemma cap_event_size:
  "0 < cap \<Longrightarrow> cap_event cap ae rest = (ev, inbox') \<Longrightarrow>
     sum_list (map event_size inbox') < event_size ae + sum_list (map event_size rest)"
  by (cases ae) (auto simp: cap_event_def split: read_event.splits if_splits)

lemma read_chunk_timeout_size:
  "0 < cap \<Longrightarrow> read_chunk_timeout cap left s = (Some ev, s') \<Longrightarrow> inbox_size s' < inbox_size s"
  by (auto simp: read_chunk_timeout_def inbox_size_def split: list.splits if_splits prod.splits
      dest: cap_event_size)

lemma read_chunk_size:
  "0 < cap \<Longrightarrow> read_chunk cap s = Some (ev, s') \<Longrightarrow> inbox_size s' < inbox_size s"
  by (auto simp: read_chunk_def inbox_size_def split: list.splits prod.splits dest: cap_event_size)

lemma read_chunk_timeout_clock:
  "read_chunk_timeout cap left s = (r, s') \<Longrightarrow> clock s \<le> clock s' \<and> clock s' \<le> clock s + left"
  by (auto simp: read_chunk_timeout_def split: list.splits if_splits prod.splits)

lemma read_chunk_timeout_cap:
  "read_chunk_timeout cap left s = (Some (Data d), s') \<Longrightarrow> length d \<le> cap"
  by (auto simp: read_chunk_timeout_def cap_event_def split: list.splits if_splits prod.splits read_event.splits)

section \<open>How a call can end\<close>

text \<open>
  A call returns a result, panics, or never returns (an await with no timeout
  on a peer that stays silent).
\<close>

datatype 'a outcome = Returned "'a result" | Panicked | Hangs

fun outcome_then :: "'a outcome \<Rightarrow> ('a \<Rightarrow> 'b outcome) \<Rightarrow> 'b outcome" where
  "outcome_then (Returned (Inl e)) f = Returned (Inl e)"
| "outcome_then (Returned (Inr a)) f = f a"
| "outcome_then Panicked f = Panicked"
| "outcome_then Hangs f = Hangs"

lemma outcome_then_Hangs [simp]:
  "outcome_then r f = Hangs \<longleftrightarrow> r = Hangs \<or> (\<exists>a. r = Returned (Inr a) \<and> f a = Hangs)"
  by (induction r f rule: outcome_then.induct) auto

lemma outcome_then_Panicked [simp]:
  "outcome_then r f = Panicked \<longleftrightarrow> r = Panicked \<or> (\<exists>a. r = Returned (Inr a) \<and> f a = Panicked)"
  by (induction r f rule: outcome_then.induct) auto

lemma outcome_then_Inr [simp]:
  "outcome_then r f = Returned (Inr b) \<longleftrightarrow> (\<exists>a. r = Returned (Inr a) \<and> f a = Returned (Inr b))"
  by (induction r f rule: outcome_then.induct) auto

lemma outcome_then_Inl [simp]:
  "outcome_then r f = Returned (Inl e) \<longleftrightarrow>
     r = Returned (Inl e) \<or> (\<exists>a. r = Returned (Inr a) \<and> f a = Returned (Inl e))"
  by (induction r f rule: outcome_then.induct) auto

end
