(* ===== verification/Cstp.thy ===== *)
theory Cstp
  imports Stream_Decoder Session_Params Net_Io
begin

text \<open>
  AnyConnect's tunnel protocol (\<open>tunnel.rs\<close>): the CSTP frame codec, the CONNECT
  upgrade with the parser of its response, and the trust in the server's
  certificate.  The decoder is an instance of \<open>stream_decoder\<close> and, with the
  encoder of data frames, of \<open>frame_codec\<close>.
\<close>

section \<open>Frames\<close>

definition CSTP_HEADER_LEN :: nat where "CSTP_HEADER_LEN = 8"
definition CSTP_MAGIC :: bytes where "CSTP_MAGIC = [0x53, 0x54, 0x46]"
definition CSTP_VERSION :: byte where "CSTP_VERSION = 0x01"

datatype cstp_type = CData | DpdOut | DpdResp | Disconnect | Keepalive | Compressed | TermServer

fun cstp_to_u8 :: "cstp_type \<Rightarrow> byte" where
  "cstp_to_u8 CData = 0x00"
| "cstp_to_u8 DpdOut = 0x03"
| "cstp_to_u8 DpdResp = 0x04"
| "cstp_to_u8 Disconnect = 0x05"
| "cstp_to_u8 Keepalive = 0x07"
| "cstp_to_u8 Compressed = 0x08"
| "cstp_to_u8 TermServer = 0x09"

definition cstp_from_u8 :: "byte \<Rightarrow> cstp_type result" where
  "cstp_from_u8 b =
     (if b = 0x00 then Inr CData
      else if b = 0x03 then Inr DpdOut
      else if b = 0x04 then Inr DpdResp
      else if b = 0x05 then Inr Disconnect
      else if b = 0x07 then Inr Keepalive
      else if b = 0x08 then Inr Compressed
      else if b = 0x09 then Inr TermServer
      else Inl (Protocol (''unknown CSTP packet type: 0x'' @ show_hex 2 (unat b))))"

record cstp_packet =
  packet_type :: cstp_type
  cstp_payload :: bytes

definition write_header :: "cstp_type \<Rightarrow> nat \<Rightarrow> bytes" where
  "write_header pt payload_len =
     CSTP_MAGIC @ [CSTP_VERSION] @ to_be16 (as_u16 payload_len) @ [cstp_to_u8 pt, 0x00]"

text \<open>\<open>{:02x?}\<close> of a byte slice.\<close>

definition show_hex_list :: "bytes \<Rightarrow> string" where
  "show_hex_list bs = ''['' @ join '', '' (map (\<lambda>b. show_hex 2 (unat b)) bs) @ '']''"

definition parse_header :: "bytes \<Rightarrow> (cstp_type \<times> nat) result" where
  "parse_header header =
     (if take 3 header \<noteq> CSTP_MAGIC then
        Inl (Protocol (''bad CSTP magic: '' @ show_hex_list (take 3 header)))
      else
        let len = unat (from_be16 (header ! 4) (header ! 5)) in
        and_then (cstp_from_u8 (header ! 6)) (\<lambda>pt. Inr (pt, len)))"

definition cstp_encode_data :: "bytes \<Rightarrow> bytes" where
  "cstp_encode_data payload = write_header CData (length payload) @ payload"

definition cstp_decode :: "bytes \<Rightarrow> cstp_packet result" where
  "cstp_decode frame =
     (if length frame < CSTP_HEADER_LEN then
        Inl (Protocol (''CSTP frame too short: '' @ show_nat (length frame) @ '' bytes''))
      else
        and_then (parse_header (take CSTP_HEADER_LEN frame)) (\<lambda>(pt, len).
          let body = drop CSTP_HEADER_LEN frame in
          if length body \<noteq> len then
            Inl (Protocol (''CSTP length mismatch: header says '' @ show_nat len @ '', body is ''
              @ show_nat (length body)))
          else Inr \<lparr>packet_type = pt, cstp_payload = body\<rparr>))"

definition try_decode_cstp :: "cstp_packet decoder" where
  "try_decode_cstp buf =
     (if length buf < CSTP_HEADER_LEN then (Inr None, buf)
      else case parse_header (take CSTP_HEADER_LEN buf) of
        Inl e \<Rightarrow> (Inl e, buf)
      | Inr (pt, len) \<Rightarrow>
          if length buf < CSTP_HEADER_LEN + len then (Inr None, buf)
          else let (payload, rest) = split_to len (drop CSTP_HEADER_LEN buf) in
               (Inr (Some \<lparr>packet_type = pt, cstp_payload = payload\<rparr>), rest))"

lemma cstp_from_to_u8 [simp]: "cstp_from_u8 (cstp_to_u8 t) = Inr t"
  by (cases t) (simp_all add: cstp_from_u8_def)

lemma cstp_from_u8_Inr: "cstp_from_u8 b = Inr t \<Longrightarrow> b = cstp_to_u8 t"
  by (auto simp: cstp_from_u8_def split: if_splits)

lemma cstp_frame_cases [case_names short long]:
  obtains "length (b :: bytes) < 8" | a1 a2 a3 a4 a5 a6 a7 a8 body where
    "b = a1 # a2 # a3 # a4 # a5 # a6 # a7 # a8 # body"
  by (metis list_length_ge_8 not_less)

lemma try_decode_cstp_short: "length b < 8 \<Longrightarrow> try_decode_cstp b = (Inr None, b)"
  by (simp add: try_decode_cstp_def CSTP_HEADER_LEN_def)

lemma try_decode_cstp_Cons:
  "try_decode_cstp (a1 # a2 # a3 # a4 # l1 # l2 # ty # a8 # body) =
     (let buf = a1 # a2 # a3 # a4 # l1 # l2 # ty # a8 # body; len = unat (from_be16 l1 l2) in
      if [a1, a2, a3] \<noteq> CSTP_MAGIC then (Inl (Protocol (''bad CSTP magic: '' @ show_hex_list [a1, a2, a3])), buf)
      else case cstp_from_u8 ty of
        Inl e \<Rightarrow> (Inl e, buf)
      | Inr pt \<Rightarrow>
          if length body < len then (Inr None, buf)
          else (Inr (Some \<lparr>packet_type = pt, cstp_payload = take len body\<rparr>), drop len body))"
  by (simp add: try_decode_cstp_def parse_header_def CSTP_HEADER_LEN_def split_to_def Let_def
      numeral_eq_Suc split: sum.splits)

interpretation cstp: stream_decoder try_decode_cstp
proof
  fix b b' c :: bytes and f e
  show "try_decode_cstp b = (Inr None, b') \<Longrightarrow> b' = b"
    by (cases b rule: cstp_frame_cases)
       (auto simp: try_decode_cstp_short try_decode_cstp_Cons Let_def split: if_splits sum.splits)
  show "try_decode_cstp b = (Inr (Some f), b') \<Longrightarrow> length b' < length b"
    by (cases b rule: cstp_frame_cases)
       (auto simp: try_decode_cstp_short try_decode_cstp_Cons Let_def split: if_splits sum.splits)
  show "try_decode_cstp b = (Inr (Some f), b') \<Longrightarrow> try_decode_cstp (b @ c) = (Inr (Some f), b' @ c)"
    by (cases b rule: cstp_frame_cases)
       (auto simp: try_decode_cstp_short try_decode_cstp_Cons Let_def split: if_splits sum.splits)
  show "try_decode_cstp b = (Inl e, b') \<Longrightarrow> fst (try_decode_cstp (b @ c)) = Inl e"
    by (cases b rule: cstp_frame_cases)
       (auto simp: try_decode_cstp_short try_decode_cstp_Cons Let_def split: if_splits sum.splits)
qed

lemma decode_write_header:
  assumes "length payload < 65536"
  shows "try_decode_cstp (write_header pt (length payload) @ payload @ rest)
    = (Inr (Some \<lparr>packet_type = pt, cstp_payload = payload\<rparr>), rest)"
  using assms
  by (simp add: write_header_def CSTP_MAGIC_def to_be16_def try_decode_cstp_Cons)

interpretation cstp: frame_codec try_decode_cstp cstp_encode_data
  "\<lambda>p. \<lparr>packet_type = CData, cstp_payload = p\<rparr>" "\<lambda>p. length p < 65536"
  by unfold_locales (simp add: cstp_encode_data_def decode_write_header)

text \<open>The one-frame decoder agrees with the buffered one.\<close>

lemma cstp_decode_buffered:
  "cstp_decode frame = Inr p \<longleftrightarrow> try_decode_cstp frame = (Inr (Some p), [])"
  by (cases frame rule: cstp_frame_cases)
     (auto simp: cstp_decode_def try_decode_cstp_short try_decode_cstp_Cons parse_header_def
        CSTP_HEADER_LEN_def Let_def res split: sum.splits if_splits)

section \<open>The CONNECT upgrade\<close>

definition CONNECT_RESPONSE_MAX :: nat where "CONNECT_RESPONSE_MAX = 64 * 1024"
definition CSTP_DEFAULT_MTU :: "16 word" where "CSTP_DEFAULT_MTU = 1400"

definition build_connect_request :: "string \<Rightarrow> string \<Rightarrow> string" where
  "build_connect_request host cookie =
     ''CONNECT /CSCOSSLC/tunnel HTTP/1.1'' @ CRLF
     @ ''Host: '' @ host @ CRLF
     @ ''User-Agent: AnyConnect Windows 4.10.05085'' @ CRLF
     @ ''Cookie: webvpn='' @ cookie @ CRLF
     @ ''X-CSTP-Version: 1'' @ CRLF
     @ ''X-CSTP-Hostname: vpn-client'' @ CRLF
     @ ''X-CSTP-Address-Type: IPv4'' @ CRLF
     @ ''X-CSTP-MTU: 1400'' @ CRLF
     @ ''X-CSTP-Base-MTU: 1400'' @ CRLF
     @ ''X-CSTP-Full-IPv6-Capability: false'' @ CRLF
     @ CRLF"

record connect_acc =
  ca_address :: "ipv4 option"
  ca_netmask :: "ipv4 option"
  ca_dns :: "ipv4 list"
  ca_mtu :: "16 word"
  ca_keepalive :: "nat option"
  ca_dpd :: "nat option"
  ca_disconnected_timeout :: "nat option"

definition connect_header :: "string \<Rightarrow> connect_acc \<Rightarrow> connect_acc" where
  "connect_header line acc =
     (case split_once '':'' line of
        None \<Rightarrow> acc
      | Some (name0, value0) \<Rightarrow>
          let name = to_ascii_lowercase (trim name0); value = trim value0 in
          if name = ''x-cstp-address'' then acc\<lparr>ca_address := parse_ipv4 value\<rparr>
          else if name = ''x-cstp-netmask'' then acc\<lparr>ca_netmask := parse_ipv4 value\<rparr>
          else if name = ''x-cstp-dns'' then
            (case parse_ipv4 value of Some ip \<Rightarrow> acc\<lparr>ca_dns := ca_dns acc @ [ip]\<rparr> | None \<Rightarrow> acc)
          else if name = ''x-cstp-mtu'' then
            (case parse_uint 65536 value of Some m \<Rightarrow> acc\<lparr>ca_mtu := as_u16 m\<rparr> | None \<Rightarrow> acc)
          else if name = ''x-cstp-keepalive'' then acc\<lparr>ca_keepalive := parse_uint (2 ^ 32) value\<rparr>
          else if name = ''x-cstp-dpd'' then acc\<lparr>ca_dpd := parse_uint (2 ^ 32) value\<rparr>
          else if name = ''x-cstp-disconnected-timeout'' then
            acc\<lparr>ca_disconnected_timeout := parse_uint (2 ^ 32) value\<rparr>
          else acc)"

definition connect_acc_init :: connect_acc where
  "connect_acc_init =
     \<lparr>ca_address = None, ca_netmask = None, ca_dns = [], ca_mtu = CSTP_DEFAULT_MTU, ca_keepalive = None,
      ca_dpd = None, ca_disconnected_timeout = None\<rparr>"

definition parse_connect_response :: "string \<Rightarrow> session_params result" where
  "parse_connect_response raw =
     (let ls = lines raw;
          status = (case ls of [] \<Rightarrow> [] | l # _ \<Rightarrow> l) in
      if \<not> contains_sub ''200'' status then Inl (Tls (''unexpected CONNECT response: '' @ status))
      else
        let acc = fold connect_header (takeWhile (\<lambda>l. l \<noteq> []) (drop 1 ls)) connect_acc_init in
        case ca_address acc of
          None \<Rightarrow> Inl (Tls ''server did not assign an address (missing X-CSTP-Address)'')
        | Some a \<Rightarrow>
            Inr \<lparr>sp_address = a, sp_netmask = ca_netmask acc, sp_dns = ca_dns acc, sp_mtu = ca_mtu acc,
                 sp_keepalive = ca_keepalive acc, sp_dpd = ca_dpd acc,
                 sp_disconnected_timeout = ca_disconnected_timeout acc\<rparr>)"

text \<open>The read loop has no timeout: \<open>Hangs\<close> when the server stays silent.\<close>

function read_connect_response :: "bytes \<Rightarrow> stream \<Rightarrow> bytes outcome \<times> stream" where
  "read_connect_response buf s =
     (case read_chunk 1024 s of
        None \<Rightarrow> (Hangs, s)
      | Some (Read_Fail e, s1) \<Rightarrow> (Returned (Inl (Io e)), s1)
      | Some (Data d, s1) \<Rightarrow>
          if d = [] then
            (Returned (Inl (Tls ''connection closed before CONNECT response completed'')), s1)
          else
            let buf' = buf @ d in
            if contains_sub (bytes_of_str (CRLF @ CRLF)) buf' then (Returned (Inr buf'), s1)
            else if CONNECT_RESPONSE_MAX < length buf' then
              (Returned (Inl (Tls ''CONNECT response exceeded size guard before headers ended'')), s1)
            else read_connect_response buf' s1)"
  by pat_completeness auto
termination
  by (relation "measure (\<lambda>(b, s). inbox_size s)") (auto dest: read_chunk_size [rotated])

declare read_connect_response.simps [simp del]

definition cstp_connect :: "stream \<Rightarrow> string \<Rightarrow> string \<Rightarrow> session_params outcome \<times> stream" where
  "cstp_connect s host cookie =
     (case write_flush (bytes_of_str (build_connect_request host cookie)) s of
        (Inl e, s1) \<Rightarrow> (Returned (Inl e), s1)
      | (Inr _, s1) \<Rightarrow>
          (case read_connect_response [] s1 of
             (r, s2) \<Rightarrow> (outcome_then r (\<lambda>buf. Returned (parse_connect_response (utf8_lossy buf))), s2)))"

section \<open>Trust in the server certificate\<close>

datatype cert_trust = Webpki | Pinned bytes | Insecure

text \<open>
  The verifier that \<open>build_tls_config\<close> installs.  Checking a chain against the
  public roots (\<open>webpki\<close>) and the digest (\<open>sha256\<close>) are third-party code: they
  are parameters.
\<close>

definition hex_encode :: "bytes \<Rightarrow> string" where
  "hex_encode bs = concat (map (\<lambda>b. show_hex 2 (unat b)) bs)"

definition pinned_verify :: "(bytes \<Rightarrow> bytes) \<Rightarrow> bytes \<Rightarrow> bytes \<Rightarrow> unit result" where
  "pinned_verify sha256 pin end_entity =
     (let got = sha256 end_entity in
      if got = pin then Inr ()
      else Inl (Tls (''server certificate fingerprint mismatch: pinned '' @ hex_encode pin
        @ '', presented '' @ hex_encode got)))"

definition verify_server_cert ::
  "(bytes \<Rightarrow> string \<Rightarrow> unit result) \<Rightarrow> (bytes \<Rightarrow> bytes) \<Rightarrow> cert_trust \<Rightarrow> bytes \<Rightarrow> string \<Rightarrow> unit result" where
  "verify_server_cert webpki sha256 trust end_entity server_name =
     (case trust of
        Webpki \<Rightarrow> webpki end_entity server_name
      | Pinned pin \<Rightarrow> pinned_verify sha256 pin end_entity
      | Insecure \<Rightarrow> Inr ())"

end
