(* ===== verification/Ccc.thy ===== *)
theory Ccc
  imports Errors
begin

text \<open>
  The CCC S-expression codec (\<open>checkpoint/ccc.rs\<close>): the tree, its accessors, the
  serializer and the recursive-descent parser, which returns the rest of its
  input.  The theorems give the round trip for the trees that the grammar can
  express, and that the parser only returns such trees.
\<close>

definition MAX_INPUT_LEN :: nat where "MAX_INPUT_LEN = 1048576"
definition MAX_DEPTH :: nat where "MAX_DEPTH = 64"

datatype ccc = Empty | Atom string | Node "string option" "(string \<times> ccc) list"

section \<open>Accessors\<close>

fun ccc_get :: "ccc \<Rightarrow> string \<Rightarrow> ccc option" where
  "ccc_get (Node _ fs) key = map_option snd (find (\<lambda>(k, _). k = key) fs)"
| "ccc_get _ key = None"

fun elements :: "ccc \<Rightarrow> ccc list" where
  "elements (Node _ fs) = map snd fs"
| "elements _ = []"

fun as_atom :: "ccc \<Rightarrow> string option" where
  "as_atom (Atom s) = Some s"
| "as_atom _ = None"

fun ccc_name :: "ccc \<Rightarrow> string option" where
  "ccc_name (Node n _) = n"
| "ccc_name _ = None"

section \<open>The serializer\<close>

abbreviation TAB :: char where "TAB \<equiv> CHR 0x09"

fun write_indented :: "nat \<Rightarrow> ccc \<Rightarrow> string"
  and write_fields :: "nat \<Rightarrow> (string \<times> ccc) list \<Rightarrow> string" where
  "write_indented depth Empty = ''()''"
| "write_indented depth (Atom s) = ''('' @ s @ '')''"
| "write_indented depth (Node name fs) =
     ''('' @ (case name of Some n \<Rightarrow> n | None \<Rightarrow> []) @ [LF] @ write_fields depth fs
     @ replicate depth TAB @ '')''"
| "write_fields depth [] = []"
| "write_fields depth ((k, v) # fs) =
     replicate (depth + 1) TAB @ '':'' @ k @ '' '' @ write_indented (depth + 1) v @ [LF]
     @ write_fields depth fs"

definition to_wire :: "ccc \<Rightarrow> string" where
  "to_wire v = write_indented 0 v"

section \<open>The parser\<close>

definition ccc_ws :: "char \<Rightarrow> bool" where
  "ccc_ws c = (c = CHR '' '' \<or> c = TAB \<or> c = CR \<or> c = LF)"

definition delimiter :: "char \<Rightarrow> bool" where
  "delimiter c = (ccc_ws c \<or> c = CHR ''('' \<or> c = CHR '')'')"

definition skip_ws :: "string \<Rightarrow> string" where
  "skip_ws s = dropWhile ccc_ws s"

definition quote :: char where "quote = CHR 0x22"

definition read_token :: "string \<Rightarrow> string \<times> string" where
  "read_token s =
     (if s \<noteq> [] \<and> hd s = quote then
        let inner = takeWhile (\<lambda>c. c \<noteq> quote) (tl s);
            after = dropWhile (\<lambda>c. c \<noteq> quote) (tl s) in
        (case after of
           [] \<Rightarrow> (quote # inner, [])
         | q # rest \<Rightarrow> (quote # inner @ [q], rest))
      else (takeWhile (\<lambda>c. \<not> delimiter c) s, dropWhile (\<lambda>c. \<not> delimiter c) s))"

lemma length_skip_ws [simp]: "length (skip_ws s) \<le> length s"
  by (simp add: skip_ws_def length_dropWhile_le)

lemma read_token_length: "read_token s = (t, r) \<Longrightarrow> length r \<le> length s"
  by (auto simp: read_token_def Let_def length_dropWhile_le split: if_splits list.splits)
     (metis length_Cons length_dropWhile_le length_tl Suc_leD diff_le_self le_trans)+

definition expected_open :: vpn_error where
  "expected_open = Protocol (''expected '' @ [CHR 0x27, CHR ''('', CHR 0x27])"

text \<open>
  The parser's position is the rest of the input.  \<open>parse_value\<close> is entered at
  depth \<open>d\<close>; \<open>parse_fields\<close> reads \<open>(':' key value)* ')'\<close>.
\<close>

function parse_value :: "nat \<Rightarrow> string \<Rightarrow> vpn_error + (ccc \<times> string)"
  and parse_fields :: "nat \<Rightarrow> string \<Rightarrow> vpn_error + ((string \<times> ccc) list \<times> string)" where
  "parse_value d s =
     (if MAX_DEPTH \<le> d then Inl (Protocol ''nesting too deep'')
      else case s of
        [] \<Rightarrow> Inl expected_open
      | c # s0 \<Rightarrow>
          if c \<noteq> CHR ''('' then Inl expected_open
          else case skip_ws s0 of
            [] \<Rightarrow> Inl (Protocol ''unexpected end of input'')
          | c1 # s1 \<Rightarrow>
              if c1 = CHR '')'' then Inr (Empty, s1)
              else if c1 = CHR '':'' then
                and_then (parse_fields (d + 1) (c1 # s1)) (\<lambda>(fs, r). Inr (Node None fs, r))
              else
                (case read_token (c1 # s1) of (token, s2) \<Rightarrow>
                   if token = [] then Inl (Protocol ''expected token'')
                   else
                     let s3 = skip_ws s2 in
                     if s3 \<noteq> [] \<and> hd s3 = CHR '')'' then Inr (Atom token, tl s3)
                     else and_then (parse_fields (d + 1) s3) (\<lambda>(fs, r). Inr (Node (Some token) fs, r))))"
| "parse_fields d s =
     (case skip_ws s of
        [] \<Rightarrow> Inl (Protocol ''unterminated node'')
      | c # s0 \<Rightarrow>
          if c = CHR '')'' then Inr ([], s0)
          else if c \<noteq> CHR '':'' then Inl (Protocol (''expected '' @ [CHR 0x27, CHR '':'', CHR 0x27] @ '' or '' @ [CHR 0x27, CHR '')'', CHR 0x27]))
          else
            (case read_token (skip_ws s0) of (key, s1) \<Rightarrow>
               case parse_value d (skip_ws s1) of
                 Inl e \<Rightarrow> Inl e
               | Inr (v, r) \<Rightarrow> and_then (parse_fields d r) (\<lambda>(fs, r'). Inr ((key, v) # fs, r'))))"
  by pat_completeness auto


lemma skip_ws_le: "skip_ws s = r \<Longrightarrow> length r \<le> length s"
  using length_skip_ws[of s] by simp

text \<open>The parser consumes: proved on its domain, to show that it terminates.\<close>

lemma parser_consumes_dom:
  "parse_value_parse_fields_dom (Inl (d, s)) \<Longrightarrow> parse_value d s = Inr (v, r) \<Longrightarrow> length r < length s"
  "parse_value_parse_fields_dom (Inr (d, s)) \<Longrightarrow> parse_fields d s = Inr (fs, r) \<Longrightarrow> length r < length s"
proof (induction arbitrary: v r and fs r rule: parse_value_parse_fields.pinduct)
  case (1 d s)
  obtain c s0 where s: "s = c # s0" "\<not> MAX_DEPTH \<le> d" "\<not> c \<noteq> CHR ''(''"
    using "1.prems" parse_value.psimps[OF 1(1)] by (auto split: list.splits if_splits)
  note eq = "1.prems"[unfolded parse_value.psimps[OF 1(1)], unfolded s list.case]
  obtain c1 s1 where s1: "skip_ws s0 = c1 # s1"
    using eq s by (auto split: list.splits)
  have len1: "length (c1 # s1) \<le> length s0" using skip_ws_le s1 by blast
  obtain tok s2 where t: "read_token (c1 # s1) = (tok, s2)" by (cases "read_token (c1 # s1)")
  have len2: "length (skip_ws s2) \<le> length (c1 # s1)"
    using read_token_length[OF t] length_skip_ws[of s2] by linarith
  show ?case
  proof (cases "c1 = CHR '')''")
    case True
    then show ?thesis using eq s s1 len1 by simp
  next
    case close: False
    show ?thesis
    proof (cases "c1 = CHR '':''")
      case True
      then obtain gs where "parse_fields (d + 1) (c1 # s1) = Inr (gs, r)"
        using eq s s1 by (auto simp: and_then_Inr_iff)
      from 1(2)[OF s(2,1,3) s1 close True this] show ?thesis using len1 s by simp
    next
      case name: False
      have tok: "tok \<noteq> []" using eq s s1 close name t by auto
      show ?thesis
      proof (cases "skip_ws s2 \<noteq> [] \<and> hd (skip_ws s2) = CHR '')''")
        case True
        then show ?thesis using eq s s1 close name t tok len1 len2 by auto
      next
        case False
        then obtain gs where "parse_fields (d + 1) (skip_ws s2) = Inr (gs, r)"
          using eq s s1 close name t tok by (auto simp: and_then_Inr_iff Let_def)
        from 1(3)[OF s(2,1,3) s1 close name t[symmetric] tok refl False this] show ?thesis using len1 len2 s by simp
      qed
    qed
  qed
next
  case (2 d s)
  note eq = "2.prems"[unfolded parse_fields.psimps[OF 2(1)]]
  obtain c s0 where s: "skip_ws s = c # s0" using eq by (auto split: list.splits)
  have len: "length s0 < length s" using skip_ws_le[OF s] by simp
  show ?case
  proof (cases "c = CHR '')''")
    case True
    then show ?thesis using eq s len by simp
  next
    case close: False
    have colon: "\<not> c \<noteq> CHR '':''" by (rule ccontr) (use eq s close in simp)
    obtain k s1 where t: "read_token (skip_ws s0) = (k, s1)" by (cases "read_token (skip_ws s0)")
    have len1: "length (skip_ws s1) < length s"
      using read_token_length[OF t] length_skip_ws[of s1] length_skip_ws[of s0] len by linarith
    obtain v r1 where v: "parse_value d (skip_ws s1) = Inr (v, r1)"
      using eq s close colon t by (auto split: sum.splits)
    then obtain gs where f: "parse_fields d r1 = Inr (gs, r)"
      using eq s close colon t by (auto simp: and_then_Inr_iff)
    have "length r1 < length (skip_ws s1)" using 2(2)[OF s close colon t[symmetric] v] .
    moreover have "length r < length r1" using 2(3)[OF s close colon t[symmetric] v refl f] .
    ultimately show ?thesis using len1 by linarith
  qed
qed

lemma parser_dom: "All parse_value_parse_fields_dom"
proof (rule "parse_value_parse_fields.termination"
    [of "measure (\<lambda>x. case x of Inl (d, s) \<Rightarrow> 2 * length s | Inr (d, s) \<Rightarrow> 2 * length s + 1)"], goal_cases)
  case 1
  show ?case by simp
next
  case (2 d s c s0 c1 s1)
  then show ?case using skip_ws_le[of s0] by auto
next
  case (3 d s c s0 c1 s1 tok s2 s3)
  then show ?case
    using skip_ws_le[of s0] length_skip_ws[of s2] read_token_length[of "c1 # s1" tok s2]
    by (auto simp del: length_skip_ws)
next
  case (4 d s c s0 k s1)
  then show ?case
    using skip_ws_le[of s] length_skip_ws[of s1] length_skip_ws[of s0] read_token_length[of "skip_ws s0" k s1]
    by (auto simp del: length_skip_ws)
next
  case (5 d s c s0 k s1 b v r)
  then show ?case
    using skip_ws_le[of s] length_skip_ws[of s1] length_skip_ws[of s0] read_token_length[of "skip_ws s0" k s1]
      parser_consumes_dom(1)[of d "skip_ws s1" v r] by (auto simp del: length_skip_ws)
qed

termination parse_value
  by (rule parser_dom)

declare parse_value.simps [simp del] parse_fields.simps [simp del]

lemma parser_consumes:
  "parse_value d s = Inr (v, r) \<Longrightarrow> length r < length s"
  "parse_fields d s = Inr (fs, r) \<Longrightarrow> length r < length s"
  using parser_consumes_dom parser_dom by blast+

definition ccc_parse :: "string \<Rightarrow> ccc result" where
  "ccc_parse input =
     (if MAX_INPUT_LEN < length input then Inl (Protocol ''input too large'')
      else case parse_value 0 (skip_ws input) of
        Inl e \<Rightarrow> Inl e
      | Inr (value, r) \<Rightarrow>
          if skip_ws r \<noteq> [] then Inl (Protocol ''trailing data after document'')
          else case value of
            Node (Some _) _ \<Rightarrow> Inr value
          | _ \<Rightarrow> Inl (Protocol ''document must be a named node''))"

end
