(* ===== verification/Ccc_Correct.thy ===== *)
theory Ccc_Correct
  imports Ccc
begin

text \<open>
  The round trip of the CCC codec.  \<open>ccc_wf\<close> describes the trees the grammar can
  express; the serializer followed by the parser is the identity on them, and the
  parser returns no others.
\<close>

section \<open>Tokens\<close>

definition bare_token :: "string \<Rightarrow> bool" where
  "bare_token t = (t \<noteq> [] \<and> list_all (\<lambda>c. \<not> delimiter c) t \<and> hd t \<noteq> quote)"

definition quoted_token :: "string \<Rightarrow> bool" where
  "quoted_token t =
     (2 \<le> length t \<and> hd t = quote \<and> last t = quote \<and> quote \<notin> set (butlast (tl t)))"

definition token_ok :: "string \<Rightarrow> bool" where
  "token_ok t = (bare_token t \<or> quoted_token t)"

definition name_ok :: "string \<Rightarrow> bool" where
  "name_ok t = (token_ok t \<and> hd t \<noteq> CHR '':'')"

lemma quoted_token_iff: "quoted_token t \<longleftrightarrow> (\<exists>inner. t = quote # inner @ [quote] \<and> quote \<notin> set inner)"
proof
  assume q: "quoted_token t"
  then obtain a s where t: "t = a # s" "s \<noteq> []" by (cases t; cases "tl t") (auto simp: quoted_token_def)
  then have "last s = quote" "a = quote" using q by (auto simp: quoted_token_def)
  then have "t = quote # butlast s @ [quote]" using append_butlast_last_id[OF t(2)] t(1) by simp
  then show "\<exists>inner. t = quote # inner @ [quote] \<and> quote \<notin> set inner"
    using q t by (auto simp: quoted_token_def)
qed (auto simp: quoted_token_def)

lemma takeWhile_append_stop:
  "list_all P xs \<Longrightarrow> \<not> P y \<Longrightarrow> takeWhile P (xs @ y # ys) = xs \<and> dropWhile P (xs @ y # ys) = y # ys"
  by (induction xs) auto

lemma read_token_ok:
  assumes "token_ok t" "delimiter c"
  shows "read_token (t @ c # s) = (t, c # s)"
proof (cases "bare_token t")
  case True
  then obtain a u where t: "t = a # u" "a \<noteq> quote" by (cases t) (auto simp: bare_token_def)
  with True assms(2) takeWhile_append_stop[of "\<lambda>c. \<not> delimiter c" t c s] show ?thesis
    by (simp add: read_token_def bare_token_def)
next
  case False
  then obtain inner where t: "t = quote # inner @ [quote]" "quote \<notin> set inner"
    using assms(1) by (auto simp: token_ok_def quoted_token_iff)
  then have "list_all (\<lambda>c. c \<noteq> quote) inner" by (auto simp: list_all_iff)
  from takeWhile_append_stop[OF this, of quote "c # s"] t show ?thesis
    by (simp add: read_token_def)
qed

lemma read_token_result:
  assumes "read_token s = (t, r)"
  shows "t = [] \<or> token_ok t \<and> hd t = hd s \<or> r = []"
proof (cases "s \<noteq> [] \<and> hd s = quote")
  case True
  then obtain u where s: "s = quote # u" by (cases s) auto
  show ?thesis
  proof (cases "dropWhile (\<lambda>c. c \<noteq> quote) u")
    case Nil
    have "r = []" using assms unfolding s read_token_def list.sel Let_def Nil list.case by simp
    then show ?thesis by simp
  next
    case (Cons q v)
    then have "q = quote" using hd_dropWhile[of "\<lambda>c. c \<noteq> quote" u] by simp
    moreover have "quote \<notin> set (takeWhile (\<lambda>c. c \<noteq> quote) u)" by (auto dest: set_takeWhileD)
    ultimately show ?thesis
      using assms s Cons by (auto simp: read_token_def token_ok_def quoted_token_iff)
  qed
next
  case False
  then have t: "t = takeWhile (\<lambda>c. \<not> delimiter c) s" using assms by (auto simp: read_token_def split: if_splits)
  have "list_all (\<lambda>c. \<not> delimiter c) t" unfolding t by (auto simp: list_all_iff dest: set_takeWhileD)
  moreover have "hd t = hd s" if "t \<noteq> []" using that t by (cases s) (auto split: if_splits)
  moreover have "s \<noteq> []" if "t \<noteq> []" using that t by auto
  ultimately show ?thesis using False by (auto simp: token_ok_def bare_token_def)
qed

section \<open>Well-formed trees\<close>

fun ccc_wf :: "ccc \<Rightarrow> bool"
  and fields_wf :: "(string \<times> ccc) list \<Rightarrow> bool" where
  "ccc_wf Empty = True"
| "ccc_wf (Atom s) = name_ok s"
| "ccc_wf (Node n fs) = (fs \<noteq> [] \<and> (case n of Some t \<Rightarrow> name_ok t | None \<Rightarrow> True) \<and> fields_wf fs)"
| "fields_wf [] = True"
| "fields_wf ((k, v) # fs) = ((k = [] \<or> token_ok k) \<and> ccc_wf v \<and> fields_wf fs)"

fun ccc_depth :: "ccc \<Rightarrow> nat"
  and fields_depth :: "(string \<times> ccc) list \<Rightarrow> nat" where
  "ccc_depth Empty = 1"
| "ccc_depth (Atom _) = 1"
| "ccc_depth (Node _ fs) = Suc (fields_depth fs)"
| "fields_depth [] = 0"
| "fields_depth ((k, v) # fs) = max (ccc_depth v) (fields_depth fs)"

section \<open>Parsing what was written\<close>

lemma skip_ws_append: "list_all ccc_ws w \<Longrightarrow> skip_ws (w @ s) = skip_ws s"
  unfolding skip_ws_def by (induction w) auto

lemma skip_ws_stop: "\<not> ccc_ws c \<Longrightarrow> skip_ws (c # s) = c # s"
  by (simp add: skip_ws_def)

lemma ccc_ws_simps [simp]:
  "ccc_ws TAB" "ccc_ws LF" "ccc_ws (CHR '' '')" "\<not> ccc_ws (CHR ''('')" "\<not> ccc_ws (CHR '')'')"
  "\<not> ccc_ws (CHR '':'')" "\<not> ccc_ws quote"
  by (simp_all add: ccc_ws_def quote_def)

lemma delimiter_simps [simp]:
  "delimiter LF" "delimiter (CHR '' '')" "delimiter (CHR ''('')" "delimiter (CHR '')'')"
  by (simp_all add: delimiter_def)

lemma list_all_tabs [simp]: "list_all ccc_ws (replicate n TAB)"
  by (induction n) simp_all

lemma token_ok_start:
  assumes "token_ok t"
  obtains c u where "t = c # u" "\<not> ccc_ws c" "c \<noteq> CHR '')''"
  using assms by (cases t) (auto simp: token_ok_def bare_token_def quoted_token_def delimiter_def quote_def ccc_ws_def)

lemma write_indented_start: "\<exists>s. write_indented k v = CHR ''('' # s"
  by (cases v) auto

lemma parse_value_open:
  assumes "d < MAX_DEPTH"
  shows "parse_value d (CHR ''('' # s0) =
    (case skip_ws s0 of
       [] \<Rightarrow> Inl (Protocol ''unexpected end of input'')
     | c1 # s1 \<Rightarrow>
         if c1 = CHR '')'' then Inr (Empty, s1)
         else if c1 = CHR '':'' then
           and_then (parse_fields (d + 1) (c1 # s1)) (\<lambda>(fs, r). Inr (Node None fs, r))
         else
           (case read_token (c1 # s1) of (token, s2) \<Rightarrow>
              if token = [] then Inl (Protocol ''expected token'')
              else
                let s3 = skip_ws s2 in
                if s3 \<noteq> [] \<and> hd s3 = CHR '')'' then Inr (Atom token, tl s3)
                else and_then (parse_fields (d + 1) s3) (\<lambda>(fs, r). Inr (Node (Some token) fs, r))))"
  using assms by (simp add: parse_value.simps[of d "CHR ''('' # s0"])

lemma parse_fields_skip: "parse_fields d (skip_ws s) = parse_fields d s"
proof -
  have "skip_ws (skip_ws s) = skip_ws s" by (simp add: skip_ws_def)
  then show ?thesis by (simp add: parse_fields.simps[of d s] parse_fields.simps[of d "skip_ws s"])
qed

lemma parse_written:
  "ccc_wf v \<Longrightarrow> d + ccc_depth v \<le> MAX_DEPTH \<Longrightarrow>
     parse_value d (write_indented k v @ rest) = Inr (v, rest)"
  "fields_wf fs \<Longrightarrow> d + fields_depth fs \<le> MAX_DEPTH \<Longrightarrow> list_all ccc_ws w \<Longrightarrow>
     parse_fields d (w @ write_fields k fs @ replicate k TAB @ '')'' @ rest) = Inr (fs, rest)"
proof (induction v and fs arbitrary: d k rest and d k rest w rule: ccc_wf_fields_wf.induct)
  case 1
  then show ?case by (simp add: parse_value_open skip_ws_stop)
next
  case (2 s)
  then have n: "token_ok s" "hd s \<noteq> CHR '':''" by (auto simp: name_ok_def)
  from n(1) obtain c u where s: "s = c # u" "\<not> ccc_ws c" "c \<noteq> CHR '')''" by (rule token_ok_start)
  have t: "read_token (s @ CHR '')'' # rest) = (s, CHR '')'' # rest)" using n(1) by (rule read_token_ok) simp
  have "skip_ws (s @ '')'' @ rest) = s @ '')'' @ rest" using s by (simp add: skip_ws_stop)
  then show ?case using 2 s n t by (simp add: parse_value_open skip_ws_stop)
next
  case (3 n fs)
  let ?body = "write_fields k fs @ replicate k TAB @ '')'' @ rest"
  have d: "d < MAX_DEPTH" "d + 1 + fields_depth fs \<le> MAX_DEPTH" using 3(3) by simp_all
  have fs: "fs \<noteq> []" "fields_wf fs" using 3(2) by simp_all
  have body: "parse_fields (d + 1) ([LF] @ ?body) = Inr (fs, rest)"
    by (rule 3(1)[OF fs(2) d(2)]) simp
  obtain u where ws: "skip_ws ([LF] @ ?body) = CHR '':'' # u"
  proof -
    obtain k0 v0 fs0 where "fs = (k0, v0) # fs0" using fs(1) by (cases fs) auto
    then have "[LF] @ ?body = ([LF] @ replicate (k + 1) TAB) @ CHR '':'' # (k0 @ '' '' @ write_indented (k + 1) v0 @ [LF]
        @ write_fields k fs0 @ replicate k TAB @ '')'' @ rest)" by simp
    then have "skip_ws ([LF] @ ?body) = skip_ws (CHR '':'' # (k0 @ '' '' @ write_indented (k + 1) v0 @ [LF]
        @ write_fields k fs0 @ replicate k TAB @ '')'' @ rest))"
      by (simp only:) (subst skip_ws_append, simp_all)
    then show thesis by (intro that) (simp add: skip_ws_stop)
  qed
  have body': "parse_fields (d + 1) (CHR '':'' # u) = Inr (fs, rest)"
    using body parse_fields_skip[of "d + 1" "[LF] @ ?body"] ws by simp
  show ?case
  proof (cases n)
    case None
    then have "write_indented k (Node n fs) @ rest = CHR ''('' # ([LF] @ ?body)" by simp
    then show ?thesis using d(1) ws body' None by (simp only: parse_value_open) simp
  next
    case (Some t)
    then have n: "token_ok t" "hd t \<noteq> CHR '':''" using 3(2) by (auto simp: name_ok_def)
    from n(1) obtain c v where s: "t = c # v" "\<not> ccc_ws c" "c \<noteq> CHR '')''" by (rule token_ok_start)
    have tok: "read_token (t @ [LF] @ ?body) = (t, [LF] @ ?body)"
      using read_token_ok[OF n(1), of LF ?body] by simp
    have "skip_ws (t @ [LF] @ ?body) = t @ [LF] @ ?body" using s by (simp add: skip_ws_stop)
    moreover have "write_indented k (Node n fs) @ rest = CHR ''('' # (t @ [LF] @ ?body)" using Some by simp
    ultimately show ?thesis
      using d(1) ws body' Some s n tok by (simp only: parse_value_open) (simp add: Let_def)
  qed
next
  case 4
  have "skip_ws (w @ replicate k TAB @ '')'' @ rest) = CHR '')'' # rest"
    using skip_ws_append[of "w @ replicate k TAB" "CHR '')'' # rest"] 4 by (simp add: skip_ws_stop)
  then show ?case by (simp add: parse_fields.simps)
next
  case (5 key v fs)
  let ?rest = "write_fields k fs @ replicate k TAB @ '')'' @ rest"
  let ?val = "write_indented (k + 1) v @ [LF] @ ?rest"
  have wf: "key = [] \<or> token_ok key" "ccc_wf v" "fields_wf fs" using 5(3) by simp_all
  have d: "d + ccc_depth v \<le> MAX_DEPTH" "d + fields_depth fs \<le> MAX_DEPTH" using 5(4) by simp_all
  have inp: "w @ write_fields k ((key, v) # fs) @ replicate k TAB @ '')'' @ rest
      = (w @ replicate (k + 1) TAB) @ CHR '':'' # key @ CHR '' '' # ?val" by simp
  have s1: "skip_ws (w @ write_fields k ((key, v) # fs) @ replicate k TAB @ '')'' @ rest)
      = CHR '':'' # key @ CHR '' '' # ?val"
    unfolding inp using 5(5) by (subst skip_ws_append) (simp_all add: skip_ws_stop)
  obtain u where val: "?val = CHR ''('' # u" using write_indented_start[of "k + 1" v] by auto
  then have sv: "skip_ws (CHR '' '' # ?val) = ?val" "skip_ws ?val = ?val" by (simp_all add: skip_ws_def)
  have tok: "\<exists>s2. read_token (skip_ws (key @ CHR '' '' # ?val)) = (key, s2) \<and> skip_ws s2 = ?val"
  proof (cases "key = []")
    case True
    have "read_token ?val = ([], ?val)" unfolding val by (simp add: read_token_def quote_def)
    then show ?thesis using True sv by simp
  next
    case False
    then have k: "token_ok key" using wf by simp
    then obtain c t where "key = c # t" "\<not> ccc_ws c" by (rule token_ok_start)
    then have "skip_ws (key @ CHR '' '' # ?val) = key @ CHR '' '' # ?val" by (simp add: skip_ws_stop)
    then show ?thesis using read_token_ok[OF k, of "CHR '' ''" ?val] sv by simp
  qed
  have v: "parse_value d ?val = Inr (v, [LF] @ ?rest)"
    using 5(1)[OF wf(2) d(1), of "k + 1" "[LF] @ ?rest"] by simp
  have f: "parse_fields d ([LF] @ ?rest) = Inr (fs, rest)"
    by (rule 5(2)[OF wf(3) d(2)]) simp
  show ?case
    using s1 tok v f by (auto simp: parse_fields.simps[of d "w @ _"])
qed

section \<open>What the parser returns\<close>

lemma parsed_wf:
  "parse_value d s = Inr (v, r) \<Longrightarrow> ccc_wf v \<and> d + ccc_depth v \<le> MAX_DEPTH"
  "parse_fields d s = Inr (fs, r) \<Longrightarrow> fields_wf fs \<and> (fs \<noteq> [] \<longrightarrow> d + fields_depth fs \<le> MAX_DEPTH)
     \<and> (skip_ws s \<noteq> [] \<and> hd (skip_ws s) \<noteq> CHR '')'' \<longrightarrow> fs \<noteq> [])"
proof (induction d s and d s arbitrary: v r and fs r rule: parse_value_parse_fields.induct)
  case (1 d s)
  obtain c s0 where s: "s = c # s0" "\<not> MAX_DEPTH \<le> d" "\<not> c \<noteq> CHR ''(''"
    using "1.prems" parse_value.simps[of d s] by (auto split: list.splits if_splits)
  note eq = "1.prems"[unfolded parse_value.simps[of d s], unfolded s list.case]
  obtain c1 s1 where s1: "skip_ws s0 = c1 # s1"
    using eq s by (auto split: list.splits)
  have ws1: "\<not> ccc_ws c1" using s1 hd_dropWhile[of ccc_ws s0] unfolding skip_ws_def by (metis list.sel(1) list.distinct(1))
  obtain tok s2 where t: "read_token (c1 # s1) = (tok, s2)" by (cases "read_token (c1 # s1)")
  show ?case
  proof (cases "c1 = CHR '')''")
    case True
    then show ?thesis using eq s s1 by auto
  next
    case close: False
    show ?thesis
    proof (cases "c1 = CHR '':''")
      case True
      then obtain gs where g: "parse_fields (d + 1) (c1 # s1) = Inr (gs, r)" "v = Node None gs"
        using eq s s1 by (auto simp: and_then_Inr_iff)
      from 1(1)[OF s(2,1,3) s1 close True g(1)] show ?thesis
        using g(2) s1 close ws1 by (auto simp: skip_ws_stop)
    next
      case name: False
      have tok: "tok \<noteq> []" using eq s s1 close name t by auto
      have tok': "name_ok tok" if "s2 \<noteq> []"
        using read_token_result[OF t] tok that name by (auto simp: name_ok_def)
      show ?thesis
      proof (cases "skip_ws s2 \<noteq> [] \<and> hd (skip_ws s2) = CHR '')''")
        case True
        then have "s2 \<noteq> []" by (auto simp: skip_ws_def)
        then show ?thesis using eq s s1 close name t tok tok' True by auto
      next
        case False
        then obtain gs where g: "parse_fields (d + 1) (skip_ws s2) = Inr (gs, r)" "v = Node (Some tok) gs"
          using eq s s1 close name t tok by (auto simp: and_then_Inr_iff Let_def)
        have ne: "skip_ws s2 \<noteq> []"
        proof
          assume "skip_ws s2 = []"
          with g(1) have "parse_fields (d + 1) [] = Inr (gs, r)" by simp
          then show False by (simp add: parse_fields.simps[of _ "[]"] skip_ws_def)
        qed
        then have "s2 \<noteq> []" by (auto simp: skip_ws_def)
        moreover have "skip_ws (skip_ws s2) = skip_ws s2" by (simp add: skip_ws_def)
        ultimately show ?thesis
          using 1(2)[OF s(2,1,3) s1 close name t[symmetric] tok refl False g(1)] g(2) tok' ne False by auto
      qed
    qed
  qed
next
  case (2 d s)
  note eq = "2.prems"[unfolded parse_fields.simps[of d s]]
  obtain c s0 where s: "skip_ws s = c # s0" using eq by (auto split: list.splits)
  show ?case
  proof (cases "c = CHR '')''")
    case True
    then show ?thesis using eq s by auto
  next
    case close: False
    have colon: "\<not> c \<noteq> CHR '':''" by (rule ccontr) (use eq s close in simp)
    obtain k s1 where t: "read_token (skip_ws s0) = (k, s1)" by (cases "read_token (skip_ws s0)")
    obtain v r1 where v: "parse_value d (skip_ws s1) = Inr (v, r1)"
      using eq s close colon t by (auto split: sum.splits)
    then obtain gs where f: "parse_fields d r1 = Inr (gs, r)" "fs = (k, v) # gs"
      using eq s close colon t by (auto simp: and_then_Inr_iff)
    have "s1 \<noteq> []" using v by (auto simp: parse_value.simps skip_ws_def split: if_splits)
    then have "k = [] \<or> token_ok k" using read_token_result[OF t] by auto
    moreover have "ccc_wf v \<and> d + ccc_depth v \<le> MAX_DEPTH" using 2(1)[OF s close colon t[symmetric] v] .
    moreover note 2(2)[OF s close colon t[symmetric] v refl f(1)]
    ultimately show ?thesis using f(2) by auto
  qed
qed

lemma parse_errors:
  "parse_value d s = Inl e \<Longrightarrow> \<exists>m. e = Protocol m"
  "parse_fields d s = Inl e \<Longrightarrow> \<exists>m. e = Protocol m"
proof (induction d s and d s arbitrary: e and e rule: parse_value_parse_fields.induct)
  case (1 d s)
  show ?case
    using 1(3) 1(1,2) unfolding parse_value.simps[of d s]
    by (auto simp: expected_open_def Let_def and_then_Inl_iff split: if_splits list.splits prod.splits)
next
  case (2 d s)
  show ?case
    using 2(3) 2(1,2) unfolding parse_fields.simps[of d s]
    by (auto simp: and_then_Inl_iff split: if_splits list.splits prod.splits sum.splits)
qed

section \<open>Documents\<close>

definition document_ok :: "ccc \<Rightarrow> bool" where
  "document_ok v = (ccc_wf v \<and> ccc_depth v \<le> MAX_DEPTH \<and> ccc_name v \<noteq> None)"

lemma ccc_parse_written:
  assumes "document_ok v" "length (to_wire v) \<le> MAX_INPUT_LEN"
  shows "ccc_parse (to_wire v) = Inr v"
proof -
  obtain n fs where v: "v = Node (Some n) fs"
    using assms(1) by (cases v) (auto simp: document_ok_def)
  have "parse_value 0 (write_indented 0 v @ []) = Inr (v, [])"
    by (rule parse_written) (use assms(1) in \<open>auto simp: document_ok_def\<close>)
  moreover have "skip_ws (to_wire v) = to_wire v"
    using write_indented_start[of 0 v] by (auto simp: to_wire_def skip_ws_stop)
  ultimately show ?thesis
    using assms(2) v by (simp add: ccc_parse_def to_wire_def skip_ws_def)
qed

text \<open>
  C17: the contract of the serializer: a well-formed document of at most 64 levels,
  whose text fits the input limit, parses back to itself.
\<close>

theorem ccc_roundtrip:
  assumes "document_ok v" "length (to_wire v) \<le> MAX_INPUT_LEN"
  shows "ccc_parse (to_wire v) = Inr v"
  using assms by (rule ccc_parse_written)

theorem ccc_roundtrip_witness:
  "ccc_parse (to_wire (Node (Some ''disconnect'') [(''code'', Atom ''461''), ([], Empty)]))
     = Inr (Node (Some ''disconnect'') [(''code'', Atom ''461''), ([], Empty)])"
  by (rule ccc_roundtrip)
     (simp_all add: document_ok_def name_ok_def token_ok_def bare_token_def delimiter_def ccc_ws_def quote_def
        MAX_DEPTH_def MAX_INPUT_LEN_def to_wire_def)

lemma ccc_parse_error: "ccc_parse s = Inl e \<Longrightarrow> \<exists>m. e = Protocol m"
  using parse_errors(1)
  by (fastforce simp: ccc_parse_def split: if_splits sum.splits prod.splits ccc.splits option.splits)


end
