(* ===== verification/Slim.thy ===== *)
theory Slim
  imports Stream_Decoder Ccc_Correct
begin

text \<open>
  The frames of the Check Point SLIM tunnel (\<open>checkpoint/framing.rs\<close>): an eight
  byte header (payload length and packet type, big-endian) and the payload, raw
  IP for a data frame, CCC text with a trailing NUL for a control frame.  The
  decoder is an instance of \<open>stream_decoder\<close> and, with either encoder, of
  \<open>frame_codec\<close>.
\<close>

definition SLIM_HEADER_LEN :: nat where "SLIM_HEADER_LEN = 8"
definition PKT_CONTROL :: "32 word" where "PKT_CONTROL = 1"
definition PKT_DATA :: "32 word" where "PKT_DATA = 2"
definition MAX_SLIM_PAYLOAD :: nat where "MAX_SLIM_PAYLOAD = 1048576"

datatype slim_packet = Slim_Control ccc | Slim_Data bytes

definition slim_encode_data_append :: "bytes \<Rightarrow> bytes \<Rightarrow> bytes" where
  "slim_encode_data_append payload out =
     out @ to_be32 (as_u32 (length payload)) @ to_be32 PKT_DATA @ payload"

definition slim_encode_data :: "bytes \<Rightarrow> bytes" where
  "slim_encode_data payload = slim_encode_data_append payload []"

definition encode_control :: "string \<Rightarrow> bytes" where
  "encode_control sexpr_wire =
     (let payload = bytes_of_str sexpr_wire @ [0x00] in
      to_be32 (as_u32 (length payload)) @ to_be32 PKT_CONTROL @ payload)"

definition slim_encode_keepalive :: bytes where
  "slim_encode_keepalive = encode_control (to_wire (Node (Some ''keepalive'') [(''id'', Atom ''0'')]))"

definition strip_nul :: "bytes \<Rightarrow> bytes" where
  "strip_nul payload = (if payload \<noteq> [] \<and> last payload = 0x00 then butlast payload else payload)"

definition slim_packet_of :: "32 word \<Rightarrow> bytes \<Rightarrow> slim_packet result" where
  "slim_packet_of packet_type payload =
     (if packet_type = PKT_CONTROL then
        and_then (ccc_parse (utf8_lossy (strip_nul payload))) (\<lambda>tree. Inr (Slim_Control tree))
      else if packet_type = PKT_DATA then Inr (Slim_Data payload)
      else Inl (Protocol (''unknown SLIM packet type: '' @ show_nat (unat packet_type))))"

definition try_decode_slim :: "slim_packet decoder" where
  "try_decode_slim buf =
     (if length buf < SLIM_HEADER_LEN then (Inr None, buf)
      else
        let len = unat (from_be32 (buf ! 0) (buf ! 1) (buf ! 2) (buf ! 3)) in
        if MAX_SLIM_PAYLOAD < len then
          (Inl (Protocol (''SLIM frame length '' @ show_nat len @ '' exceeds cap'')), buf)
        else
          let packet_type = from_be32 (buf ! 4) (buf ! 5) (buf ! 6) (buf ! 7) in
          if length buf < SLIM_HEADER_LEN + len then (Inr None, buf)
          else
            let (payload, rest) = split_to len (drop SLIM_HEADER_LEN buf) in
            (and_then (slim_packet_of packet_type payload) (\<lambda>p. Inr (Some p)), rest))"

section \<open>The decoder as an instance of the interfaces\<close>

lemma slim_frame_cases [case_names short long]:
  obtains "length (b :: bytes) < 8" | l1 l2 l3 l4 t1 t2 t3 t4 body where
    "b = l1 # l2 # l3 # l4 # t1 # t2 # t3 # t4 # body"
  by (metis list_length_ge_8 not_less)

lemma try_decode_slim_short: "length b < 8 \<Longrightarrow> try_decode_slim b = (Inr None, b)"
  by (simp add: try_decode_slim_def SLIM_HEADER_LEN_def)

lemma try_decode_slim_Cons:
  "try_decode_slim (l1 # l2 # l3 # l4 # t1 # t2 # t3 # t4 # body) =
     (let len = unat (from_be32 l1 l2 l3 l4); buf = l1 # l2 # l3 # l4 # t1 # t2 # t3 # t4 # body in
      if MAX_SLIM_PAYLOAD < len then
        (Inl (Protocol (''SLIM frame length '' @ show_nat len @ '' exceeds cap'')), buf)
      else if length body < len then (Inr None, buf)
      else (and_then (slim_packet_of (from_be32 t1 t2 t3 t4) (take len body)) (\<lambda>p. Inr (Some p)),
            drop len body))"
  by (simp add: try_decode_slim_def SLIM_HEADER_LEN_def split_to_def Let_def numeral_eq_Suc)

interpretation slim: stream_decoder try_decode_slim
proof
  fix b b' c :: bytes and f e
  show "try_decode_slim b = (Inr None, b') \<Longrightarrow> b' = b"
    by (cases b rule: slim_frame_cases)
       (auto simp: try_decode_slim_short try_decode_slim_Cons Let_def res split: if_splits)
  show "try_decode_slim b = (Inr (Some f), b') \<Longrightarrow> length b' < length b"
    by (cases b rule: slim_frame_cases)
       (auto simp: try_decode_slim_short try_decode_slim_Cons Let_def split: if_splits)
  show "try_decode_slim b = (Inr (Some f), b') \<Longrightarrow> try_decode_slim (b @ c) = (Inr (Some f), b' @ c)"
    by (cases b rule: slim_frame_cases)
       (auto simp: try_decode_slim_short try_decode_slim_Cons Let_def split: if_splits)
  show "try_decode_slim b = (Inl e, b') \<Longrightarrow> fst (try_decode_slim (b @ c)) = Inl e"
    by (cases b rule: slim_frame_cases)
       (auto simp: try_decode_slim_short try_decode_slim_Cons Let_def split: if_splits)
qed

lemma decode_slim_header:
  assumes "length payload \<le> MAX_SLIM_PAYLOAD" "slim_packet_of t payload = Inr p"
  shows "try_decode_slim (to_be32 (as_u32 (length payload)) @ to_be32 t @ payload @ rest) = (Inr (Some p), rest)"
proof -
  have "length payload < 4294967296" using assms(1) by (simp add: MAX_SLIM_PAYLOAD_def)
  then show ?thesis using assms by (simp add: to_be32_def try_decode_slim_Cons)
qed

interpretation slim: frame_codec try_decode_slim slim_encode_data Slim_Data "\<lambda>p. length p \<le> MAX_SLIM_PAYLOAD"
  by unfold_locales
     (simp add: slim_encode_data_def slim_encode_data_append_def decode_slim_header slim_packet_of_def
        PKT_DATA_def PKT_CONTROL_def)

section \<open>Control frames\<close>

text \<open>The documents that a control frame carries to the other side unchanged.\<close>

definition control_ok :: "ccc \<Rightarrow> bool" where
  "control_ok v =
     (document_ok v \<and> length (to_wire v) < MAX_SLIM_PAYLOAD \<and> list_all (\<lambda>c. code c < 128) (to_wire v))"

definition encode_control_tree :: "ccc \<Rightarrow> bytes" where
  "encode_control_tree v = encode_control (to_wire v)"

interpretation slim_control: frame_codec try_decode_slim encode_control_tree Slim_Control control_ok
proof
  fix v :: ccc and rest :: bytes
  assume v: "control_ok v"
  let ?payload = "bytes_of_str (to_wire v) @ [0x00]"
  have "strip_nul ?payload = bytes_of_str (to_wire v)" by (simp add: strip_nul_def)
  moreover have "utf8_lossy (bytes_of_str (to_wire v)) = to_wire v"
    using v by (intro utf8_lossy_ascii) (simp add: control_ok_def list_all_iff)
  moreover have "ccc_parse (to_wire v) = Inr v"
    by (rule ccc_parse_written) (use v in \<open>simp_all add: control_ok_def MAX_SLIM_PAYLOAD_def MAX_INPUT_LEN_def\<close>)
  ultimately have "slim_packet_of PKT_CONTROL ?payload = Inr (Slim_Control v)"
    by (simp add: slim_packet_of_def)
  then show "try_decode_slim (encode_control_tree v @ rest) = (Inr (Some (Slim_Control v)), rest)"
    using decode_slim_header[of ?payload PKT_CONTROL "Slim_Control v" rest] v
    by (simp add: encode_control_tree_def encode_control_def control_ok_def)
qed

end
