(* ===== verification/Forti_Framing.thy ===== *)
theory Forti_Framing
  imports Stream_Decoder
begin

text \<open>
  The FortiGate frame envelope (\<open>fortigate/framing.rs\<close>): a six byte header
  (total length, magic, body length, big-endian) and the body.  The decoder is
  an instance of the \<open>stream_decoder\<close> interface and, with the encoder, of
  \<open>frame_codec\<close>.
\<close>

definition FORTI_HEADER_LEN :: nat where "FORTI_HEADER_LEN = 6"
definition FORTI_MAGIC :: "16 word" where "FORTI_MAGIC = 0x5050"
definition MAX_FORTI_BODY :: nat where "MAX_FORTI_BODY = 16 * 1024"

definition forti_header :: "nat \<Rightarrow> bytes" where
  "forti_header body_len =
     to_be16 (as_u16 (FORTI_HEADER_LEN + body_len)) @ to_be16 FORTI_MAGIC @ to_be16 (as_u16 body_len)"

definition encode_frame_append :: "bytes \<Rightarrow> bytes \<Rightarrow> bytes result" where
  "encode_frame_append body out =
     (if MAX_FORTI_BODY < length body then
        Inl (Protocol (''FortiGate frame body '' @ show_nat (length body) @ '' exceeds cap 16384''))
      else Inr (out @ to_be16 (as_u16 (FORTI_HEADER_LEN + length body)) @ to_be16 FORTI_MAGIC
                  @ to_be16 (as_u16 (length body)) @ body))"

definition encode_frame :: "bytes \<Rightarrow> bytes result" where
  "encode_frame body = encode_frame_append body []"

definition try_decode_frame :: "bytes decoder" where
  "try_decode_frame buf =
     (if length buf < FORTI_HEADER_LEN then (Inr None, buf)
      else
        let total = unat (from_be16 (buf ! 0) (buf ! 1));
            magic = from_be16 (buf ! 2) (buf ! 3);
            body_len = unat (from_be16 (buf ! 4) (buf ! 5)) in
        if magic \<noteq> FORTI_MAGIC then
          (Inl (Protocol (''bad FortiGate frame magic: 0x'' @ show_hex 4 (unat magic))), buf)
        else if total \<noteq> FORTI_HEADER_LEN + body_len then
          (Inl (Protocol (''FortiGate length mismatch: total '' @ show_nat total @ '', body '' @ show_nat body_len)), buf)
        else if MAX_FORTI_BODY < body_len then
          (Inl (Protocol (''FortiGate frame body '' @ show_nat body_len @ '' exceeds cap'')), buf)
        else if length buf < FORTI_HEADER_LEN + body_len then (Inr None, buf)
        else let (body, rest) = split_to body_len (drop FORTI_HEADER_LEN buf) in (Inr (Some body), rest))"

lemmas forti_consts = FORTI_HEADER_LEN_def FORTI_MAGIC_def MAX_FORTI_BODY_def

lemma try_decode_frame_short: "length b < 6 \<Longrightarrow> try_decode_frame b = (Inr None, b)"
  by (simp add: try_decode_frame_def forti_consts)

lemma try_decode_frame_Cons:
  "try_decode_frame (t1 # t2 # m1 # m2 # l1 # l2 # body) =
     (let total = unat (from_be16 t1 t2); magic = from_be16 m1 m2; n = unat (from_be16 l1 l2);
          buf = t1 # t2 # m1 # m2 # l1 # l2 # body in
      if magic \<noteq> FORTI_MAGIC then
        (Inl (Protocol (''bad FortiGate frame magic: 0x'' @ show_hex 4 (unat magic))), buf)
      else if total \<noteq> 6 + n then
        (Inl (Protocol (''FortiGate length mismatch: total '' @ show_nat total @ '', body '' @ show_nat n)), buf)
      else if MAX_FORTI_BODY < n then
        (Inl (Protocol (''FortiGate frame body '' @ show_nat n @ '' exceeds cap'')), buf)
      else if length body < n then (Inr None, buf)
      else (Inr (Some (take n body)), drop n body))"
  by (simp add: try_decode_frame_def FORTI_HEADER_LEN_def split_to_def Let_def numeral_eq_Suc)

lemma forti_frame_cases [case_names short long]:
  obtains "length (b :: bytes) < 6" | t1 t2 m1 m2 l1 l2 body where "b = t1 # t2 # m1 # m2 # l1 # l2 # body"
  by (metis list_length_ge_6 not_less)

interpretation forti: stream_decoder try_decode_frame
proof
  fix b b' c :: bytes and f e
  show "try_decode_frame b = (Inr None, b') \<Longrightarrow> b' = b"
    by (cases b rule: forti_frame_cases)
       (auto simp: try_decode_frame_short try_decode_frame_Cons Let_def split: if_splits)
  show "try_decode_frame b = (Inr (Some f), b') \<Longrightarrow> length b' < length b"
    by (cases b rule: forti_frame_cases)
       (auto simp: try_decode_frame_short try_decode_frame_Cons Let_def split: if_splits)
  show "try_decode_frame b = (Inr (Some f), b') \<Longrightarrow>
      try_decode_frame (b @ c) = (Inr (Some f), b' @ c)"
    by (cases b rule: forti_frame_cases)
       (auto simp: try_decode_frame_short try_decode_frame_Cons Let_def split: if_splits)
  show "try_decode_frame b = (Inl e, b') \<Longrightarrow> fst (try_decode_frame (b @ c)) = Inl e"
    by (cases b rule: forti_frame_cases)
       (auto simp: try_decode_frame_short try_decode_frame_Cons Let_def split: if_splits)
qed

lemma encode_frame_Inr:
  "length body \<le> MAX_FORTI_BODY \<Longrightarrow>
   encode_frame body = Inr (to_be16 (as_u16 (6 + length body)) @ to_be16 FORTI_MAGIC
     @ to_be16 (as_u16 (length body)) @ body)"
  by (simp add: encode_frame_def encode_frame_append_def FORTI_HEADER_LEN_def)

text \<open>The envelope around a body of admissible size decodes to the body.\<close>

lemma decode_forti_header:
  assumes "length body \<le> MAX_FORTI_BODY"
  shows "try_decode_frame (forti_header (length body) @ body @ rest) = (Inr (Some body), rest)"
proof -
  have len: "length body < 65530" using assms by (simp add: MAX_FORTI_BODY_def)
  have "FORTI_MAGIC = from_be16 0x50 0x50"
    by (simp add: FORTI_MAGIC_def from_be16_def)
  then show ?thesis
    using assms len
    by (simp add: forti_header_def to_be16_def try_decode_frame_Cons FORTI_HEADER_LEN_def)
qed

definition frame_of :: "bytes \<Rightarrow> bytes" where
  "frame_of body = (case encode_frame body of Inr f \<Rightarrow> f | Inl _ \<Rightarrow> [])"

interpretation forti: frame_codec try_decode_frame frame_of "\<lambda>b. b" "\<lambda>b. length b \<le> MAX_FORTI_BODY"
proof
  fix p rest :: bytes
  assume "length p \<le> MAX_FORTI_BODY"
  then show "try_decode_frame (frame_of p @ rest) = (Inr (Some p), rest)"
    using decode_forti_header[of p rest]
    by (simp add: frame_of_def encode_frame_Inr forti_header_def FORTI_HEADER_LEN_def)
qed

text \<open>A decoded frame is what the encoder makes of its body.\<close>

lemma decode_frame_canonical:
  assumes "try_decode_frame b = (Inr (Some body), rest)"
  shows "length body \<le> MAX_FORTI_BODY \<and> b = forti_header (length body) @ body @ rest"
proof (cases b rule: forti_frame_cases)
  case short
  then show ?thesis using assms by (simp add: try_decode_frame_short)
next
  case (long t1 t2 m1 m2 l1 l2 tail)
  define n where "n = unat (from_be16 l1 l2)"
  from assms have d: "from_be16 m1 m2 = FORTI_MAGIC" "unat (from_be16 t1 t2) = 6 + n"
    "n \<le> MAX_FORTI_BODY" "n \<le> length tail" "body = take n tail" "rest = drop n tail"
    by (auto simp: long try_decode_frame_Cons Let_def n_def split: if_splits)
  then have "length body = n" by simp
  then have "as_u16 (6 + length body) = from_be16 t1 t2" "as_u16 (length body) = from_be16 l1 l2"
    by (simp_all only: flip: d(2)) (simp_all add: n_def as_u16_def)
  then show ?thesis
    using d by (simp add: long forti_header_def FORTI_HEADER_LEN_def flip: d(1))
qed

end
