(* ===== verification/Ppp.thy ===== *)
theory Ppp
  imports Forti_Framing Ipv4
begin

text \<open>
  The PPP codec inside the FortiGate envelope (\<open>fortigate/ppp.rs\<close>, its pure
  part): control packets, option lists, the protocol field, and the echo and
  terminate frames.  Parsing is total; the lemmas give the round trips and that
  the frame decoder obeys the \<open>stream_decoder\<close> laws.
\<close>

section \<open>Constants\<close>

definition PPP_LCP :: "16 word" where "PPP_LCP = 0xc021"
definition PPP_IPCP :: "16 word" where "PPP_IPCP = 0x8021"
definition PPP_IPV4 :: "16 word" where "PPP_IPV4 = 0x0021"
definition PPP_PAP :: "16 word" where "PPP_PAP = 0xc023"
definition PPP_CHAP :: "16 word" where "PPP_CHAP = 0xc223"

definition CODE_CONF_REQ :: byte where "CODE_CONF_REQ = 1"
definition CODE_CONF_ACK :: byte where "CODE_CONF_ACK = 2"
definition CODE_CONF_NAK :: byte where "CODE_CONF_NAK = 3"
definition CODE_CONF_REJ :: byte where "CODE_CONF_REJ = 4"
definition CODE_TERM_REQ :: byte where "CODE_TERM_REQ = 5"
definition CODE_TERM_ACK :: byte where "CODE_TERM_ACK = 6"
definition CODE_ECHO_REQ :: byte where "CODE_ECHO_REQ = 9"
definition CODE_ECHO_REP :: byte where "CODE_ECHO_REP = 10"

definition LCP_OPT_MRU :: byte where "LCP_OPT_MRU = 1"
definition LCP_OPT_AUTH :: byte where "LCP_OPT_AUTH = 3"
definition LCP_OPT_MAGIC :: byte where "LCP_OPT_MAGIC = 5"
definition IPCP_OPT_ADDR :: byte where "IPCP_OPT_ADDR = 3"
definition IPCP_OPT_DNS1 :: byte where "IPCP_OPT_DNS1 = 129"
definition IPCP_OPT_DNS2 :: byte where "IPCP_OPT_DNS2 = 131"

definition DEFAULT_MRU :: "16 word" where "DEFAULT_MRU = 1354"

lemmas ppp_protos = PPP_LCP_def PPP_IPCP_def PPP_IPV4_def PPP_PAP_def PPP_CHAP_def
lemmas ppp_codes = CODE_CONF_REQ_def CODE_CONF_ACK_def CODE_CONF_NAK_def CODE_CONF_REJ_def
  CODE_TERM_REQ_def CODE_TERM_ACK_def CODE_ECHO_REQ_def CODE_ECHO_REP_def
lemmas ppp_opts = LCP_OPT_MRU_def LCP_OPT_AUTH_def LCP_OPT_MAGIC_def
  IPCP_OPT_ADDR_def IPCP_OPT_DNS1_def IPCP_OPT_DNS2_def

section \<open>Control packets\<close>

record cp_packet =
  cp_code :: byte
  cp_id :: byte
  cp_data :: bytes

definition parse_cp :: "bytes \<Rightarrow> cp_packet result" where
  "parse_cp b =
     (if length b < 4 then
        Inl (Protocol (''PPP control packet too short ('' @ show_nat (length b) @ '' bytes)''))
      else
        let len = unat (from_be16 (b ! 2) (b ! 3)) in
        if len < 4 \<or> length b < len then
          Inl (Protocol (''PPP control length '' @ show_nat len @ '' inconsistent with ''
            @ show_nat (length b) @ '' available bytes''))
        else Inr \<lparr>cp_code = b ! 0, cp_id = b ! 1, cp_data = drop 4 (take len b)\<rparr>)"

definition build_cp :: "byte \<Rightarrow> byte \<Rightarrow> bytes \<Rightarrow> bytes" where
  "build_cp cd i dat = [cd, i] @ to_be16 (as_u16 (length dat + 4)) @ dat"

type_synonym cp_option = "byte \<times> bytes"

text \<open>The loop reads one option off the rest of the list, and stops at a malformed entry.\<close>

fun parse_options :: "bytes \<Rightarrow> cp_option list" where
  "parse_options (typ # len # rest) =
     (if unat len < 2 \<or> length rest + 2 < unat len then []
      else (typ, take (unat len - 2) rest) # parse_options (drop (unat len - 2) rest))"
| "parse_options _ = []"

fun build_options :: "cp_option list \<Rightarrow> bytes" where
  "build_options [] = []"
| "build_options ((typ, val) # opts) =
     (if 253 < length val then build_options opts
      else typ # as_u8 (length val + 2) # val @ build_options opts)"

definition opt_ipv4 :: "bytes \<Rightarrow> ipv4 option" where
  "opt_ipv4 v = (case v of [a, b, c, d] \<Rightarrow> Some (Ipv4 a b c d) | _ \<Rightarrow> None)"

text \<open>
  The magic number is made from the system clock: the whole seconds and the
  nanoseconds since 1970, or nothing when the clock is set before that.
\<close>

definition gen_magic :: "(nat \<times> nat) option \<Rightarrow> 32 word" where
  "gen_magic t =
     (let nanos = (case t of Some (secs, ns) \<Rightarrow> as_u32 ns XOR as_u32 secs | None \<Rightarrow> 0x59454C4C)
      in nanos OR 1)"

section \<open>Frames\<close>

definition encode_ppp_append :: "16 word \<Rightarrow> bytes \<Rightarrow> bytes \<Rightarrow> bytes" where
  "encode_ppp_append proto payload out =
     (let body_len = 2 + length payload;
          total = as_u16 (FORTI_HEADER_LEN + body_len) in
      out @ to_be16 total @ to_be16 FORTI_MAGIC @ to_be16 (as_u16 body_len)
        @ to_be16 proto @ payload)"

definition encode_ppp :: "16 word \<Rightarrow> bytes \<Rightarrow> bytes" where
  "encode_ppp proto payload = encode_ppp_append proto payload []"

definition split_ppp :: "bytes \<Rightarrow> (16 word \<times> bytes) option" where
  "split_ppp body =
     (let off = (if 2 \<le> length body \<and> body ! 0 = 0xFF \<and> body ! 1 = 0x03 then 2 else 0) in
      if length body < off + 2 then None
      else Some (from_be16 (body ! off) (body ! (off + 1)), drop (off + 2) body))"

definition try_decode_ppp :: "(16 word \<times> bytes) decoder" where
  "try_decode_ppp buf =
     (case try_decode_frame buf of
        (Inl e, b) \<Rightarrow> (Inl e, b)
      | (Inr None, b) \<Rightarrow> (Inr None, b)
      | (Inr (Some body), b) \<Rightarrow>
          (case split_ppp body of
             Some (proto, payload) \<Rightarrow> (Inr (Some (proto, payload)), b)
           | None \<Rightarrow> (Inl (Protocol (''PPP frame body too short ('' @ show_nat (length body) @ '' bytes)'')), b)))"

definition echo_request :: "32 word \<Rightarrow> byte \<Rightarrow> bytes" where
  "echo_request magic i = encode_ppp PPP_LCP (build_cp CODE_ECHO_REQ i (to_be32 magic))"

definition echo_reply :: "32 word \<Rightarrow> cp_packet \<Rightarrow> bytes" where
  "echo_reply magic req =
     (let dat = to_be32 magic @ (if 4 < length (cp_data req) then drop 4 (cp_data req) else []) in
      encode_ppp PPP_LCP (build_cp CODE_ECHO_REP (cp_id req) dat))"

definition terminate_request :: "byte \<Rightarrow> bytes" where
  "terminate_request i = encode_ppp PPP_LCP (build_cp CODE_TERM_REQ i (bytes_of_str ''bye''))"

section \<open>Lemmas\<close>

lemma parse_cp_Cons:
  "parse_cp (c # i # l1 # l2 # b) =
     (let len = unat (from_be16 l1 l2) in
      if len < 4 \<or> length b + 4 < len then
        Inl (Protocol (''PPP control length '' @ show_nat len @ '' inconsistent with ''
            @ show_nat (length b + 4) @ '' available bytes''))
      else Inr \<lparr>cp_code = c, cp_id = i, cp_data = take (len - 4) b\<rparr>)"
  by (simp add: parse_cp_def Let_def numeral_eq_Suc take_Cons split: nat.splits)

lemma parse_build_cp:
  assumes "length dat \<le> 65531"
  shows "parse_cp (build_cp c i dat @ junk) = Inr \<lparr>cp_code = c, cp_id = i, cp_data = dat\<rparr>"
  using assms by (simp add: build_cp_def to_be16_def parse_cp_Cons Let_def)

lemma parse_cp_data_length:
  "parse_cp b = Inr p \<Longrightarrow> length (cp_data p) + 4 \<le> length b \<and> length (cp_data p) + 4 < 65536"
  using unat_u16_less[of "from_be16 (b ! 2) (b ! 3)"]
  by (auto simp: parse_cp_def Let_def split: if_splits simp del: unat_u16_less)

lemma parse_build_options:
  "parse_options (build_options opts) = filter (\<lambda>(t, v). length v \<le> 253) opts"
  by (induction opts) auto

lemma parse_options_expressible:
  "(t, v) \<in> set (parse_options b) \<Longrightarrow> length v \<le> 253"
proof (induction b rule: parse_options.induct)
  case (1 t' l rest)
  moreover have "unat l \<le> 255" using unat_byte_less[of l] by linarith
  ultimately show ?case by (auto split: if_splits)
qed auto

text \<open>Options that were received can always be sent back.\<close>

lemma parse_build_parse_options:
  "set opts \<subseteq> set (parse_options b) \<Longrightarrow> parse_options (build_options opts) = opts"
  using parse_options_expressible by (fastforce simp: parse_build_options filter_id_conv)

lemma build_options_append [simp]:
  "build_options (xs @ ys) = build_options xs @ build_options ys"
  by (induction xs) auto

lemma opt_ipv4_Some: "opt_ipv4 v = Some a \<longleftrightarrow> v = [oct1 a, oct2 a, oct3 a, oct4 a]"
  by (auto simp: opt_ipv4_def split: list.splits)

lemma encode_ppp_as_frame:
  "encode_ppp proto payload = forti_header (length payload + 2) @ to_be16 proto @ payload"
  by (simp add: encode_ppp_def encode_ppp_append_def forti_header_def)

lemma encode_ppp_append_eq: "encode_ppp_append proto payload out = out @ encode_ppp proto payload"
  by (simp add: encode_ppp_def encode_ppp_append_def)

lemma split_ppp_to_be16:
  assumes "proto \<noteq> 0xFF03"
  shows "split_ppp (to_be16 proto @ payload) = Some (proto, payload)"
proof -
  obtain a b where ab: "to_be16 proto = [a, b]" by (simp add: to_be16_def)
  then have p: "proto = from_be16 a b" by (metis to_be16_inject to_from_be16)
  have "\<not> (a = 0xFF \<and> b = 0x03)"
    using assms by (auto simp: p from_be16_def)
  then show ?thesis by (auto simp: ab split_ppp_def p)
qed

lemma decode_encode_ppp:
  assumes "proto \<noteq> 0xFF03" "length payload + 2 \<le> MAX_FORTI_BODY"
  shows "try_decode_ppp (encode_ppp proto payload @ rest) = (Inr (Some (proto, payload)), rest)"
  using decode_forti_header[of "to_be16 proto @ payload" rest] assms
  by (simp add: try_decode_ppp_def encode_ppp_as_frame split_ppp_to_be16 add.commute)

lemma try_decode_ppp_more: "try_decode_ppp b = (Inr None, b') \<Longrightarrow> try_decode_frame b = (Inr None, b')"
  by (auto simp: try_decode_ppp_def split: prod.splits sum.splits option.splits)

lemma try_decode_ppp_frame:
  "try_decode_ppp b = (Inr (Some (proto, payload)), b') \<Longrightarrow>
     \<exists>body. try_decode_frame b = (Inr (Some body), b') \<and> split_ppp body = Some (proto, payload)"
  by (auto simp: try_decode_ppp_def split: prod.splits sum.splits option.splits)

lemma try_decode_ppp_frameI:
  "try_decode_frame b = (Inr (Some body), b') \<Longrightarrow> split_ppp body = Some f \<Longrightarrow>
     try_decode_ppp b = (Inr (Some f), b')"
  by (simp add: try_decode_ppp_def split: prod.splits)

interpretation ppp: stream_decoder try_decode_ppp
proof
  fix b b' c :: bytes and f e
  show "try_decode_ppp b = (Inr None, b') \<Longrightarrow> b' = b"
    by (auto dest: try_decode_ppp_more forti.need_more_keeps)
  show "try_decode_ppp b = (Inr (Some f), b') \<Longrightarrow> length b' < length b"
    by (cases f) (auto dest: try_decode_ppp_frame forti.progress)
  show "try_decode_ppp b = (Inr (Some f), b') \<Longrightarrow> try_decode_ppp (b @ c) = (Inr (Some f), b' @ c)"
    by (cases f) (auto dest!: try_decode_ppp_frame intro: try_decode_ppp_frameI forti.frame_stable)
  show "try_decode_ppp b = (Inl e, b') \<Longrightarrow> fst (try_decode_ppp (b @ c)) = Inl e"
    by (cases b rule: forti.decode_cases)
       (auto simp: try_decode_ppp_def forti.frame_stable split: option.splits prod.splits
         dest: forti.error_stable[of _ _ _ c])
qed

interpretation ppp: frame_codec try_decode_ppp "\<lambda>(proto, payload). encode_ppp proto payload" "\<lambda>f. f"
  "\<lambda>(proto, payload). proto \<noteq> 0xFF03 \<and> length payload + 2 \<le> MAX_FORTI_BODY"
  by unfold_locales (auto simp: decode_encode_ppp)

lemma split_ppp_length: "split_ppp body = Some (proto, payload) \<Longrightarrow> length payload + 2 \<le> length body"
  by (auto simp: split_ppp_def Let_def split: if_splits)

lemma try_decode_ppp_length:
  "try_decode_ppp b = (Inr (Some (proto, payload)), b') \<Longrightarrow> length payload + 2 \<le> MAX_FORTI_BODY"
  using split_ppp_length by (fastforce dest: try_decode_ppp_frame decode_frame_canonical)

lemma gen_magic_nonzero: "gen_magic t \<noteq> 0"
proof
  assume "gen_magic t = 0"
  then have "bit (gen_magic t) 0 = False" by simp
  then show False by (simp add: gen_magic_def Let_def bit_simps)
qed

end
