(* ===== verification/Framer.thy ===== *)
theory Framer
  imports Cstp Slim Ppp
begin

text \<open>
  The three framers behind the \<open>TunnelFramer\<close> trait (\<open>framer.rs\<close>).  The trait is
  the locale \<open>tunnel_framer\<close>: a decoder and an encoder of data frames that obey
  the \<open>frame_codec\<close> laws, and an appending encoder.  It is interpreted for each
  protocol; the forwarding loop only uses the facts of the locale.
\<close>

datatype frame_event = Ev_Data bytes | Ev_Reply bytes | Ev_Ignore | Ev_Disconnect string

section \<open>CSTP\<close>

definition cstp_encode_data_append :: "bytes \<Rightarrow> bytes \<Rightarrow> bytes" where
  "cstp_encode_data_append payload out = out @ write_header CData (length payload) @ payload"

definition cstp_encode_keepalive :: bytes where
  "cstp_encode_keepalive = write_header DpdOut 0"

definition cstp_encode_shutdown :: "bytes option" where
  "cstp_encode_shutdown = Some (write_header Disconnect 0)"

definition cstp_event :: "cstp_packet \<Rightarrow> frame_event" where
  "cstp_event p =
     (case packet_type p of
        CData \<Rightarrow> Ev_Data (cstp_payload p)
      | DpdOut \<Rightarrow> Ev_Reply (write_header DpdResp 0)
      | DpdResp \<Rightarrow> Ev_Ignore
      | Keepalive \<Rightarrow> Ev_Ignore
      | Compressed \<Rightarrow> Ev_Ignore
      | Disconnect \<Rightarrow> Ev_Disconnect ''CSTP Disconnect frame''
      | TermServer \<Rightarrow> Ev_Disconnect ''CSTP Terminate frame'')"

definition cstp_try_decode :: "frame_event decoder" where
  "cstp_try_decode = map_decoder cstp_event try_decode_cstp"

section \<open>SLIM\<close>

definition describe_slim_disconnect :: "ccc \<Rightarrow> string" where
  "describe_slim_disconnect tree =
     (let cd = opt_bind (ccc_get tree ''code'') as_atom;
          msg = map_option (trim_matches (CHR 0x22)) (opt_bind (ccc_get tree ''message'') as_atom) in
      case (cd, msg) of
        (Some c, Some m) \<Rightarrow> ''gateway sent disconnect code '' @ c @ '': '' @ m
      | (Some c, None) \<Rightarrow> ''gateway sent disconnect code '' @ c
      | (None, Some m) \<Rightarrow> ''gateway sent disconnect: '' @ m
      | (None, None) \<Rightarrow> ''gateway sent a disconnect frame'')"

definition slim_event :: "slim_packet \<Rightarrow> frame_event" where
  "slim_event p =
     (case p of
        Slim_Data payload \<Rightarrow> Ev_Data payload
      | Slim_Control tree \<Rightarrow>
          if ccc_name tree = Some ''disconnect'' then Ev_Disconnect (describe_slim_disconnect tree)
          else Ev_Ignore)"

definition slim_try_decode :: "frame_event decoder" where
  "slim_try_decode = map_decoder slim_event try_decode_slim"

section \<open>FortiGate\<close>

definition forti_encode_data :: "bytes \<Rightarrow> bytes" where
  "forti_encode_data payload = encode_ppp PPP_IPV4 payload"

definition forti_event :: "32 word \<Rightarrow> 16 word \<times> bytes \<Rightarrow> frame_event" where
  "forti_event magic f =
     (case f of (proto, payload) \<Rightarrow>
        if proto = PPP_IPV4 then Ev_Data payload
        else case parse_cp payload of
          Inl _ \<Rightarrow> Ev_Ignore
        | Inr pkt \<Rightarrow>
            if proto = PPP_LCP \<and> cp_code pkt = CODE_ECHO_REQ then Ev_Reply (echo_reply magic pkt)
            else if (proto = PPP_LCP \<or> proto = PPP_IPCP) \<and> cp_code pkt = CODE_CONF_REQ then
              Ev_Reply (encode_ppp proto (build_cp CODE_CONF_ACK (cp_id pkt) (cp_data pkt)))
            else if proto = PPP_LCP \<and> cp_code pkt = CODE_TERM_REQ then
              Ev_Disconnect ''LCP Terminate-Request''
            else Ev_Ignore)"

definition forti_try_decode :: "32 word \<Rightarrow> frame_event decoder" where
  "forti_try_decode magic = map_decoder (forti_event magic) try_decode_ppp"

section \<open>The trait object\<close>

text \<open>A FortiGate framer keeps the magic number and the identifier of its last echo request.\<close>

datatype framer = Cstp_Framer | Slim_Framer | Forti_Framer (fr_magic: "32 word") (fr_echo_id: byte)

definition forti_framer_new :: "32 word \<Rightarrow> framer" where
  "forti_framer_new magic = Forti_Framer magic 0"

fun fr_encode_data :: "framer \<Rightarrow> bytes \<Rightarrow> bytes" where
  "fr_encode_data Cstp_Framer p = cstp_encode_data p"
| "fr_encode_data Slim_Framer p = slim_encode_data p"
| "fr_encode_data (Forti_Framer _ _) p = forti_encode_data p"

fun fr_encode_data_append :: "framer \<Rightarrow> bytes \<Rightarrow> bytes \<Rightarrow> bytes" where
  "fr_encode_data_append Cstp_Framer p out = cstp_encode_data_append p out"
| "fr_encode_data_append Slim_Framer p out = slim_encode_data_append p out"
| "fr_encode_data_append (Forti_Framer _ _) p out = encode_ppp_append PPP_IPV4 p out"

fun fr_encode_keepalive :: "framer \<Rightarrow> bytes \<times> framer" where
  "fr_encode_keepalive Cstp_Framer = (cstp_encode_keepalive, Cstp_Framer)"
| "fr_encode_keepalive Slim_Framer = (slim_encode_keepalive, Slim_Framer)"
| "fr_encode_keepalive (Forti_Framer magic i) =
     (let i' = i + 1 in (echo_request magic i', Forti_Framer magic i'))"

fun fr_encode_shutdown :: "framer \<Rightarrow> bytes option" where
  "fr_encode_shutdown Cstp_Framer = cstp_encode_shutdown"
| "fr_encode_shutdown Slim_Framer = None"
| "fr_encode_shutdown (Forti_Framer _ _) = Some (terminate_request 0)"

fun fr_try_decode :: "framer \<Rightarrow> frame_event decoder" where
  "fr_try_decode Cstp_Framer = cstp_try_decode"
| "fr_try_decode Slim_Framer = slim_try_decode"
| "fr_try_decode (Forti_Framer magic _) = forti_try_decode magic"

text \<open>The largest payload that a frame of the protocol can carry.\<close>

fun fr_payload_ok :: "framer \<Rightarrow> bytes \<Rightarrow> bool" where
  "fr_payload_ok Cstp_Framer p = (length p < 65536)"
| "fr_payload_ok Slim_Framer p = (length p \<le> MAX_SLIM_PAYLOAD)"
| "fr_payload_ok (Forti_Framer _ _) p = (length p + 2 \<le> MAX_FORTI_BODY)"

section \<open>The contract\<close>

locale tunnel_framer = frame_codec dec enc Ev_Data ok
  for dec :: "frame_event decoder" and enc :: "bytes \<Rightarrow> bytes" and ok :: "bytes \<Rightarrow> bool" +
  fixes enc_append :: "bytes \<Rightarrow> bytes \<Rightarrow> bytes"
  assumes append_law: "enc_append p out = out @ enc p"
    and empty_waits: "dec [] = (Inr None, [])"
begin

text \<open>Packets coalesced into one buffer come out one by one, whatever reads they arrive in.\<close>

lemma batch: "fold enc_append ps out = out @ concat (map enc ps)"
  by (induction ps arbitrary: out) (simp_all add: append_law)

lemma batch_arrives:
  assumes "list_all ok ps" "cs \<noteq> []" "concat cs = fold enc_append ps []"
  shows "feed dec [] cs = Some (map Ev_Data ps, Inr [])"
  using assms empty_waits by (simp add: batch feed_encoded)

end

interpretation cstp_fr: stream_decoder cstp_try_decode
  unfolding cstp_try_decode_def by (rule cstp.mapped)

interpretation slim_fr: stream_decoder slim_try_decode
  unfolding slim_try_decode_def by (rule slim.mapped)

interpretation forti_fr: stream_decoder "forti_try_decode magic" for magic
  unfolding forti_try_decode_def by (rule ppp.mapped)

interpretation cstp_fr: tunnel_framer cstp_try_decode cstp_encode_data "\<lambda>p. length p < 65536" cstp_encode_data_append
proof
  fix p rest out :: bytes
  show "length p < 65536 \<Longrightarrow> cstp_try_decode (cstp_encode_data p @ rest) = (Inr (Some (Ev_Data p)), rest)"
    using cstp.decode_encode[of p rest]
    by (simp add: map_decoder_def cstp_try_decode_def cstp_event_def)
  show "cstp_encode_data_append p out = out @ cstp_encode_data p"
    by (simp add: cstp_encode_data_append_def cstp_encode_data_def)
  show "cstp_try_decode [] = (Inr None, [])"
    by (simp add: cstp_try_decode_def map_decoder_def try_decode_cstp_short)
qed

interpretation slim_fr: tunnel_framer slim_try_decode slim_encode_data "\<lambda>p. length p \<le> MAX_SLIM_PAYLOAD"
  slim_encode_data_append
proof
  fix p rest out :: bytes
  show "length p \<le> MAX_SLIM_PAYLOAD \<Longrightarrow> slim_try_decode (slim_encode_data p @ rest) = (Inr (Some (Ev_Data p)), rest)"
    using slim.decode_encode[of p rest]
    by (simp add: map_decoder_def slim_try_decode_def slim_event_def)
  show "slim_encode_data_append p out = out @ slim_encode_data p"
    by (simp add: slim_encode_data_append_def slim_encode_data_def)
  show "slim_try_decode [] = (Inr None, [])"
    by (simp add: slim_try_decode_def map_decoder_def try_decode_slim_short)
qed

interpretation forti_fr: tunnel_framer "forti_try_decode magic" forti_encode_data
  "\<lambda>p. length p + 2 \<le> MAX_FORTI_BODY" "encode_ppp_append PPP_IPV4" for magic
proof
  fix p rest out :: bytes
  show "length p + 2 \<le> MAX_FORTI_BODY \<Longrightarrow>
      forti_try_decode magic (forti_encode_data p @ rest) = (Inr (Some (Ev_Data p)), rest)"
    using decode_encode_ppp[of PPP_IPV4 p rest]
    by (simp add: map_decoder_def forti_try_decode_def forti_encode_data_def forti_event_def PPP_IPV4_def)
  show "encode_ppp_append PPP_IPV4 p out = out @ forti_encode_data p"
    by (simp add: forti_encode_data_def encode_ppp_append_eq)
  show "forti_try_decode magic [] = (Inr None, [])"
    by (simp add: forti_try_decode_def map_decoder_def try_decode_ppp_def try_decode_frame_short)
qed

text \<open>Whatever the protocol.\<close>

lemma fr_functions:
  "fr_try_decode Cstp_Framer = cstp_try_decode" "fr_try_decode Slim_Framer = slim_try_decode"
  "fr_try_decode (Forti_Framer magic i) = forti_try_decode magic"
  "fr_encode_data Cstp_Framer = cstp_encode_data" "fr_encode_data Slim_Framer = slim_encode_data"
  "fr_encode_data (Forti_Framer magic i) = forti_encode_data"
  "fr_payload_ok Cstp_Framer = (\<lambda>p. length p < 65536)"
  "fr_payload_ok Slim_Framer = (\<lambda>p. length p \<le> MAX_SLIM_PAYLOAD)"
  "fr_payload_ok (Forti_Framer magic i) = (\<lambda>p. length p + 2 \<le> MAX_FORTI_BODY)"
  "fr_encode_data_append Cstp_Framer = cstp_encode_data_append"
  "fr_encode_data_append Slim_Framer = slim_encode_data_append"
  "fr_encode_data_append (Forti_Framer magic i) = encode_ppp_append PPP_IPV4"
  by (simp_all add: fun_eq_iff)

lemma framer_contract:
  "tunnel_framer (fr_try_decode fr) (fr_encode_data fr) (fr_payload_ok fr) (fr_encode_data_append fr)"
  by (cases fr)
     (simp_all only: fr_functions cstp_fr.tunnel_framer_axioms slim_fr.tunnel_framer_axioms
        forti_fr.tunnel_framer_axioms)

interpretation fr: tunnel_framer "fr_try_decode fr" "fr_encode_data fr" "fr_payload_ok fr" "fr_encode_data_append fr" for fr
  by (rule framer_contract)

section \<open>Properties\<close>



text \<open>
  C2: decoding depends on the byte stream only: for any bytes at all, malformed
  ones included, two ways to cut the same stream into reads give the same events
  and end with the same error or the same incomplete frame; and draining the
  buffer always returns.
\<close>

theorem reads_do_not_matter:
  assumes "cs \<noteq> []" "ds \<noteq> []" "concat cs = concat ds"
  shows "feed (fr_try_decode fr) buf cs = feed (fr_try_decode fr) buf ds
    \<and> feed (fr_try_decode fr) buf cs \<noteq> None"
proof -
  obtain fs r where "drain (fr_try_decode fr) (buf @ concat cs) = Some (fs, r)"
    using fr.drain_total by blast
  then show ?thesis using assms fr.feed_chunks[of cs fr buf] fr.feed_same_stream[of cs ds fr buf] by simp
qed

theorem reads_do_not_matter_witness:
  "feed (fr_try_decode Cstp_Framer) [] [[0x53], [0x54, 0x00], [1]]
     = feed (fr_try_decode Cstp_Framer) [] [[0x53, 0x54, 0x00, 1]]
   \<and> feed (fr_try_decode Cstp_Framer) [] [[0x53], [0x54, 0x00], [1]] \<noteq> None"
  by (rule reads_do_not_matter) simp_all

text \<open>
  Every liveness probe is answered in kind.  A CSTP probe gets the empty
  response frame; an LCP echo request whose data begin with the magic number of
  the peer gets an echo reply with the same identifier, our magic number and the
  rest of the data; and every client keepalive of FortiGate is a well-formed echo
  request that carries our magic number and the next identifier.
\<close>

theorem liveness_answered:
  "cstp_try_decode (write_header DpdOut 0) = (Inr (Some (Ev_Reply (write_header DpdResp 0))), [])
   \<and> try_decode_cstp (write_header DpdResp 0) = (Inr (Some \<lparr>packet_type = DpdResp, cstp_payload = []\<rparr>), [])
   \<and> forti_try_decode magic (encode_ppp PPP_LCP (build_cp CODE_ECHO_REQ i (to_be32 theirs @ take 1000 extra)))
      = (Inr (Some (Ev_Reply (encode_ppp PPP_LCP (build_cp CODE_ECHO_REP i (to_be32 magic @ take 1000 extra))))), [])
   \<and> forti_try_decode theirs (fst (fr_encode_keepalive (Forti_Framer magic i)))
      = (Inr (Some (Ev_Reply (encode_ppp PPP_LCP (build_cp CODE_ECHO_REP (i + 1) (to_be32 theirs))))), [])"
proof (intro conjI)
  show "cstp_try_decode (write_header DpdOut 0) = (Inr (Some (Ev_Reply (write_header DpdResp 0))), [])"
    using decode_write_header[of "[]" DpdOut "[]"]
    by (simp add: cstp_try_decode_def map_decoder_def cstp_event_def)
  show "try_decode_cstp (write_header DpdResp 0) = (Inr (Some \<lparr>packet_type = DpdResp, cstp_payload = []\<rparr>), [])"
    using decode_write_header[of "[]" DpdResp "[]"] by simp
  have echo: "forti_try_decode mine (encode_ppp PPP_LCP (build_cp CODE_ECHO_REQ j (to_be32 m @ ex)))
      = (Inr (Some (Ev_Reply (encode_ppp PPP_LCP (build_cp CODE_ECHO_REP j (to_be32 mine @ ex))))), [])"
    if "length ex \<le> 1000" for mine j m and ex :: bytes
  proof -
    let ?cp = "build_cp CODE_ECHO_REQ j (to_be32 m @ ex)"
    have "try_decode_ppp (encode_ppp PPP_LCP ?cp @ []) = (Inr (Some (PPP_LCP, ?cp)), [])"
      by (rule decode_encode_ppp) (use that in \<open>simp_all add: PPP_LCP_def build_cp_def MAX_FORTI_BODY_def\<close>)
    moreover have "parse_cp ?cp = Inr \<lparr>cp_code = CODE_ECHO_REQ, cp_id = j, cp_data = to_be32 m @ ex\<rparr>"
      using parse_build_cp[of "to_be32 m @ ex" CODE_ECHO_REQ j "[]"] that by simp
    ultimately show ?thesis
      by (simp add: forti_try_decode_def map_decoder_def forti_event_def echo_reply_def PPP_LCP_def PPP_IPV4_def)
  qed
  show "forti_try_decode magic (encode_ppp PPP_LCP (build_cp CODE_ECHO_REQ i (to_be32 theirs @ take 1000 extra)))
      = (Inr (Some (Ev_Reply (encode_ppp PPP_LCP (build_cp CODE_ECHO_REP i (to_be32 magic @ take 1000 extra))))), [])"
    by (rule echo) simp
  show "forti_try_decode theirs (fst (fr_encode_keepalive (Forti_Framer magic i)))
      = (Inr (Some (Ev_Reply (encode_ppp PPP_LCP (build_cp CODE_ECHO_REP (i + 1) (to_be32 theirs))))), [])"
    using echo[of "[]" theirs "i + 1" magic] by (simp add: echo_request_def Let_def)
qed

end
