(* ===== verification/Routing.thy ===== *)
theory Routing
  imports Ipv4 Errors
begin

text \<open>
  The routes of the tunnel (\<open>routing.rs\<close>): installing them one by one with
  rollback, and removing them.  The kernel's routing table behind the
  \<open>net_route\<close> handle is not part of the repository: opening the handle, adding and
  deleting are parameters that act on a state \<open>'os\<close>; what the theorems assume of
  them is the locale \<open>route_table\<close>, interpreted on a table that is a list.
\<close>

datatype route = Route (rt_dest: ipv4) (rt_prefix: nat) (rt_ifindex: nat)

definition vpn_routes :: "(ipv4 \<times> nat) list" where
  "vpn_routes = [(Ipv4 10 0 0 0, 8), (Ipv4 172 16 0 0, 12)]"

text \<open>An operation on the table returns the text of its error, if any, and the table after.\<close>

type_synonym 'os route_op = "'os \<Rightarrow> route \<Rightarrow> string option \<times> 'os"

definition delete_all :: "'os route_op \<Rightarrow> route list \<Rightarrow> 'os \<Rightarrow> 'os" where
  "delete_all rdel rs os = fold (\<lambda>r os. snd (rdel os r)) rs os"

definition add_failed :: "ipv4 \<Rightarrow> nat \<Rightarrow> nat \<Rightarrow> string \<Rightarrow> vpn_error" where
  "add_failed dest plen ifindex e =
     Routing (''failed to add route '' @ show_ipv4 dest @ ''/'' @ show_nat plen @ '' via ifindex ''
       @ show_nat ifindex @ '': '' @ e)"

fun add_routes ::
  "'os route_op \<Rightarrow> 'os route_op \<Rightarrow> nat \<Rightarrow> (ipv4 \<times> nat) list \<Rightarrow> route list \<Rightarrow> 'os \<Rightarrow> route list result \<times> 'os" where
  "add_routes radd rdel ifindex [] added os = (Inr added, os)"
| "add_routes radd rdel ifindex ((dest, plen) # rs) added os =
     (let route = Route dest plen ifindex in
      case radd os route of
        (Some e, os1) \<Rightarrow> (Inl (add_failed dest plen ifindex e), delete_all rdel added os1)
      | (None, os1) \<Rightarrow> add_routes radd rdel ifindex rs (added @ [route]) os1)"

text \<open>The guard is the list of the routes it installed; \<open>handle\<close> is the error of opening the handle.\<close>

definition install_routes ::
  "'os route_op \<Rightarrow> 'os route_op \<Rightarrow> string option \<Rightarrow> nat \<Rightarrow> (ipv4 \<times> nat) list \<Rightarrow> 'os \<Rightarrow> route list result \<times> 'os" where
  "install_routes radd rdel handle ifindex routes os =
     (case handle of
        Some e \<Rightarrow> (Inl (Routing (''failed to open routing handle: '' @ e)), os)
      | None \<Rightarrow> add_routes radd rdel ifindex routes [] os)"

definition install ::
  "'os route_op \<Rightarrow> 'os route_op \<Rightarrow> string option \<Rightarrow> nat \<Rightarrow> 'os \<Rightarrow> route list result \<times> 'os" where
  "install radd rdel handle ifindex os = install_routes radd rdel handle ifindex vpn_routes os"

text \<open>\<open>remove_all\<close> takes the list out of the guard and deletes each route; failures are only logged.\<close>

definition remove_all :: "'os route_op \<Rightarrow> route list \<Rightarrow> 'os \<Rightarrow> route list \<times> 'os" where
  "remove_all rdel guard os = ([], delete_all rdel guard os)"

section \<open>What is assumed of the table\<close>

text \<open>
  A route that is added was not there before (the kernel refuses duplicates); an
  addition that fails changes nothing; a deletion removes the route.
\<close>

definition add_lawful :: "('os \<Rightarrow> route set) \<Rightarrow> 'os route_op \<Rightarrow> bool" where
  "add_lawful tbl radd =
     (\<forall>os r. case radd os r of
        (None, os') \<Rightarrow> r \<notin> tbl os \<and> tbl os' = insert r (tbl os)
      | (Some _, os') \<Rightarrow> tbl os' = tbl os)"

definition del_lawful :: "('os \<Rightarrow> route set) \<Rightarrow> 'os route_op \<Rightarrow> bool" where
  "del_lawful tbl rdel = (\<forall>os r. tbl (snd (rdel os r)) = tbl os - {r})"

locale route_table =
  fixes tbl :: "'os \<Rightarrow> route set" and radd rdel :: "'os route_op"
  assumes add_law: "add_lawful tbl radd" and del_law: "del_lawful tbl rdel"
begin

lemma delete_all_tbl: "tbl (delete_all rdel rs os) = tbl os - set rs"
  using del_law by (induction rs arbitrary: os) (auto simp: delete_all_def del_lawful_def)

lemma add_cases [case_names ok failed]:
  obtains os' where "radd os r = (None, os')" "r \<notin> tbl os" "tbl os' = insert r (tbl os)"
  | e os' where "radd os r = (Some e, os')" "tbl os' = tbl os"
proof (cases "radd os r")
  case (Pair x os')
  have "case radd os r of
        (None, os') \<Rightarrow> r \<notin> tbl os \<and> tbl os' = insert r (tbl os)
      | (Some _, os') \<Rightarrow> tbl os' = tbl os"
    by (rule add_law[unfolded add_lawful_def, rule_format])
  then show thesis using Pair that by (cases x) auto
qed

lemma add_routes_tbl:
  "set added \<subseteq> tbl os \<Longrightarrow>
   (case add_routes radd rdel ifx rs added os of
      (Inr guard, os') \<Rightarrow> guard = added @ map (\<lambda>(d, p). Route d p ifx) rs
        \<and> tbl os' = tbl os \<union> set guard \<and> distinct (map (\<lambda>(d, p). Route d p ifx) rs)
        \<and> (\<forall>r \<in> set (map (\<lambda>(d, p). Route d p ifx) rs). r \<notin> tbl os)
    | (Inl e, os') \<Rightarrow> tbl os' = tbl os - set added)"
proof (induction rs arbitrary: added os)
  case Nil
  then show ?case by auto
next
  case (Cons x rs)
  obtain d p where x: "x = (d, p)" by (cases x)
  let ?r = "Route d p ifx"
  show ?case
  proof (cases rule: add_cases[of os ?r])
    case (ok os')
    then have "set (added @ [?r]) \<subseteq> tbl os'" using Cons.prems by auto
    note ih = Cons.IH[OF this]
    have new: "?r \<notin> set added" using ok(2) Cons.prems by auto
    show ?thesis
      using ih ok new Cons.prems by (auto simp: x split: prod.splits sum.splits)
  next
    case (failed e os')
    then show ?thesis by (simp add: x delete_all_tbl)
  qed
qed

lemma install_routes_tbl:
  "case install_routes radd rdel handle ifx rs os of
     (Inr guard, os') \<Rightarrow> guard = map (\<lambda>(d, p). Route d p ifx) rs \<and> tbl os' = tbl os \<union> set guard
       \<and> tbl (snd (remove_all rdel guard os')) = tbl os
   | (Inl e, os') \<Rightarrow> tbl os' = tbl os"
  using add_routes_tbl[of "[]" os ifx rs]
  by (cases handle) (auto simp: install_routes_def remove_all_def delete_all_tbl split: prod.splits sum.splits)

end

text \<open>A table that is a list of routes; additions of a route that is there, or listed as refused, fail.\<close>

record list_table =
  lt_routes :: "route list"
  lt_refuse :: "route list"

definition lt_add :: "list_table route_op" where
  "lt_add t r =
     (if r \<in> set (lt_routes t) \<or> r \<in> set (lt_refuse t) then (Some ''File exists'', t)
      else (None, t\<lparr>lt_routes := r # lt_routes t\<rparr>))"

definition lt_del :: "list_table route_op" where
  "lt_del t r =
     (if r \<in> set (lt_routes t) then (None, t\<lparr>lt_routes := filter (\<lambda>x. x \<noteq> r) (lt_routes t)\<rparr>)
      else (Some ''No such process'', t))"

interpretation lt: route_table "\<lambda>t. set (lt_routes t)" lt_add lt_del
  by unfold_locales (auto simp: add_lawful_def del_lawful_def lt_add_def lt_del_def)



end
