(* ===== verification/Forward.thy ===== *)
theory Forward
  imports Framer Net_Io Routing
begin

text \<open>
  The forwarding loop (\<open>forward.rs\<close>): one task that selects between shutdown, the
  keepalive timer, packets from the TUN device and bytes from the TLS stream, in
  this order of priority, and the teardown after it.

  A \<open>wake\<close> is what is ready when the task is polled; the loop serves the first arm
  that is ready and leaves the others for the next wake.  Writes succeed unless
  the script of their outcomes says otherwise; a write that never completes, which
  would suspend the whole task, is not modelled.
\<close>

definition MAX_TX_BATCH :: nat where "MAX_TX_BATCH = 32"
definition MAX_MISSED_KEEPALIVES :: nat where "MAX_MISSED_KEEPALIVES = 3"

datatype tun_result = Tun_Data bytes | Tun_Fail io_error

text \<open>
  \<open>w_tun\<close> is the read that is ready and the reads that are ready right behind it;
  a read of no bytes means that the device was closed.
\<close>

record wake =
  w_shutdown :: bool
  w_tick :: bool
  w_tun :: "(tun_result \<times> tun_result list) option"
  w_tls :: "read_event option"

record fwd =
  fw_framer :: framer
  fw_inbound :: bytes
  fw_missed :: nat
  fw_tls_script :: "io_error option list"
  fw_tls_out :: "bytes list"
  fw_tun_script :: "io_error option list"
  fw_tun_out :: "bytes list"

text \<open>\<open>write_all\<close> and \<open>flush\<close> on the TLS half; \<open>write_all\<close> on the TUN half.\<close>

definition tls_write :: "bytes \<Rightarrow> fwd \<Rightarrow> io_error option \<times> fwd" where
  "tls_write b st =
     (case fw_tls_script st of
        Some e # rest \<Rightarrow> (Some e, st\<lparr>fw_tls_script := rest\<rparr>)
      | None # rest \<Rightarrow> (None, st\<lparr>fw_tls_script := rest, fw_tls_out := fw_tls_out st @ [b]\<rparr>)
      | [] \<Rightarrow> (None, st\<lparr>fw_tls_out := fw_tls_out st @ [b]\<rparr>))"

definition tun_write :: "bytes \<Rightarrow> fwd \<Rightarrow> io_error option \<times> fwd" where
  "tun_write b st =
     (case fw_tun_script st of
        Some e # rest \<Rightarrow> (Some e, st\<lparr>fw_tun_script := rest\<rparr>)
      | None # rest \<Rightarrow> (None, st\<lparr>fw_tun_script := rest, fw_tun_out := fw_tun_out st @ [b]\<rparr>)
      | [] \<Rightarrow> (None, st\<lparr>fw_tun_out := fw_tun_out st @ [b]\<rparr>))"

text \<open>The outcome of an arm: \<open>None\<close> to go on, \<open>Some r\<close> to break out of the loop with \<open>r\<close>.\<close>

type_synonym arm = "unit result option \<times> fwd"

definition or_break :: "io_error option \<times> fwd \<Rightarrow> (fwd \<Rightarrow> arm) \<Rightarrow> arm" where
  "or_break w k = (case w of (Some e, st) \<Rightarrow> (Some (Inl (Io e)), st) | (None, st) \<Rightarrow> k st)"

definition shutdown_arm :: "fwd \<Rightarrow> arm" where
  "shutdown_arm st =
     (Some (Inr ()), (case fr_encode_shutdown (fw_framer st) of
        Some frame \<Rightarrow> snd (tls_write frame st)
      | None \<Rightarrow> st))"

definition peer_unresponsive :: vpn_error where
  "peer_unresponsive = Protocol ''peer unresponsive (missed keepalives)''"

definition tick_arm :: "fwd \<Rightarrow> arm" where
  "tick_arm st =
     (case fr_encode_keepalive (fw_framer st) of
        (frame, fr') \<Rightarrow>
          let st1 = st\<lparr>fw_framer := fr'\<rparr> in
          if frame = [] then (None, st1)
          else or_break (tls_write frame st1) (\<lambda>st2.
            let st3 = st2\<lparr>fw_missed := fw_missed st2 + 1\<rparr> in
            if MAX_MISSED_KEEPALIVES \<le> fw_missed st3 then (Some (Inl peer_unresponsive), st3)
            else (None, st3)))"

definition tun_closed :: io_error where
  "tun_closed = Io_Error Unexpected_Eof ''TUN device closed (read returned 0)''"

definition tls_closed :: io_error where
  "tls_closed = Io_Error Unexpected_Eof ''TLS stream closed by peer (read returned 0)''"

text \<open>
  The reads that are coalesced: at most \<open>k\<close> more.  \<open>cap\<close> is the size of the TUN
  buffer.  Returned are the frames so far, whether the device was closed, and the
  error of a read.
\<close>

fun collect :: "framer \<Rightarrow> nat \<Rightarrow> nat \<Rightarrow> tun_result list \<Rightarrow> bytes \<Rightarrow> bytes \<times> bool \<times> io_error option" where
  "collect fr cap 0 rs out = (out, False, None)"
| "collect fr cap (Suc k) [] out = (out, False, None)"
| "collect fr cap (Suc k) (Tun_Data p # rs) out =
     (if p = [] then (out, True, None)
      else collect fr cap k rs (fr_encode_data_append fr (take cap p) out))"
| "collect fr cap (Suc k) (Tun_Fail e # rs) out = (out, False, Some e)"

definition tun_arm :: "16 word \<Rightarrow> tun_result \<times> tun_result list \<Rightarrow> fwd \<Rightarrow> arm" where
  "tun_arm mtu reads st =
     (let cap = unat mtu + 4 in
      case reads of
        (Tun_Fail e, _) \<Rightarrow> (Some (Inl (Io e)), st)
      | (Tun_Data p, pending) \<Rightarrow>
          if p = [] then (Some (Inl (Io tun_closed)), st)
          else
            let (out, eof, read_err) =
                  collect (fw_framer st) cap (MAX_TX_BATCH - 1) pending
                    (fr_encode_data_append (fw_framer st) (take cap p) []) in
            or_break (tls_write out st) (\<lambda>st1.
              case read_err of
                Some e \<Rightarrow> (Some (Inl (Io e)), st1)
              | None \<Rightarrow> if eof then (Some (Inl (Io tun_closed)), st1) else (None, st1)))"

definition handle_event :: "frame_event \<Rightarrow> fwd \<Rightarrow> arm" where
  "handle_event ev st =
     (case ev of
        Ev_Data payload \<Rightarrow> or_break (tun_write payload st) (\<lambda>st1. (None, st1))
      | Ev_Reply b \<Rightarrow> or_break (tls_write b st) (\<lambda>st1. (None, st1))
      | Ev_Ignore \<Rightarrow> (None, st)
      | Ev_Disconnect reason \<Rightarrow> (Some (Inl (Server_Disconnect reason)), st))"

lemma tls_write_keeps:
  "tls_write b st = (r, st') \<Longrightarrow> fw_inbound st' = fw_inbound st \<and> fw_framer st' = fw_framer st
     \<and> fw_missed st' = fw_missed st \<and> fw_tun_out st' = fw_tun_out st"
  by (auto simp: tls_write_def split: list.splits option.splits)

lemma tun_write_keeps:
  "tun_write b st = (r, st') \<Longrightarrow> fw_inbound st' = fw_inbound st \<and> fw_framer st' = fw_framer st
     \<and> fw_missed st' = fw_missed st \<and> fw_tls_out st' = fw_tls_out st
     \<and> (r = None \<longrightarrow> fw_tun_out st' = fw_tun_out st @ [b])"
  by (auto simp: tun_write_def split: list.splits option.splits)

lemma handle_event_keeps:
  "handle_event ev st = (r, st') \<Longrightarrow> fw_inbound st' = fw_inbound st \<and> fw_framer st' = fw_framer st
     \<and> fw_missed st' = fw_missed st"
  by (auto simp: handle_event_def or_break_def split: frame_event.splits prod.splits option.splits
      dest: tls_write_keeps tun_write_keeps)

function drain_loop :: "fwd \<Rightarrow> arm" where
  "drain_loop st =
     (case fr_try_decode (fw_framer st) (fw_inbound st) of
        (Inl e, b) \<Rightarrow> (Some (Inl e), st\<lparr>fw_inbound := b\<rparr>)
      | (Inr None, b) \<Rightarrow> (None, st\<lparr>fw_inbound := b\<rparr>)
      | (Inr (Some ev), b) \<Rightarrow>
          (case handle_event ev (st\<lparr>fw_inbound := b, fw_missed := 0\<rparr>) of
             (Some r, st2) \<Rightarrow> (Some r, st2)
           | (None, st2) \<Rightarrow> drain_loop st2))"
  by pat_completeness auto
termination
  by (relation "measure (\<lambda>st. length (fw_inbound st))")
     (auto dest!: fr.progress[OF sym] dest: handle_event_keeps[OF sym])

declare drain_loop.simps [simp del]

definition tls_arm :: "read_event \<Rightarrow> fwd \<Rightarrow> arm" where
  "tls_arm ev st =
     (case ev of
        Read_Fail e \<Rightarrow> (Some (Inl (Io e)), st)
      | Data d \<Rightarrow>
          if d = [] then (Some (Inl (Io tls_closed)), st)
          else drain_loop (st\<lparr>fw_inbound := fw_inbound st @ d\<rparr>))"

text \<open>One pass of the biased select.\<close>

definition select :: "16 word \<Rightarrow> wake \<Rightarrow> fwd \<Rightarrow> arm" where
  "select mtu w st =
     (if w_shutdown w then shutdown_arm st
      else if w_tick w then tick_arm st
      else case w_tun w of
        Some reads \<Rightarrow> tun_arm mtu reads st
      | None \<Rightarrow> (case w_tls w of Some ev \<Rightarrow> tls_arm ev st | None \<Rightarrow> (None, st)))"

text \<open>\<open>None\<close>: the loop is still running when the wakes are used up.\<close>

fun forward_loop :: "16 word \<Rightarrow> wake list \<Rightarrow> fwd \<Rightarrow> arm" where
  "forward_loop mtu [] st = (None, st)"
| "forward_loop mtu (w # ws) st =
     (case select mtu w st of
        (Some r, st') \<Rightarrow> (Some r, st')
      | (None, st') \<Rightarrow> forward_loop mtu ws st')"

definition fwd_init :: "framer \<Rightarrow> bytes \<Rightarrow> io_error option list \<Rightarrow> io_error option list \<Rightarrow> fwd" where
  "fwd_init fr prime tls_script tun_script =
     \<lparr>fw_framer = fr, fw_inbound = prime, fw_missed = 0, fw_tls_script = tls_script, fw_tls_out = [],
      fw_tun_script = tun_script, fw_tun_out = []\<rparr>"

section \<open>Teardown\<close>

text \<open>The effects on the system in their order: the routes go before the device.\<close>

datatype teardown = Delete_Route route | Close_Tun

definition run_forwarding ::
  "'os route_op \<Rightarrow> 16 word \<Rightarrow> framer \<Rightarrow> bytes \<Rightarrow> route list \<Rightarrow> wake list
     \<Rightarrow> io_error option list \<Rightarrow> io_error option list \<Rightarrow> 'os
     \<Rightarrow> unit result option \<times> fwd \<times> 'os \<times> teardown list" where
  "run_forwarding rdel mtu fr prime guard ws tls_script tun_script os =
     (case forward_loop mtu ws (fwd_init fr prime tls_script tun_script) of
        (None, st) \<Rightarrow> (None, st, os, [])
      | (Some r, st) \<Rightarrow>
          (case remove_all rdel guard os of
             (_, os') \<Rightarrow> (Some r, st, os', map Delete_Route guard @ [Close_Tun])))"

text \<open>The cadence of the timer: the interval the server dictates, at least one second.\<close>

definition keepalive_interval :: "nat \<Rightarrow> nat" where
  "keepalive_interval keepalive = max 1 keepalive"

end
