(* ===== verification/Cp_Session.thy ===== *)
theory Cp_Session
  imports Slim Session_Params Net_Io
begin

text \<open>
  The session layer of the Check Point tunnel (\<open>checkpoint/session.rs\<close>): the
  \<open>client_hello\<close> message, the parser of \<open>hello_reply\<close>, the split of address
  ranges into subnets, and the exchange of the two messages over the stream.
\<close>

definition DEFAULT_SLIM_MTU :: "16 word" where "DEFAULT_SLIM_MTU = 1400"
definition HELLO_REPLY_MAX_BYTES :: nat where "HELLO_REPLY_MAX_BYTES = 64 * 1024"
definition HELLO_REPLY_TIMEOUT_SECS :: nat where "HELLO_REPLY_TIMEOUT_SECS = 20"

record checkpoint_session =
  cps_address :: ipv4
  cps_prefix :: nat
  cps_dns :: "ipv4 list"
  cps_search_domains :: "string list"
  cps_routes :: "(ipv4 \<times> nat) list"
  cps_keepalive_secs :: nat
  cps_auth_timeout_secs :: nat

definition prefix_to_netmask :: "nat \<Rightarrow> ipv4" where
  "prefix_to_netmask plen =
     (let p = min plen 32;
          mask = (if p = 0 then 0 else push_bit (32 - p) (- 1)) in
      ipv4_of_bits mask)"

definition cps_to_session_params :: "checkpoint_session \<Rightarrow> session_params" where
  "cps_to_session_params s =
     \<lparr>sp_address = cps_address s, sp_netmask = Some (prefix_to_netmask (cps_prefix s)),
      sp_dns = cps_dns s, sp_mtu = DEFAULT_SLIM_MTU,
      sp_keepalive = Some (min (cps_keepalive_secs s) (2 ^ 32 - 1)), sp_dpd = None,
      sp_disconnected_timeout = None\<rparr>"

section \<open>The client hello\<close>

record hello_opts =
  ho_client_version :: nat
  ho_protocol_version :: nat
  ho_protocol_minor_version :: "nat option"
  ho_client_type :: string

definition hello_opts_default :: hello_opts where
  "hello_opts_default =
     \<lparr>ho_client_version = 2, ho_protocol_version = 2, ho_protocol_minor_version = None,
      ho_client_type = ''4''\<rparr>"

definition client_hello_tree :: "string \<Rightarrow> string \<Rightarrow> hello_opts \<Rightarrow> ccc" where
  "client_hello_tree cookie_value om_ip opts =
     (let om = Node None [(''ipaddr'', Atom om_ip), (''keep_address'', Atom ''false'')];
          optional = Node None [(''client_type'', Atom (ho_client_type opts))] in
      Node (Some ''client_hello'')
        ([(''client_version'', Atom (show_nat (ho_client_version opts))),
          (''protocol_version'', Atom (show_nat (ho_protocol_version opts)))]
         @ (case ho_protocol_minor_version opts of
              Some minor \<Rightarrow> [(''protocol_minor_version'', Atom (show_nat minor))]
            | None \<Rightarrow> [])
         @ [(''OM'', om), (''optional'', optional), (''cookie'', Atom cookie_value)]))"

definition build_client_hello :: "string \<Rightarrow> string \<Rightarrow> hello_opts \<Rightarrow> string" where
  "build_client_hello cookie_value om_ip opts = to_wire (client_hello_tree cookie_value om_ip opts)"

definition redact_cookie :: "string \<Rightarrow> string" where
  "redact_cookie wire =
     (case find_sub '':cookie ('' wire of
        Some start \<Rightarrow>
          let after = start + length '':cookie ('' in
          (case find_sub '')'' (drop after wire) of
             Some rel \<Rightarrow> take after wire @ ''<redacted>'' @ drop (after + rel) wire
           | None \<Rightarrow> wire)
      | None \<Rightarrow> wire)"

section \<open>Address ranges\<close>

text \<open>\<open>trailing_zeros\<close> of a non-zero number, and the number of significant bits.\<close>

fun trailing_zeros :: "nat \<Rightarrow> nat" where
  "trailing_zeros n = (if n = 0 then 32 else if odd n then 0 else Suc (trailing_zeros (n div 2)))"

fun bit_length :: "nat \<Rightarrow> nat" where
  "bit_length n = (if n = 0 then 0 else Suc (bit_length (n div 2)))"

declare trailing_zeros.simps [simp del] bit_length.simps [simp del]

definition leading_zeros64 :: "nat \<Rightarrow> nat" where
  "leading_zeros64 n = 64 - bit_length n"

definition block_bits :: "nat \<Rightarrow> nat \<Rightarrow> nat" where
  "block_bits start end' =
     (let align_bits = (if start = 0 then 32 else trailing_zeros start);
          remaining = end' - start + 1;
          size_bits = 63 - leading_zeros64 remaining in
      min align_bits size_bits)"

text \<open>The loop; \<open>start\<close> and \<open>end'\<close> are the \<open>u64\<close> values of the source and stay below \<open>2 ^ 33\<close>.\<close>

function subnets_from :: "nat \<Rightarrow> nat \<Rightarrow> (ipv4 \<times> nat) list" where
  "subnets_from start end' =
     (if start \<le> end' then
        let bits = block_bits start end' in
        (ipv4_of_bits (as_u32 start), 32 - bits) # subnets_from (start + 2 ^ bits) end'
      else [])"
  by auto
termination
proof (relation "measure (\<lambda>(s, e). e + 1 - s)", goal_cases)
  case (2 start end' bits)
  moreover have "0 < (2 :: nat) ^ bits" by simp
  ultimately show ?case unfolding in_measure prod.case by linarith
qed simp

declare subnets_from.simps [simp del]

definition range_to_subnets :: "ipv4 \<Rightarrow> ipv4 \<Rightarrow> (ipv4 \<times> nat) list" where
  "range_to_subnets f t =
     (let start = unat (ipv4_bits f); end' = unat (ipv4_bits t) in
      if end' < start then [] else subnets_from start end')"

section \<open>The hello reply\<close>

text \<open>\<open>str::split\<close> at every character of a set.\<close>

fun split_any :: "(char \<Rightarrow> bool) \<Rightarrow> string \<Rightarrow> string list" where
  "split_any p [] = [[]]"
| "split_any p (c # s) =
     (if p c then [] # split_any p s
      else case split_any p s of t # ts \<Rightarrow> (c # t) # ts | [] \<Rightarrow> [[c]])"

definition get_ipv4 :: "ccc option \<Rightarrow> ipv4 option" where
  "get_ipv4 v = opt_bind (opt_bind v as_atom) parse_ipv4"

definition get_u64 :: "ccc option \<Rightarrow> nat option" where
  "get_u64 v = opt_bind (opt_bind v as_atom) (parse_uint (2 ^ 64))"

definition get_path :: "ccc \<Rightarrow> string \<Rightarrow> string \<Rightarrow> ccc option" where
  "get_path tree a b = opt_bind (ccc_get tree a) (\<lambda>v. ccc_get v b)"

definition refusal_text :: "ccc \<Rightarrow> string" where
  "refusal_text tree =
     (let c = opt_bind (ccc_get tree ''code'') as_atom;
          m = map_option (trim_matches (CHR 0x22)) (opt_bind (ccc_get tree ''message'') as_atom) in
      case (c, m) of
        (Some c, Some m) \<Rightarrow> ''gateway refused the session, code '' @ c @ '': '' @ m
      | (Some c, None) \<Rightarrow> ''gateway refused the session, code '' @ c
      | (None, Some m) \<Rightarrow> ''gateway refused the session: '' @ m
      | (None, None) \<Rightarrow> ''gateway refused the session'')"

definition reply_dns :: "ccc \<Rightarrow> ipv4 list" where
  "reply_dns tree =
     (case get_path tree ''OM'' ''dns_servers'' of
        Some node \<Rightarrow> List.map_filter parse_ipv4 (List.map_filter as_atom (elements node))
      | None \<Rightarrow> [])"

definition reply_domains :: "ccc \<Rightarrow> string list" where
  "reply_domains tree =
     (case opt_bind (get_path tree ''OM'' ''dns_suffix'') as_atom of
        Some s \<Rightarrow> filter (\<lambda>d. d \<noteq> []) (map trim (split_any (\<lambda>c. c = CHR '','' \<or> c = CHR '';'') (trim_matches (CHR 0x22) s)))
      | None \<Rightarrow> [])"

definition sentinel :: ipv4 where "sentinel = Ipv4 0 0 0 1"

definition range_routes :: "ccc \<Rightarrow> (ipv4 \<times> nat) list" where
  "range_routes elem =
     (case (get_ipv4 (ccc_get elem ''from''), get_ipv4 (ccc_get elem ''to'')) of
        (Some f, Some t) \<Rightarrow> if f \<noteq> sentinel then range_to_subnets f t else []
      | _ \<Rightarrow> [])"

definition reply_routes :: "ccc \<Rightarrow> (ipv4 \<times> nat) list" where
  "reply_routes tree =
     (case ccc_get tree ''range'' of
        Some ranges \<Rightarrow> concat (map range_routes (elements ranges))
      | None \<Rightarrow> [])"

definition parse_hello_reply :: "ccc \<Rightarrow> checkpoint_session result" where
  "parse_hello_reply tree =
     (if ccc_name tree = Some ''disconnect'' then Inl (Server_Disconnect (refusal_text tree))
      else if ccc_name tree \<noteq> Some ''hello_reply'' then Inl (Protocol ''unexpected hello reply object'')
      else
        and_then (ok_or (Protocol ''missing OM.ipaddr'') (get_ipv4 (get_path tree ''OM'' ''ipaddr''))) (\<lambda>address.
          Inr \<lparr>cps_address = address,
               cps_prefix = unwrap_or 32 (map_option (\<lambda>m. count_ones (ipv4_bits m)) (get_ipv4 (get_path tree ''optional'' ''subnet''))),
               cps_dns = reply_dns tree,
               cps_search_domains = reply_domains tree,
               cps_routes = reply_routes tree,
               cps_keepalive_secs = unwrap_or 20 (get_u64 (get_path tree ''timeouts'' ''keepalive'')),
               cps_auth_timeout_secs =
                 unwrap_or 0 (map_option (\<lambda>a. a - 60) (get_u64 (get_path tree ''timeouts'' ''authentication'')))\<rparr>))"

section \<open>The exchange\<close>

function hello_loop :: "bytes \<Rightarrow> stream \<Rightarrow> checkpoint_session result \<times> stream" where
  "hello_loop buf s =
     (case try_decode_slim buf of
        (Inl e, _) \<Rightarrow> (Inl e, s)
      | (Inr (Some (Slim_Control tree)), _) \<Rightarrow> (parse_hello_reply tree, s)
      | (Inr (Some (Slim_Data _)), b) \<Rightarrow> hello_loop b s
      | (Inr None, b) \<Rightarrow>
          if HELLO_REPLY_MAX_BYTES < length b then (Inl (Protocol ''hello_reply exceeded size guard''), s)
          else case read_timeout (1000 * HELLO_REPLY_TIMEOUT_SECS) s of
            (None, s1) \<Rightarrow>
              (Inl (Protocol (''no hello_reply within '' @ show_nat HELLO_REPLY_TIMEOUT_SECS @ ''s (''
                 @ show_nat (length b) @ '' bytes buffered)'')), s1)
          | (Some (Read_Fail e), s1) \<Rightarrow> (Inl (Io e), s1)
          | (Some (Data d), s1) \<Rightarrow>
              if d = [] then (Inl (Protocol ''connection closed before hello_reply''), s1)
              else hello_loop (b @ d) s1)"
  by pat_completeness auto
termination
  by (relation "inv_image (less_than <*lex*> less_than) (\<lambda>(b, s). (length (inbox s), length b))")
     (auto dest: read_timeout_less [OF sym] slim.progress [OF sym])

declare hello_loop.simps [simp del]

definition establish_session :: "string \<Rightarrow> hello_opts \<Rightarrow> stream \<Rightarrow> checkpoint_session result \<times> stream" where
  "establish_session cookie_value opts s =
     (case write_flush (encode_control (build_client_hello cookie_value ''0.0.0.0'' opts)) s of
        (Inl e, s1) \<Rightarrow> (Inl e, s1)
      | (Inr _, s1) \<Rightarrow> hello_loop [] s1)"

end
