(* ===== verification/Subnets.thy ===== *)
theory Subnets
  imports Cp_Session
begin

text \<open>
  The split of an address range into subnets: the loop yields aligned blocks,
  one after the other, from the first to the last address.  \<open>in_subnet\<close> is the
  test a routing table makes, with the mask.
\<close>

definition in_subnet :: "ipv4 \<Rightarrow> ipv4 \<times> nat \<Rightarrow> bool" where
  "in_subnet ip r = (ipv4_bits ip AND prefix_bits (snd r) = ipv4_bits (fst r))"

section \<open>An aligned block\<close>

lemma and_prefix_bits:
  assumes "n \<le> 32"
  shows "x AND prefix_bits (32 - n) = push_bit n (drop_bit n x)"
  using assms by (intro bit_word_eqI) (auto simp: bit_simps bit_prefix_bits)

lemma unat_push_drop: "unat (push_bit n (drop_bit n (x :: 32 word))) = unat x div 2 ^ n * 2 ^ n"
proof -
  have "unat x div 2 ^ n * 2 ^ n \<le> unat x" by (rule div_times_less_eq_dividend)
  also have "\<dots> < 2 ^ 32" using unat_u32_less[of x] by simp
  finally have "take_bit 32 (unat x div 2 ^ n * 2 ^ n) = unat x div 2 ^ n * 2 ^ n"
    by (simp only: take_bit_nat_eq_self)
  moreover have "unat (push_bit n (drop_bit n x)) = take_bit 32 (unat x div 2 ^ n * 2 ^ n)"
    unfolding unsigned_push_bit_eq unat_drop_bit_eq by (simp add: push_bit_eq_mult drop_bit_eq_div)
  ultimately show ?thesis by simp
qed

lemma in_subnet_block:
  assumes "n \<le> 32" "2 ^ n dvd s" "s + 2 ^ n \<le> 2 ^ 32"
  shows "in_subnet ip (ipv4_of_bits (as_u32 s), 32 - n) \<longleftrightarrow>
    s \<le> unat (ipv4_bits ip) \<and> unat (ipv4_bits ip) < s + 2 ^ n"
proof -
  let ?x = "unat (ipv4_bits ip)"
  obtain q where q: "s = 2 ^ n * q" using assms(2) by blast
  have pos: "0 < (2 :: nat) ^ n" and "(2 :: nat) ^ 32 = 4294967296" by simp_all
  then have "s < 4294967296" using assms(3) by linarith
  then have s: "unat (as_u32 s) = s" by simp
  have "in_subnet ip (ipv4_of_bits (as_u32 s), 32 - n) \<longleftrightarrow>
      unat (push_bit n (drop_bit n (ipv4_bits ip))) = unat (as_u32 s)"
    using assms(1) by (simp add: in_subnet_def and_prefix_bits word_unat_eq_iff)
  also have "\<dots> \<longleftrightarrow> ?x div 2 ^ n * 2 ^ n = s" by (simp only: unat_push_drop s)
  also have "\<dots> \<longleftrightarrow> ?x div 2 ^ n = q" using q pos by auto
  also have "\<dots> \<longleftrightarrow> q * 2 ^ n \<le> ?x \<and> ?x < Suc q * 2 ^ n"
  proof
    show "?x div 2 ^ n = q \<Longrightarrow> q * 2 ^ n \<le> ?x \<and> ?x < Suc q * 2 ^ n"
      using pos dividend_less_times_div[of "2 ^ n" ?x] by (auto simp: algebra_simps)
    show "q * 2 ^ n \<le> ?x \<and> ?x < Suc q * 2 ^ n \<Longrightarrow> ?x div 2 ^ n = q"
      by (intro div_nat_eqI) (auto simp: mult.commute)
  qed
  finally show ?thesis using q by (simp add: mult.commute add.commute)
qed

section \<open>The size of the next block\<close>

lemma trailing_zeros_dvd: "2 ^ trailing_zeros n dvd n \<or> n = 0"
proof (induction n rule: trailing_zeros.induct)
  case (1 n)
  show ?case
  proof (cases "n = 0 \<or> odd n")
    case True
    then show ?thesis by (auto simp: trailing_zeros.simps[of n])
  next
    case False
    then obtain m where "n = 2 * m" by blast
    then have "trailing_zeros n = Suc (trailing_zeros m)" "0 < m"
      using False trailing_zeros.simps[of n] by simp_all
    with False 1 \<open>n = 2 * m\<close> show ?thesis by simp
  qed
qed

lemma bit_length_le: "0 < n \<Longrightarrow> 0 < bit_length n \<and> 2 ^ (bit_length n - 1) \<le> n"
proof (induction n rule: bit_length.induct)
  case (1 n)
  show ?case
  proof (cases "n div 2 = 0")
    case True
    with "1.prems" show ?thesis by (simp add: bit_length.simps[of n] bit_length.simps[of 0])
  next
    case False
    with "1" have "0 < bit_length (n div 2)" "2 ^ (bit_length (n div 2) - 1) \<le> n div 2" by auto
    then have "(2 :: nat) * 2 ^ (bit_length (n div 2) - 1) \<le> n" by linarith
    moreover have "(2 :: nat) * 2 ^ (bit_length (n div 2) - 1) = 2 ^ bit_length (n div 2)"
      using \<open>0 < bit_length (n div 2)\<close> by (metis Suc_pred' power_Suc)
    ultimately show ?thesis using "1.prems" by (simp add: bit_length.simps[of n])
  qed
qed

lemma block_bits_ok:
  assumes "s \<le> e" "e < 2 ^ 32"
  shows "block_bits s e \<le> 32" "2 ^ block_bits s e dvd s" "s + 2 ^ block_bits s e \<le> e + 1"
proof -
  define r where "r = e - s + 1"
  have r: "0 < r" "r \<le> 2 ^ 32" using assms by (auto simp: r_def)
  note bl = bit_length_le[OF r(1)]
  have "(2 :: nat) ^ (bit_length r - 1) \<le> 2 ^ 32" using bl r(2) by (meson le_trans)
  then have bl32: "bit_length r - 1 \<le> 32" by (subst (asm) power_increasing_iff) simp_all
  then have size: "63 - leading_zeros64 r = bit_length r - 1"
    using bl by (simp add: leading_zeros64_def)
  have le: "block_bits s e \<le> bit_length r - 1"
    unfolding block_bits_def Let_def r_def[symmetric] size by simp
  then show "block_bits s e \<le> 32" using bl32 by simp
  have "(2 :: nat) ^ block_bits s e \<le> 2 ^ (bit_length r - 1)" using le by simp
  then show "s + 2 ^ block_bits s e \<le> e + 1" using bl assms(1) unfolding r_def by linarith
  show "2 ^ block_bits s e dvd s"
  proof (cases "s = 0")
    case False
    then have "block_bits s e \<le> trailing_zeros s" by (simp add: block_bits_def Let_def)
    then have "(2 :: nat) ^ block_bits s e dvd 2 ^ trailing_zeros s" by (rule le_imp_power_dvd)
    then show ?thesis using trailing_zeros_dvd[of s] False by (blast intro: dvd_trans)
  qed simp
qed

section \<open>The loop\<close>

lemma subnets_from_count:
  "e < 2 ^ 32 \<Longrightarrow> length (filter (in_subnet ip) (subnets_from s e)) =
     (if s \<le> unat (ipv4_bits ip) \<and> unat (ipv4_bits ip) \<le> e then 1 else 0)"
proof (induction s e rule: subnets_from.induct)
  case (1 s e)
  let ?x = "unat (ipv4_bits ip)"
  show ?case
  proof (cases "s \<le> e")
    case False
    then show ?thesis by (simp add: subnets_from.simps[of s])
  next
    case True
    define b where "b = block_bits s e"
    note ok = block_bits_ok[OF True "1.prems", folded b_def]
    have "in_subnet ip (ipv4_of_bits (as_u32 s), 32 - b) \<longleftrightarrow> s \<le> ?x \<and> ?x < s + 2 ^ b"
      by (rule in_subnet_block) (use ok "1.prems" in auto)
    moreover note "1.IH"[OF True b_def "1.prems"]
    ultimately show ?thesis using True ok(3) by (auto simp: subnets_from.simps[of s] b_def[symmetric] Let_def)
  qed
qed

lemma range_to_subnets_count:
  "length (filter (in_subnet ip) (range_to_subnets f t)) = (if f \<le> ip \<and> ip \<le> t then 1 else 0)"
proof -
  have "unat (ipv4_bits t) < 2 ^ 32" using unat_u32_less[of "ipv4_bits t"] by simp
  then show ?thesis
    using subnets_from_count[of "unat (ipv4_bits t)" ip "unat (ipv4_bits f)"]
    by (auto simp: range_to_subnets_def Let_def less_eq_ipv4_def word_le_nat_alt)
qed

lemma range_to_subnets_iff:
  "list_ex (in_subnet ip) (range_to_subnets f t) \<longleftrightarrow> f \<le> ip \<and> ip \<le> t"
proof -
  have "list_ex (in_subnet ip) rs \<longleftrightarrow> length (filter (in_subnet ip) rs) \<noteq> 0" for rs
    by (simp add: list_ex_iff filter_empty_conv)
  then show ?thesis by (simp only: range_to_subnets_count) simp
qed

text \<open>
  C19: the subnets a range is split into partition it: by the test with the mask,
  every address between the two ends is in exactly one of the subnets, and every
  other address is in none.
\<close>

theorem range_to_subnets_partition:
  "length (filter (in_subnet ip) (range_to_subnets f t)) = (if f \<le> ip \<and> ip \<le> t then 1 else 0)"
  by (rule range_to_subnets_count)

text \<open>
  The session the hello reply yields: only a \<open>hello_reply\<close> object with a
  parseable \<open>OM.ipaddr\<close> gives one, and a \<open>disconnect\<close> object gives the gateway's
  own words; the prefix is at most 32, and the routes
  contain exactly the addresses of the ranges whose first address is not the
  sentinel \<open>0.0.0.1\<close>.
\<close>

theorem parse_hello_reply_session:
  "case parse_hello_reply tree of
     Inr s \<Rightarrow> ccc_name tree = Some ''hello_reply''
       \<and> get_ipv4 (get_path tree ''OM'' ''ipaddr'') = Some (cps_address s)
       \<and> cps_prefix s \<le> 32
       \<and> list_ex (in_subnet ip) (cps_routes s) =
           (\<exists>rs e f t. ccc_get tree ''range'' = Some rs \<and> e \<in> set (elements rs)
              \<and> get_ipv4 (ccc_get e ''from'') = Some f \<and> get_ipv4 (ccc_get e ''to'') = Some t
              \<and> f \<noteq> sentinel \<and> f \<le> ip \<and> ip \<le> t)
   | Inl e \<Rightarrow> (if ccc_name tree = Some ''disconnect'' then e = Server_Disconnect (refusal_text tree)
       else if ccc_name tree = Some ''hello_reply'' then
         e = Protocol ''missing OM.ipaddr'' \<and> get_ipv4 (get_path tree ''OM'' ''ipaddr'') = None
       else e = Protocol ''unexpected hello reply object'')"
proof -
  have routes: "list_ex (in_subnet ip) (range_routes e) \<longleftrightarrow>
      (\<exists>f t. get_ipv4 (ccc_get e ''from'') = Some f \<and> get_ipv4 (ccc_get e ''to'') = Some t
         \<and> f \<noteq> sentinel \<and> f \<le> ip \<and> ip \<le> t)" for e
    by (auto simp: range_routes_def range_to_subnets_iff split: option.splits)
  have "list_ex (in_subnet ip) (reply_routes tree) \<longleftrightarrow>
      (\<exists>rs. ccc_get tree ''range'' = Some rs \<and> (\<exists>e \<in> set (elements rs). list_ex (in_subnet ip) (range_routes e)))"
    by (cases "ccc_get tree ''range''") (auto simp: reply_routes_def list_ex_iff)
  moreover have "unwrap_or 32 (map_option (\<lambda>m. count_ones (ipv4_bits m)) x) \<le> 32" for x
    using count_ones_le by (cases x) auto
  ultimately show ?thesis
    by (cases "get_ipv4 (get_path tree ''OM'' ''ipaddr'')")
       (auto simp: parse_hello_reply_def routes)
qed

end
