(* ===== verification/Cp_Exchange.thy ===== *)
theory Cp_Exchange
  imports Subnets
begin

text \<open>
  The exchange of \<open>client_hello\<close> and \<open>hello_reply\<close>: what the gateway reads out of
  the message the client builds, what the client makes of the reply, and what
  its log shows.
\<close>

section \<open>The client hello\<close>

lemma token_ok_digits: "token_ok (show_nat n)"
proof -
  have "\<not> delimiter c \<and> c \<noteq> quote" if "c \<in> set (show_nat n)" for c
    using set_show_nat[of n] that by (auto simp: delimiter_def ccc_ws_def quote_def)
  then show ?thesis by (cases "show_nat n") (auto simp: token_ok_def bare_token_def list_all_iff)
qed

lemma name_ok_digits: "name_ok (show_nat n)"
proof -
  have "hd (show_nat n) \<noteq> CHR '':''"
  proof
    assume "hd (show_nat n) = CHR '':''"
    then have "CHR '':'' \<in> set (show_nat n)" using hd_in_set[OF show_nat_not_Nil[of n]] by simp
    then show False using set_show_nat[of n] by auto
  qed
  then show ?thesis by (simp add: name_ok_def token_ok_digits)
qed

lemmas token_eval = name_ok_def token_ok_def bare_token_def delimiter_def ccc_ws_def quote_def

lemma client_hello_ok:
  assumes "name_ok c" "name_ok om" "name_ok (ho_client_type opts)"
  shows "document_ok (client_hello_tree c om opts)"
  using assms name_ok_digits
  by (cases "ho_protocol_minor_version opts")
     (simp_all add: client_hello_tree_def Let_def document_ok_def MAX_DEPTH_def, simp_all add: token_eval)

text \<open>
  The gateway can read the hello: for values that are tokens of the grammar,
  the wire text parses, the parse is a \<open>client_hello\<close>, and its fields carry the
  cookie and the requested address in plain text and the version.
\<close>

theorem client_hello_readable:
  assumes "name_ok c" "name_ok om" "name_ok (ho_client_type opts)"
    "length (build_client_hello c om opts) \<le> MAX_INPUT_LEN"
  shows "\<exists>tree. ccc_parse (build_client_hello c om opts) = Inr tree
    \<and> ccc_name tree = Some ''client_hello''
    \<and> ccc_get tree ''cookie'' = Some (Atom c)
    \<and> get_path tree ''OM'' ''ipaddr'' = Some (Atom om)
    \<and> ccc_get tree ''protocol_version'' = Some (Atom (show_nat (ho_protocol_version opts)))"
proof -
  have "ccc_parse (build_client_hello c om opts) = Inr (client_hello_tree c om opts)"
    unfolding build_client_hello_def
    by (rule ccc_parse_written) (use assms client_hello_ok in \<open>simp_all add: build_client_hello_def\<close>)
  then show ?thesis
    by (cases "ho_protocol_minor_version opts")
       (simp_all add: client_hello_tree_def Let_def get_path_def)
qed

theorem client_hello_readable_witness:
  "\<exists>tree. ccc_parse (build_client_hello ''abc123'' ''0.0.0.0'' hello_opts_default) = Inr tree
    \<and> ccc_name tree = Some ''client_hello''
    \<and> ccc_get tree ''cookie'' = Some (Atom ''abc123'')
    \<and> get_path tree ''OM'' ''ipaddr'' = Some (Atom ''0.0.0.0'')
    \<and> ccc_get tree ''protocol_version'' = Some (Atom (show_nat (ho_protocol_version hello_opts_default)))"
  by (rule client_hello_readable)
     (simp_all add: token_eval hello_opts_default_def build_client_hello_def to_wire_def client_hello_tree_def
        Let_def MAX_INPUT_LEN_def show_nat_def show_radix.simps)

section \<open>The log\<close>

lemma find_sub_single: "c \<notin> set s \<Longrightarrow> find_sub [c] (s @ c # t) = Some (length s)"
  by (induction s) auto

definition hello_prefix :: string where
  "hello_prefix = to_wire (Node (Some ''client_hello'')
     [(''client_version'', Atom ''2''), (''protocol_version'', Atom ''2''),
      (''OM'', Node None [(''ipaddr'', Atom ''0.0.0.0''), (''keep_address'', Atom ''false'')]),
      (''optional'', Node None [(''client_type'', Atom ''4'')])])"

lemma show_nat_2: "show_nat 2 = ''2''"
  by code_simp

lemma hello_parts:
  "build_client_hello c ''0.0.0.0'' hello_opts_default
     = (butlast hello_prefix @ [TAB]) @ '':cookie ('' @ c @ CHR '')'' # [LF] @ '')''"
  by (simp add: build_client_hello_def client_hello_tree_def hello_opts_default_def hello_prefix_def Let_def
      to_wire_def show_nat_2)

lemma redact_parts:
  assumes "find_sub '':cookie ('' (p @ '':cookie ('') = Some (length p)" "CHR '')'' \<notin> set c"
  shows "redact_cookie (p @ '':cookie ('' @ c @ CHR '')'' # q) = p @ '':cookie ('' @ ''<redacted>'' @ CHR '')'' # q"
proof -
  define pat where "pat = '':cookie (''"
  have "find_sub pat ((p @ pat) @ c @ CHR '')'' # q) = Some (length p)"
    unfolding pat_def by (rule find_sub_append[OF assms(1)])
  then show ?thesis
    using find_sub_single[OF assms(2), of q] unfolding redact_cookie_def pat_def[symmetric]
    by (simp add: Let_def)
qed

lemma redact_hello:
  assumes "CHR '')'' \<notin> set c"
  shows "redact_cookie (build_client_hello c ''0.0.0.0'' hello_opts_default)
    = (butlast hello_prefix @ [TAB]) @ '':cookie ('' @ ''<redacted>'' @ CHR '')'' # [LF] @ '')''"
  unfolding hello_parts
  by (rule redact_parts[OF _ assms]) (simp add: hello_prefix_def to_wire_def)

text \<open>
  The log does not depend on the cookie: two hellos whose cookies have no
  closing parenthesis look the same after redaction.
\<close>

theorem redacted_hello_hides_cookie:
  assumes "CHR '')'' \<notin> set c" "CHR '')'' \<notin> set c'"
  shows "redact_cookie (build_client_hello c ''0.0.0.0'' hello_opts_default)
    = redact_cookie (build_client_hello c' ''0.0.0.0'' hello_opts_default)"
  using assms by (simp add: redact_hello)

theorem redacted_hello_hides_cookie_witness:
  "redact_cookie (build_client_hello ''secret'' ''0.0.0.0'' hello_opts_default)
    = redact_cookie (build_client_hello ''other'' ''0.0.0.0'' hello_opts_default)"
  by (rule redacted_hello_hides_cookie) simp_all

section \<open>The reply\<close>

text \<open>
  What the gateway puts on the stream before the reply: data frames, which the
  client skips, then the control frame.
\<close>

definition reply_stream :: "bytes list \<Rightarrow> ccc \<Rightarrow> bytes" where
  "reply_stream ps tree = concat (map slim_encode_data ps) @ encode_control_tree tree"

text \<open>Reads that arrive in time: non-empty, each within the wait of the client.\<close>

fun timely :: "nat \<Rightarrow> (nat \<times> bytes) list \<Rightarrow> bool" where
  "timely now [] = True"
| "timely now ((a, d) # ds) = (d \<noteq> [] \<and> a \<le> now + 1000 * HELLO_REPLY_TIMEOUT_SECS \<and> timely (max now a) ds)"

lemma hello_loop_sent: "sent (snd (hello_loop buf s)) = sent s"
proof (induction buf s rule: hello_loop.induct)
  case (1 buf s)
  show ?case
    by (subst hello_loop.simps)
       (use 1 in \<open>auto split: prod.splits sum.splits option.splits slim_packet.splits read_event.splits
          dest: read_timeout_sent\<close>)
qed

lemma reply_stream_decode:
  assumes "list_all (\<lambda>p. length p \<le> MAX_SLIM_PAYLOAD) ps" "control_ok tree"
  shows "try_decode_slim (reply_stream ps tree @ extra) =
    (case ps of
       [] \<Rightarrow> (Inr (Some (Slim_Control tree)), extra)
     | p # ps' \<Rightarrow> (Inr (Some (Slim_Data p)), reply_stream ps' tree @ extra))"
  using assms slim.decode_encode slim_control.decode_encode
  by (cases ps) (simp_all add: reply_stream_def)

lemma hello_loop_reply:
  assumes "list_all (\<lambda>p. length p \<le> MAX_SLIM_PAYLOAD) ps" "control_ok tree"
    and "buf @ concat (map snd ds) = reply_stream ps tree"
    and "inbox s = map (\<lambda>(a, d). (a, Data d)) ds @ rest" "timely (clock s) ds"
    and "length (reply_stream ps tree) \<le> HELLO_REPLY_MAX_BYTES"
  shows "fst (hello_loop buf s) = parse_hello_reply tree"
  using assms
proof (induction buf s arbitrary: ps ds rule: hello_loop.induct)
  case (1 buf s)
  note whole = reply_stream_decode[OF "1.prems"(1,2)]
  have stable: "try_decode_slim (buf @ concat (map snd ds)) = try_decode_slim (reply_stream ps tree @ [])"
    using "1.prems"(3) by simp
  show ?case
  proof (cases buf rule: slim.decode_cases)
    case (error e b')
    then have "fst (try_decode_slim (reply_stream ps tree @ [])) = Inl e"
      using slim.error_stable stable by metis
    then show ?thesis using whole[of "[]"] by (auto split: list.splits)
  next
    case (frame f b')
    have eq: "try_decode_slim (reply_stream ps tree @ []) = (Inr (Some f), b' @ concat (map snd ds))"
      using slim.frame_stable[OF frame(1)] stable by simp
    show ?thesis
    proof (cases ps)
      case Nil
      then show ?thesis using eq whole[of "[]"] frame(1) by (simp add: hello_loop.simps[of buf])
    next
      case (Cons p ps')
      then have f: "f = Slim_Data p" "b' @ concat (map snd ds) = reply_stream ps' tree"
        using eq whole[of "[]"] by auto
      have len: "length (reply_stream ps' tree) \<le> HELLO_REPLY_MAX_BYTES"
        using "1.prems"(6) Cons by (simp add: reply_stream_def)
      have "fst (hello_loop b' s) = parse_hello_reply tree"
        by (rule "1.IH"(2)[OF frame(1)[symmetric] refl refl f(1) _ "1.prems"(2) f(2) "1.prems"(4,5) len])
           (use "1.prems"(1) Cons in auto)
      then show ?thesis using frame(1) f(1) by (simp add: hello_loop.simps[of buf])
    qed
  next
    case more
    have "ds \<noteq> []"
    proof
      assume "ds = []"
      then have "try_decode_slim (reply_stream ps tree @ []) = (Inr None, buf)" using more stable by simp
      then show False using whole[of "[]"] by (auto split: list.splits)
    qed
    then obtain a d ds' where ds: "ds = (a, d) # ds'" by (cases ds) auto
    let ?s = "s\<lparr>clock := max (clock s) a, inbox := map (\<lambda>(a, d). (a, Data d)) ds' @ rest\<rparr>"
    have rd: "read_timeout (1000 * HELLO_REPLY_TIMEOUT_SECS) s = (Some (Data d), ?s)" "d \<noteq> []"
      "timely (clock ?s) ds'"
      using "1.prems"(4,5) ds by (auto simp: read_timeout_def)
    have len: "\<not> HELLO_REPLY_MAX_BYTES < length buf"
      using "1.prems"(3,6) by (metis le_trans length_append le_add1 not_less)
    have "fst (hello_loop (buf @ d) ?s) = parse_hello_reply tree"
      by (rule "1.IH"(1)[OF more[symmetric] refl refl len rd(1)[symmetric] refl refl rd(2) "1.prems"(1,2) _ _ rd(3) "1.prems"(6)])
         (use "1.prems"(3) ds in auto)
    then show ?thesis using more len rd(1,2) by (simp add: hello_loop.simps[of buf])
  qed
qed


definition example_reply :: ccc where
  "example_reply = Node (Some ''hello_reply'') [(''OM'', Node None [(''ipaddr'', Atom ''10.0.0.1'')])]"

definition silent_after :: "(nat \<times> read_event) list \<Rightarrow> stream" where
  "silent_after evs = \<lparr>clock = 0, inbox = evs, write_script = [], sent = []\<rparr>"

lemma example_reply_ok: "control_ok example_reply"
  by (simp add: control_ok_def example_reply_def document_ok_def token_eval to_wire_def MAX_DEPTH_def
      MAX_SLIM_PAYLOAD_def)

lemma example_reply_length: "length (reply_stream [[1, 2]] example_reply) < 100"
  by (simp add: reply_stream_def slim_encode_data_def slim_encode_data_append_def encode_control_tree_def
      encode_control_def example_reply_def to_wire_def Let_def)


lemma hello_loop_buffered:
  assumes "list_all (\<lambda>p. length p \<le> MAX_SLIM_PAYLOAD) ps" "control_ok tree"
  shows "hello_loop (reply_stream ps tree @ extra) s = (parse_hello_reply tree, s)"
  using assms
proof (induction ps)
  case Nil
  then show ?case using reply_stream_decode[of "[]" tree extra] by (simp add: hello_loop.simps)
next
  case (Cons p ps)
  then show ?case using reply_stream_decode[of "p # ps" tree extra] by (simp add: hello_loop.simps[of "_ @ _"])
qed

text \<open>
  C21: what follows the reply in the same read is lost: whatever bytes \<open>extra\<close> the
  gateway sends right behind the reply, the exchange returns the reply and leaves
  only the later reads on the stream, so that a data frame among them never
  reaches the tunnel.
\<close>

theorem establish_session_drops_extra:
  assumes "list_all (\<lambda>p. length p \<le> MAX_SLIM_PAYLOAD) ps" "control_ok tree" "write_script s = []"
    and "inbox s = (a, Data (reply_stream ps tree @ extra)) # rest" "a \<le> clock s + 1000 * HELLO_REPLY_TIMEOUT_SECS"
  shows "fst (establish_session c opts s) = parse_hello_reply tree
    \<and> inbox (snd (establish_session c opts s)) = rest"
proof -
  have "reply_stream ps tree \<noteq> []"
    by (cases ps) (simp_all add: reply_stream_def slim_encode_data_def slim_encode_data_append_def
      encode_control_tree_def encode_control_def to_be32_def Let_def)
  then show ?thesis
    using assms(3-5) hello_loop_buffered[OF assms(1,2)]
    by (simp add: establish_session_def write_flush_def hello_loop.simps[of "[]"] try_decode_slim_short read_timeout_def
        HELLO_REPLY_MAX_BYTES_def)
qed

theorem establish_session_drops_extra_witness:
  "let r = establish_session ''key'' hello_opts_default
       (silent_after [(7, Data (reply_stream [] example_reply @ slim_encode_data [0x45])), (8, Data [])]) in
   fst r = parse_hello_reply example_reply \<and> inbox (snd r) = [(8, Data [])]"
  unfolding Let_def
  by (rule establish_session_drops_extra[where ps = "[]" and extra = "slim_encode_data [0x45]" and a = 7, OF _ example_reply_ok])
     (simp_all add: silent_after_def HELLO_REPLY_TIMEOUT_SECS_def)

end
