(* ===== verification/Cipher.thy ===== *)
theory Cipher
  imports Errors
begin

text \<open>
  The SNX password obfuscation (\<open>checkpoint/cipher.rs\<close>): a positional XOR with a
  fixed key of 77 bytes, zero and 0xFF exchanged, a reversal, and the hexadecimal
  form.  The theorem gives exactly the passwords that survive the way out and
  back.
\<close>

definition KEY_TABLE :: bytes where
  "KEY_TABLE = bytes_of_str
     (''-ODIFIED&W0ROPERTY3HEET7ITH/+4HE3HEET)$3?,$!0?!5?02/0%24)%3.5,,'' @ [CHR 0x10]
      @ ''&7?70?/'' @ [CHR 0x22] @ ''*%#43'')"

definition key_at :: "nat \<Rightarrow> byte" where
  "key_at i = KEY_TABLE ! (i mod length KEY_TABLE)"

definition translate :: "nat \<Rightarrow> byte \<Rightarrow> byte" where
  "translate i c0 =
     (let c1 = (if c0 = 0xFF then 0 else c0);
          c = c1 XOR key_at i in
      if c = 0 then 0xFF else c)"

definition translate_all :: "bytes \<Rightarrow> bytes" where
  "translate_all bs = map (\<lambda>(i, c). translate i c) (enumerate 0 bs)"

definition obfuscate :: "bytes \<Rightarrow> bytes" where
  "obfuscate bs = rev (translate_all bs)"

definition deobfuscate :: "bytes \<Rightarrow> bytes" where
  "deobfuscate bs = translate_all (rev bs)"

definition to_hex_lower :: "bytes \<Rightarrow> string" where
  "to_hex_lower bs =
     concat (map (\<lambda>b. [digit_char (unat (drop_bit 4 b)), digit_char (unat (b AND 0x0F))]) bs)"

definition hex_val :: "char \<Rightarrow> byte result" where
  "hex_val c =
     (let n = code c in
      if 48 \<le> n \<and> n \<le> 57 then Inr (as_u8 (n - 48))
      else if 97 \<le> n \<and> n \<le> 102 then Inr (as_u8 (n - 97 + 10))
      else if 65 \<le> n \<and> n \<le> 70 then Inr (as_u8 (n - 65 + 10))
      else Inl (Protocol ''invalid hex digit''))"

fun from_hex_pairs :: "string \<Rightarrow> bytes result" where
  "from_hex_pairs (h # l # s) =
     and_then (hex_val h) (\<lambda>hi. and_then (hex_val l) (\<lambda>lo.
       and_then (from_hex_pairs s) (\<lambda>bs. Inr ((push_bit 4 hi OR lo) # bs))))"
| "from_hex_pairs _ = Inr []"

definition from_hex :: "string \<Rightarrow> bytes result" where
  "from_hex s =
     (if odd (length s) then Inl (Protocol ''hex string has odd length'') else from_hex_pairs s)"

definition cipher_encode :: "string \<Rightarrow> string" where
  "cipher_encode password = to_hex_lower (obfuscate (bytes_of_str password))"

definition cipher_decode :: "string \<Rightarrow> bytes result" where
  "cipher_decode hex = and_then (from_hex hex) (\<lambda>bs. Inr (deobfuscate bs))"

section \<open>Hexadecimal\<close>

lemma hex_val_digit_char: "n < 16 \<Longrightarrow> hex_val (digit_char n) = Inr (as_u8 n)"
  by (auto simp: hex_val_def digit_char_def Let_def)

lemma nibbles: "push_bit 4 (drop_bit 4 b) OR b AND 0x0F = (b :: byte)"
proof -
  have m: "(0x0F :: byte) = mask 4" by (simp add: mask_eq_exp_minus_1)
  show ?thesis
    unfolding m by (rule bit_word_eqI) (auto simp: bit_simps)
qed

lemma nibble_bounds: "unat (drop_bit 4 (b :: byte)) < 16" "unat (b AND 0x0F) < 16"
proof -
  have "unat (drop_bit 4 b) = unat b div 16" by (simp only: unat_drop_bit_eq) (simp add: drop_bit_eq_div)
  then show "unat (drop_bit 4 b) < 16" using unat_byte_less[of b] by linarith
  have m: "(0x0F :: nat) = mask 4" by (simp add: mask_eq_exp_minus_1)
  have "unat (b AND 0x0F) = unat b AND 0x0F" by (simp add: unsigned_and_eq)
  also have "\<dots> = unat b mod 16" unfolding m by (simp add: take_bit_eq_mod flip: take_bit_eq_mask)
  finally have "unat (b AND 0x0F) = unat b mod 16" .
  then show "unat (b AND 0x0F) < 16" by simp
qed

lemma from_to_hex: "from_hex (to_hex_lower bs) = Inr bs"
proof -
  have "from_hex_pairs (to_hex_lower bs) = Inr bs"
    by (induction bs) (simp_all add: to_hex_lower_def hex_val_digit_char nibble_bounds nibbles)
  moreover have "even (length (to_hex_lower bs))"
    by (induction bs) (simp_all add: to_hex_lower_def)
  ultimately show ?thesis by (simp add: from_hex_def)
qed

section \<open>The cipher\<close>

lemma key_ascii: "k \<in> set KEY_TABLE \<Longrightarrow> k \<noteq> 0 \<and> k \<noteq> 0xFF"
proof -
  have "list_all (\<lambda>k. k \<noteq> 0 \<and> k \<noteq> 0xFF) KEY_TABLE"
    by (simp add: KEY_TABLE_def byte_of_char_def)
  then show "k \<in> set KEY_TABLE \<Longrightarrow> k \<noteq> 0 \<and> k \<noteq> 0xFF" by (auto simp: list_all_iff)
qed

lemma KEY_TABLE_length: "length KEY_TABLE = 77"
  by (simp add: KEY_TABLE_def)

lemma key_at_ok: "key_at i \<noteq> 0" "key_at i \<noteq> 0xFF"
proof -
  have "key_at i \<in> set KEY_TABLE" by (simp add: key_at_def KEY_TABLE_length)
  then show "key_at i \<noteq> 0" "key_at i \<noteq> 0xFF" using key_ascii by blast+
qed

lemma xor_eq_FF: "c XOR k = (0xFF :: byte) \<longleftrightarrow> c = NOT k"
proof -
  have ff: "(0xFF :: byte) = - 1" by simp
  have "(c XOR k) XOR k = c" by (simp add: xor.assoc)
  moreover have "(- 1) XOR k = NOT k" by simp
  ultimately show ?thesis unfolding ff by auto
qed

lemma xor_eq_0: "c XOR k = (0 :: byte) \<longleftrightarrow> c = k"
proof -
  have "(c XOR k) XOR k = c" by (simp add: xor.assoc)
  moreover have "0 XOR k = k" by simp
  ultimately show ?thesis by auto
qed

lemma not_self: "k \<noteq> NOT (k :: byte)"
proof
  assume "k = NOT k"
  then have "bit k 0 = bit (NOT k) 0" by simp
  then show False by (simp add: bit_not_iff)
qed

text \<open>A byte survives two translations exactly if it is not zero and not the complement of its key byte.\<close>

lemma translate_involutive:
  "translate i (translate i c) = c \<longleftrightarrow> c \<noteq> 0 \<and> c \<noteq> NOT (key_at i)"
proof -
  let ?k = "key_at i"
  have k: "?k \<noteq> 0" "?k \<noteq> 0xFF" by (rule key_at_ok)+
  have ff: "(0xFF :: byte) = NOT 0" by simp
  have notk: "NOT ?k \<noteq> 0" "NOT ?k \<noteq> 0xFF"
    using k unfolding ff by (metis bit.double_compl)+
  consider "c = 0" | "c = 0xFF" | "c = ?k" | "c = NOT ?k" | "c \<noteq> 0" "c \<noteq> 0xFF" "c \<noteq> ?k" "c \<noteq> NOT ?k"
    by blast
  then show ?thesis
  proof cases
    case 5
    then have "c XOR ?k \<noteq> 0" "c XOR ?k \<noteq> 0xFF"
      using xor_eq_FF[of c ?k] xor_eq_0[of c ?k] by auto
    then show ?thesis using 5 by (simp add: translate_def Let_def xor.assoc)
  qed (use k notk not_self[of ?k] in \<open>auto simp: translate_def Let_def xor_eq_FF\<close>)
qed

lemma translate_all_nth:
  "length (translate_all bs) = length bs"
  "i < length bs \<Longrightarrow> translate_all bs ! i = translate i (bs ! i)"
  by (simp_all add: translate_all_def nth_enumerate_eq)

lemma cipher_encode_decode:
  "cipher_decode (cipher_encode p) = Inr (bytes_of_str p) \<longleftrightarrow>
      list_all (\<lambda>(i, c). byte_of_char c \<noteq> 0 \<and> byte_of_char c \<noteq> NOT (key_at i)) (enumerate 0 p)"
  and cipher_decode_ok: "is_ok (cipher_decode (cipher_encode p))"
proof -
  let ?b = "bytes_of_str p"
  have d: "cipher_decode (cipher_encode p) = Inr (translate_all (translate_all ?b))"
    by (simp add: cipher_decode_def cipher_encode_def from_to_hex deobfuscate_def obfuscate_def)
  have "translate_all (translate_all ?b) = ?b \<longleftrightarrow>
      (\<forall>i < length p. ?b ! i \<noteq> 0 \<and> ?b ! i \<noteq> NOT (key_at i))"
    by (simp add: list_eq_iff_nth_eq translate_all_nth translate_involutive)
  with d show "cipher_decode (cipher_encode p) = Inr (bytes_of_str p) \<longleftrightarrow>
      list_all (\<lambda>(i, c). byte_of_char c \<noteq> 0 \<and> byte_of_char c \<noteq> NOT (key_at i)) (enumerate 0 p)"
    "is_ok (cipher_decode (cipher_encode p))"
    by (simp_all add: bytes_of_str_def list_all_length nth_enumerate_eq)
qed

text \<open>
  Which passwords the obfuscation preserves: decoding the hexadecimal text of
  an encoded password never fails, and gives back its bytes exactly if no byte is
  zero and none is the complement of the key byte at its position.  Since the key
  is ASCII, every password of non-zero ASCII characters is among them; a password
  with other characters may not be.
\<close>

theorem cipher_roundtrip:
  "is_ok (cipher_decode (cipher_encode p))
   \<and> ((cipher_decode (cipher_encode p) = Inr (bytes_of_str p)) =
      list_all (\<lambda>(i, c). byte_of_char c \<noteq> 0 \<and> byte_of_char c \<noteq> NOT (key_at i)) (enumerate 0 p))"
  using cipher_encode_decode cipher_decode_ok by simp

lemma key_at_ascii: "unat (key_at i) < 128"
proof -
  have "list_all (\<lambda>k. unat k < 128) KEY_TABLE"
    by (simp add: KEY_TABLE_def byte_of_char_def)
  moreover have "key_at i \<in> set KEY_TABLE" by (simp add: key_at_def KEY_TABLE_length)
  ultimately show ?thesis by (simp add: list_all_iff)
qed

lemma ascii_bit7: "unat (w :: byte) < 128 \<Longrightarrow> \<not> bit w 7"
proof
  assume w: "unat w < 128" and "bit w 7"
  then have "bit (unat w) 7" by (simp add: bit_unsigned_iff)
  then have "odd (unat w div 2 ^ 7)" by (simp only: bit_iff_odd) simp
  with w show False by simp
qed

text \<open>Every password of ASCII characters other than NUL survives.\<close>

lemma cipher_ascii:
  assumes "list_all (\<lambda>c. 0 < code c \<and> code c < 128) p"
  shows "cipher_decode (cipher_encode p) = Inr (bytes_of_str p)"
proof -
  have "byte_of_char c \<noteq> 0 \<and> byte_of_char c \<noteq> NOT (key_at i)" if "c \<in> set p" for i c
  proof -
    have c: "0 < unat (byte_of_char c)" "unat (byte_of_char c) < 128"
      using assms that by (auto simp: byte_of_char_def unsigned_of_nat take_bit_nat_eq_self list_all_iff)
    have "bit (NOT (key_at i)) 7" using ascii_bit7[OF key_at_ascii] by (simp add: bit_not_iff)
    then show ?thesis using c ascii_bit7[OF c(2)] by auto
  qed
  then show ?thesis
    using cipher_encode_decode[of p] by (auto simp: list_all_iff in_set_enumerate_eq)
qed

end
