(* ===== verification/Http.thy ===== *)
theory Http
  imports Net_Io
begin

text \<open>
  The HTTP/1.1 client of the FortiGate flow (\<open>fortigate/http.rs\<close>): responses and
  their cookies, the request builder, the chunked decoder, the reader that
  delimits a response, a request with its time limit, and the keep-alive
  session with its one retry.

  Machine arithmetic is written out where it matters: chunk sizes are \<open>usize\<close>
  values of 64 bits and their sums wrap, as in a release build; a slice out of
  range is the value \<open>Panicked\<close>.
\<close>

definition USER_AGENT :: string where "USER_AGENT = ''Mozilla/5.0''"
definition USER_AGENT_TUNNEL :: string where "USER_AGENT_TUNNEL = ''Mozilla/5.0 SV1''"
definition RESPONSE_MAX :: nat where "RESPONSE_MAX = 256 * 1024"
definition REQUEST_TIMEOUT :: nat where "REQUEST_TIMEOUT = 20000"

record http_response =
  resp_status :: nat
  resp_headers :: "(string \<times> string) list"
  resp_body :: bytes

definition header :: "http_response \<Rightarrow> string \<Rightarrow> string option" where
  "header r name =
     (let want = to_ascii_lowercase name in
      map_option snd (find (\<lambda>(k, _). k = want) (resp_headers r)))"

definition body_str :: "http_response \<Rightarrow> string" where
  "body_str r = utf8_lossy (resp_body r)"

definition is_ascii_alphanumeric :: "char \<Rightarrow> bool" where
  "is_ascii_alphanumeric c =
     ((48 \<le> code c \<and> code c \<le> 57) \<or> (65 \<le> code c \<and> code c \<le> 90) \<or> (97 \<le> code c \<and> code c \<le> 122))"

text \<open>The value a \<open>Set-Cookie\<close> header gives to the cookie, if it does.\<close>

definition cookie_value :: "string \<Rightarrow> string \<Rightarrow> string option" where
  "cookie_value name v =
     (case find_sub (name @ ''='') v of
        None \<Rightarrow> None
      | Some start \<Rightarrow>
          if 0 < start \<and> (let prev = v ! (start - 1) in
               is_ascii_alphanumeric prev \<or> prev = CHR ''_'' \<or> prev = CHR ''-'') then None
          else
            let rest = drop (start + length name + 1) v;
                val = trim (takeWhile (\<lambda>c. c \<noteq> CHR '';'' \<and> c \<noteq> CHR '','') rest) in
            if val \<noteq> [] \<and> val \<noteq> ''0'' then Some val else None)"

definition cookie :: "http_response \<Rightarrow> string \<Rightarrow> string option" where
  "cookie r name =
     fold (\<lambda>(k, v) found.
        if k \<noteq> ''set-cookie'' then found
        else case cookie_value name v of Some val \<Rightarrow> Some val | None \<Rightarrow> found)
       (resp_headers r) None"

definition build_request ::
  "string \<Rightarrow> string \<Rightarrow> string \<Rightarrow> string \<Rightarrow> string option \<Rightarrow> string option \<Rightarrow> string" where
  "build_request method path host user_agent ck body =
     method @ '' '' @ path @ '' HTTP/1.1'' @ CRLF
     @ ''Host: '' @ host @ CRLF
     @ ''User-Agent: '' @ user_agent @ CRLF
     @ ''Accept: */*'' @ CRLF
     @ (case ck of Some c \<Rightarrow> ''Cookie: '' @ c @ CRLF | None \<Rightarrow> [])
     @ (case body of
          Some b \<Rightarrow> ''Content-Type: application/x-www-form-urlencoded'' @ CRLF
            @ ''Content-Length: '' @ show_nat (length b) @ CRLF @ CRLF @ b
        | None \<Rightarrow> CRLF)"

definition header_end :: "bytes \<Rightarrow> nat option" where
  "header_end buf = map_option (\<lambda>p. p + 4) (find_sub (bytes_of_str (CRLF @ CRLF)) buf)"

definition parse_header_line :: "string \<Rightarrow> (string \<times> string) option" where
  "parse_header_line l =
     map_option (\<lambda>(k, v). (to_ascii_lowercase (trim k), trim v)) (split_once '':'' l)"

definition parse_head :: "string \<Rightarrow> (nat \<times> (string \<times> string) list) result" where
  "parse_head head =
     (case lines head of
        [] \<Rightarrow> Inl (Protocol ''empty HTTP response'')
      | status_line # rest \<Rightarrow>
          (case (case split_whitespace status_line of _ # c # _ \<Rightarrow> parse_uint 65536 c | _ \<Rightarrow> None) of
             None \<Rightarrow> Inl (Protocol (''malformed HTTP status line: '' @ debug_str status_line))
           | Some st \<Rightarrow> Inr (st, List.map_filter parse_header_line rest)))"

section \<open>Chunked bodies\<close>

text \<open>\<open>usize\<close> addition of a release build.\<close>

definition usize_add :: "nat \<Rightarrow> nat \<Rightarrow> nat" where
  "usize_add a b = (a + b) mod 2 ^ 64"

function decode_chunks :: "bytes \<Rightarrow> nat \<Rightarrow> bytes \<Rightarrow> bytes option outcome" where
  "decode_chunks buf pos out =
     (case find_sub (bytes_of_str CRLF) (drop pos buf) of
        None \<Rightarrow> Returned (Inr None)
      | Some nl \<Rightarrow>
          let line = take nl (drop pos buf);
              hex = takeWhile (\<lambda>b. b \<noteq> byte_of_char (CHR '';'')) line in
          if \<not> utf8_valid hex then Returned (Inl (Protocol ''non-UTF8 chunk size''))
          else
            let text = trim (str_of_bytes hex) in
            case parse_radix 16 (2 ^ 64) text of
              None \<Rightarrow> Returned (Inl (Protocol (''bad chunk size '' @ debug_str text)))
            | Some size' \<Rightarrow>
                let pos1 = pos + nl + 2 in
                if size' = 0 then Returned (Inr (Some out))
                else if RESPONSE_MAX < usize_add (length out) size' then
                  Returned (Inl (Protocol ''chunked body exceeded size guard''))
                else if length buf < usize_add (usize_add pos1 size') 2 then Returned (Inr None)
                else
                  let stop = usize_add pos1 size' in
                  if stop < pos1 \<or> length buf < stop then Panicked
                  else decode_chunks buf (stop + 2) (out @ take (stop - pos1) (drop pos1 buf)))"
  by auto
termination
proof (relation "measure (\<lambda>(buf, pos, out). length buf - pos)", goal_cases)
  case (2 buf pos out nl)
  have "nl + 2 \<le> length buf - pos" using find_sub_Some[OF 2(1)] by (simp add: CRLF_def)
  then have "pos + 2 \<le> length buf" by linarith
  with 2 show ?case by auto
qed simp

declare decode_chunks.simps [simp del]

definition decode_chunked :: "bytes \<Rightarrow> bytes option outcome" where
  "decode_chunked buf = decode_chunks buf 0 []"

section \<open>Reading a response\<close>

type_synonym head = "nat \<times> nat \<times> (string \<times> string) list"

text \<open>What the buffered bytes amount to once the head is known: a response, or not yet.\<close>

definition body_ready :: "bytes \<Rightarrow> head \<Rightarrow> http_response option outcome" where
  "body_ready buf hd' =
     (case hd' of (end, st, hs) \<Rightarrow>
        let rest = drop end buf;
            chunked = list_ex (\<lambda>(k, v). k = ''transfer-encoding''
              \<and> contains_sub ''chunked'' (to_ascii_lowercase v)) hs;
            clen = (case find (\<lambda>(k, _). k = ''content-length'') hs of
                      Some (_, v) \<Rightarrow> parse_uint (2 ^ 64) (trim v) | None \<Rightarrow> None) in
        if chunked then
          outcome_then (decode_chunked rest) (\<lambda>b. Returned (Inr
            (map_option (\<lambda>bd. \<lparr>resp_status = st, resp_headers = hs, resp_body = bd\<rparr>) b)))
        else case clen of
            Some n \<Rightarrow>
              if RESPONSE_MAX < n then Returned (Inl (Protocol ''Content-Length exceeds size guard''))
              else if n \<le> length rest then
                Returned (Inr (Some \<lparr>resp_status = st, resp_headers = hs, resp_body = take n rest\<rparr>))
              else Returned (Inr None)
          | None \<Rightarrow> Returned (Inr None))"

definition update_head :: "bytes \<Rightarrow> head option \<Rightarrow> head option result" where
  "update_head buf hd' =
     (case hd' of Some h \<Rightarrow> Inr (Some h)
      | None \<Rightarrow>
          (case header_end buf of None \<Rightarrow> Inr None
           | Some end \<Rightarrow>
               (case parse_head (utf8_lossy (take end buf)) of
                  Inl e \<Rightarrow> Inl e
                | Inr (st, hs) \<Rightarrow> Inr (Some (end, st, hs)))))"

text \<open>One pass of the reader over its buffer, up to the read: a result, or the head so far.\<close>

definition response_pass :: "bytes \<Rightarrow> head option \<Rightarrow> (http_response option \<times> head option) outcome" where
  "response_pass buf hd' =
     (case update_head buf hd' of
        Inl e \<Rightarrow> Returned (Inl e)
      | Inr h \<Rightarrow>
          outcome_then (case h of None \<Rightarrow> Returned (Inr None) | Some hh \<Rightarrow> body_ready buf hh)
            (\<lambda>resp. case resp of
               Some r \<Rightarrow> Returned (Inr (Some r, h))
             | None \<Rightarrow>
                 if RESPONSE_MAX < length buf then
                   Returned (Inl (Protocol ''HTTP response exceeded size guard''))
                 else Returned (Inr (None, h))))"

definition response_eof :: "bytes \<Rightarrow> head option \<Rightarrow> http_response result" where
  "response_eof buf h =
     (case h of None \<Rightarrow> Inl (Protocol ''connection closed before HTTP headers completed'')
      | Some (end, st, hs) \<Rightarrow> Inr \<lparr>resp_status = st, resp_headers = hs, resp_body = drop end buf\<rparr>)"

text \<open>
  The reader under the time limit of \<open>request_on\<close>.  The result \<open>None\<close> means that
  the limit was reached.
\<close>

function read_response_loop ::
  "nat \<Rightarrow> bytes \<Rightarrow> head option \<Rightarrow> stream \<Rightarrow> http_response option outcome \<times> stream" where
  "read_response_loop deadline buf h s =
     (case response_pass buf h of
        Panicked \<Rightarrow> (Panicked, s)
      | Hangs \<Rightarrow> (Hangs, s)
      | Returned (Inl e) \<Rightarrow> (Returned (Inl e), s)
      | Returned (Inr (Some r, _)) \<Rightarrow> (Returned (Inr (Some r)), s)
      | Returned (Inr (None, h')) \<Rightarrow>
          (case read_chunk_timeout 4096 (deadline - clock s) s of
             (None, s') \<Rightarrow> (Returned (Inr None), s')
           | (Some (Read_Fail e), s') \<Rightarrow>
               (Returned (if io_kind e = Unexpected_Eof then map_sum id Some (response_eof buf h') else Inl (Io e)), s')
           | (Some (Data d), s') \<Rightarrow>
               if d = [] then (Returned (map_sum id Some (response_eof buf h')), s')
               else read_response_loop deadline (buf @ d) h' s'))"
  by pat_completeness auto
termination
  by (relation "measure (\<lambda>(d, b, h, s). inbox_size s)")
     (auto dest!: read_chunk_timeout_size [OF _ sym, rotated])

declare read_response_loop.simps [simp del]

definition request_on ::
  "stream \<Rightarrow> string \<Rightarrow> string \<Rightarrow> string \<Rightarrow> string \<Rightarrow> string option \<Rightarrow> string option
     \<Rightarrow> http_response outcome \<times> stream" where
  "request_on s method path host user_agent ck body =
     (case write_flush (bytes_of_str (build_request method path host user_agent ck body)) s of
        (Inl e, s1) \<Rightarrow> (Returned (Inl e), s1)
      | (Inr _, s1) \<Rightarrow>
          (case read_response_loop (clock s1 + REQUEST_TIMEOUT) [] None s1 of
             (r, s2) \<Rightarrow>
               (outcome_then r (\<lambda>resp. case resp of
                  Some x \<Rightarrow> Returned (Inr x)
                | None \<Rightarrow> Returned (Inl (Tls (''timed out reading FortiGate response for '' @ method @ '' '' @ path)))), s2)))"

section \<open>Connections\<close>

text \<open>
  Establishing TLS connections: each dial takes the next entry of the script,
  which says when the dial ends and how; with the script exhausted a dial never
  ends.  The dials made are counted.
\<close>

record network =
  net_clock :: nat
  net_dials :: "(nat \<times> (vpn_error + stream)) list"
  dials_made :: nat

definition dial :: "network \<Rightarrow> stream outcome \<times> network" where
  "dial n =
     (case net_dials n of
        [] \<Rightarrow> (Hangs, n\<lparr>dials_made := dials_made n + 1\<rparr>)
      | (t, r) # rest \<Rightarrow>
          let now = max (net_clock n) t in
          (Returned (map_sum id (\<lambda>s. s\<lparr>clock := max (clock s) now\<rparr>) r),
           n\<lparr>net_clock := now, net_dials := rest, dials_made := dials_made n + 1\<rparr>))"

text \<open>\<open>request\<close>: one request over a fresh connection.\<close>

definition request ::
  "network \<Rightarrow> string \<Rightarrow> string \<Rightarrow> string \<Rightarrow> string option \<Rightarrow> string option \<Rightarrow> http_response outcome \<times> network" where
  "request n host method path ck body =
     (case dial n of
        (Returned (Inr s), n1) \<Rightarrow>
          (case request_on s method path host USER_AGENT ck body of
             (r, s') \<Rightarrow> (r, n1\<lparr>net_clock := max (net_clock n1) (clock s')\<rparr>))
      | (Returned (Inl e), n1) \<Rightarrow> (Returned (Inl e), n1)
      | (Panicked, n1) \<Rightarrow> (Panicked, n1)
      | (Hangs, n1) \<Rightarrow> (Hangs, n1))"

record http_session =
  hs_host :: string
  hs_net :: network
  hs_stream :: "stream option"

definition http_session_new :: "string \<Rightarrow> network \<Rightarrow> http_session" where
  "http_session_new h n = \<lparr>hs_host = h, hs_net = n, hs_stream = None\<rparr>"

definition connection_close :: "http_response \<Rightarrow> bool" where
  "connection_close r =
     (case header r ''connection'' of Some v \<Rightarrow> eq_ignore_ascii_case v ''close'' | None \<Rightarrow> False)"

text \<open>The stream of the session, dialling when there is none.\<close>

definition session_stream :: "http_session \<Rightarrow> stream outcome \<times> http_session" where
  "session_stream hs =
     (case hs_stream hs of
        Some s \<Rightarrow> (Returned (Inr s), hs)
      | None \<Rightarrow> (case dial (hs_net hs) of (r, n) \<Rightarrow> (r, hs\<lparr>hs_net := n\<rparr>)))"

text \<open>One attempt; the session after it keeps the stream unless the attempt failed or the server closes.\<close>

definition session_attempt ::
  "http_session \<Rightarrow> string \<Rightarrow> string \<Rightarrow> string option \<Rightarrow> string option
     \<Rightarrow> (http_response + vpn_error) outcome \<times> http_session" where
  "session_attempt hs method path ck body =
     (case session_stream hs of
        (Returned (Inr s), hs1) \<Rightarrow>
          (case request_on s method path (hs_host hs1) USER_AGENT ck body of
             (r, s') \<Rightarrow>
               let n' = (hs_net hs1)\<lparr>net_clock := max (net_clock (hs_net hs1)) (clock s')\<rparr>;
                   hs2 = hs1\<lparr>hs_net := n'\<rparr> in
               (case r of
                  Returned (Inr resp) \<Rightarrow>
                    (Returned (Inr (Inl resp)),
                     hs2\<lparr>hs_stream := (if connection_close resp then None else Some s')\<rparr>)
                | Returned (Inl e) \<Rightarrow> (Returned (Inr (Inr e)), hs2\<lparr>hs_stream := None\<rparr>)
                | Panicked \<Rightarrow> (Panicked, hs2)
                | Hangs \<Rightarrow> (Hangs, hs2)))
      | (Returned (Inl e), hs1) \<Rightarrow> (Returned (Inl e), hs1)
      | (Panicked, hs1) \<Rightarrow> (Panicked, hs1)
      | (Hangs, hs1) \<Rightarrow> (Hangs, hs1))"

fun session_attempts ::
  "nat \<Rightarrow> http_session \<Rightarrow> string \<Rightarrow> string \<Rightarrow> string option \<Rightarrow> string option
     \<Rightarrow> http_response outcome \<times> http_session" where
  "session_attempts 0 hs method path ck body = (Panicked, hs)"
| "session_attempts (Suc k) hs method path ck body =
     (case session_attempt hs method path ck body of
        (Returned (Inr (Inl resp)), hs1) \<Rightarrow> (Returned (Inr resp), hs1)
      | (Returned (Inr (Inr e)), hs1) \<Rightarrow>
          if k = 0 then (Returned (Inl e), hs1) else session_attempts k hs1 method path ck body
      | (Returned (Inl e), hs1) \<Rightarrow> (Returned (Inl e), hs1)
      | (Panicked, hs1) \<Rightarrow> (Panicked, hs1)
      | (Hangs, hs1) \<Rightarrow> (Hangs, hs1))"

definition session_request ::
  "http_session \<Rightarrow> string \<Rightarrow> string \<Rightarrow> string option \<Rightarrow> string option \<Rightarrow> http_response outcome \<times> http_session" where
  "session_request hs method path ck body = session_attempts 2 hs method path ck body"

end
