(* ===== verification/Cp_Auth.thy ===== *)
theory Cp_Auth
  imports Cp_Exchange Cipher Http
begin

text \<open>
  The CCC login and sign-out of the Check Point gateway
  (\<open>checkpoint/auth.rs\<close>): the request documents, the classification of the
  response, the HTTP exchange around them.
\<close>

definition DEFAULT_TCPT_PORT :: "16 word" where "DEFAULT_TCPT_PORT = 443"
definition CP_AUTH_RESPONSE_MAX :: nat where "CP_AUTH_RESPONSE_MAX = 256 * 1024"

record ccc_session =
  cs_session_id :: string
  cs_active_key :: string
  cs_tcpt_port :: "16 word"

definition active_key_deobfuscated :: "ccc_session \<Rightarrow> string result" where
  "active_key_deobfuscated s = and_then (cipher_decode (cs_active_key s)) (\<lambda>b. Inr (utf8_lossy b))"

section \<open>Requests\<close>

definition userpass_tree :: "string \<Rightarrow> string \<Rightarrow> nat \<Rightarrow> ccc" where
  "userpass_tree username password ident =
     (let hdr = Node None [(''id'', Atom (show_nat ident)), (''type'', Atom ''UserPass''), (''session_id'', Empty)];
          dat = Node None [(''client_type'', Atom ''TRAC''), (''username'', Atom (cipher_encode username)),
                           (''password'', Atom (cipher_encode password))] in
      Node (Some ''CCCclientRequest'') [(''RequestHeader'', hdr), (''RequestData'', dat)])"

definition build_userpass_request :: "string \<Rightarrow> string \<Rightarrow> nat \<Rightarrow> string" where
  "build_userpass_request username password ident = to_wire (userpass_tree username password ident)"

definition build_signout_request :: "string \<Rightarrow> nat \<Rightarrow> string" where
  "build_signout_request session_id ident =
     (let hdr = Node None [(''id'', Atom (show_nat ident)), (''type'', Atom ''Signout''), (''session_id'', Atom session_id)] in
      to_wire (Node (Some ''CCCclientRequest'') [(''RequestHeader'', hdr), (''RequestData'', Empty)]))"

definition http_post_clients :: "string \<Rightarrow> string \<Rightarrow> string" where
  "http_post_clients host body =
     ''POST /clients/ HTTP/1.1'' @ CRLF
     @ ''Host: '' @ host @ CRLF
     @ ''User-Agent: TRAC/E'' @ CRLF
     @ ''Content-Type: text/plain'' @ CRLF
     @ ''Content-Length: '' @ show_nat (length body) @ CRLF
     @ ''Connection: close'' @ CRLF
     @ CRLF
     @ body"

section \<open>Responses\<close>

definition get_atom :: "ccc option \<Rightarrow> string \<Rightarrow> string option" where
  "get_atom v key = opt_bind (opt_bind v (\<lambda>t. ccc_get t key)) as_atom"

definition parse_ccc_response :: "string \<Rightarrow> ccc_session result" where
  "parse_ccc_response body =
     and_then (ccc_parse body) (\<lambda>doc.
       if ccc_name doc \<noteq> Some ''CCCserverResponse'' then Inl (Protocol ''not a CCCserverResponse'')
       else
         let hdr = ccc_get doc ''ResponseHeader''; rdata = ccc_get doc ''ResponseData'' in
         and_then (ok_or (Protocol ''missing/invalid return_code'')
             (opt_bind (get_atom hdr ''return_code'') (parse_uint (2 ^ 32)))) (\<lambda>rc.
           if rc \<noteq> 600 then
             Inl (Auth_Failed (''server rejected authentication (return_code '' @ show_nat rc @ '')''))
           else
             let session_id = unwrap_or [] (case get_atom hdr ''session_id'' of
                                              Some i \<Rightarrow> Some i | None \<Rightarrow> get_atom rdata ''session_id'') in
             and_then (ok_or (Protocol ''600 response missing active_key'') (get_atom rdata ''active_key'')) (\<lambda>active_key.
               let tcpt_port = (case opt_bind (get_atom (opt_bind rdata (\<lambda>d. ccc_get d ''connectivity_info'')) ''tcpt_port'')
                                       (parse_uint 65536) of
                                  Some p \<Rightarrow> as_u16 p | None \<Rightarrow> DEFAULT_TCPT_PORT) in
               Inr \<lparr>cs_session_id = session_id, cs_active_key = active_key, cs_tcpt_port = tcpt_port\<rparr>)))"

text \<open>\<open>trim_matches\<close> of NUL and white space.\<close>

definition nul_ws_prefix :: "string \<Rightarrow> nat" where
  "nul_ws_prefix s = (case s of c # _ \<Rightarrow> if c = CHR 0x00 then 1 else ws_prefix s | [] \<Rightarrow> 0)"

definition nul_ws_suffix_rev :: "string \<Rightarrow> nat" where
  "nul_ws_suffix_rev s = (case s of c # _ \<Rightarrow> if c = CHR 0x00 then 1 else ws_suffix_rev s | [] \<Rightarrow> 0)"

definition trim_nul_ws :: "string \<Rightarrow> string" where
  "trim_nul_ws s = rev (drop_while_prefix nul_ws_suffix_rev (rev (drop_while_prefix nul_ws_prefix s)))"

definition ccc_body :: "bytes \<Rightarrow> string" where
  "ccc_body buf =
     (let raw = utf8_lossy buf;
          body = (case find_sub (CRLF @ CRLF) raw of
                    Some i \<Rightarrow> drop (i + 4) raw
                  | None \<Rightarrow> (case find_sub ''('' raw of Some i \<Rightarrow> drop i raw | None \<Rightarrow> raw)) in
      trim_nul_ws body)"

text \<open>Reading to the end of the stream; there is no timeout.\<close>

function read_http_body_loop :: "bytes \<Rightarrow> stream \<Rightarrow> string outcome \<times> stream" where
  "read_http_body_loop buf s =
     (case read_chunk 2048 s of
        None \<Rightarrow> (Hangs, s)
      | Some (Read_Fail e, s1) \<Rightarrow>
          if io_kind e = Unexpected_Eof then (Returned (Inr (ccc_body buf)), s1) else (Returned (Inl (Io e)), s1)
      | Some (Data d, s1) \<Rightarrow>
          if d = [] then (Returned (Inr (ccc_body buf)), s1)
          else
            let buf' = buf @ d in
            if CP_AUTH_RESPONSE_MAX < length buf' then (Returned (Inr (ccc_body buf')), s1)
            else read_http_body_loop buf' s1)"
  by pat_completeness auto
termination
  by (relation "measure (\<lambda>(b, s). inbox_size s)") (auto dest: read_chunk_size [rotated])

declare read_http_body_loop.simps [simp del]

definition read_http_body :: "stream \<Rightarrow> string outcome \<times> stream" where
  "read_http_body s = read_http_body_loop [] s"

section \<open>Exchanges\<close>

text \<open>One request over a connection of its own.\<close>

definition clients_exchange :: "network \<Rightarrow> string \<Rightarrow> string \<Rightarrow> string outcome \<times> network" where
  "clients_exchange n host body =
     (case dial n of
        (Returned (Inr s), n1) \<Rightarrow>
          (case write_flush (bytes_of_str (http_post_clients host body)) s of
             (Inl e, s1) \<Rightarrow> (Returned (Inl e), n1)
           | (Inr _, s1) \<Rightarrow>
               (case read_http_body s1 of
                  (r, s2) \<Rightarrow> (r, n1\<lparr>net_clock := max (net_clock n1) (clock s2)\<rparr>)))
      | (Returned (Inl e), n1) \<Rightarrow> (Returned (Inl e), n1)
      | (Panicked, n1) \<Rightarrow> (Panicked, n1)
      | (Hangs, n1) \<Rightarrow> (Hangs, n1))"

definition authenticate_checkpoint :: "network \<Rightarrow> string \<Rightarrow> string \<Rightarrow> string \<Rightarrow> ccc_session outcome \<times> network" where
  "authenticate_checkpoint n host username password =
     (case clients_exchange n host (build_userpass_request username password 1) of
        (r, n1) \<Rightarrow> (outcome_then r (\<lambda>body. Returned (parse_ccc_response body)), n1))"

definition check_signout :: "string \<Rightarrow> unit result" where
  "check_signout body =
     and_then (ccc_parse body) (\<lambda>doc.
       if ccc_name doc \<noteq> Some ''CCCserverResponse'' then Inl (Protocol ''signout: not a CCCserverResponse'')
       else Inr ())"

definition signout_checkpoint :: "network \<Rightarrow> string \<Rightarrow> string \<Rightarrow> unit outcome \<times> network" where
  "signout_checkpoint n host session_id =
     (case clients_exchange n host (build_signout_request session_id 2) of
        (r, n1) \<Rightarrow> (outcome_then r (\<lambda>body. Returned (check_signout body)), n1))"

section \<open>What the gateway reads\<close>

lemma hex_lower_token:
  assumes "bs \<noteq> []"
  shows "name_ok (to_hex_lower bs)"
proof -
  have d: "\<not> delimiter (digit_char n) \<and> digit_char n \<noteq> quote \<and> digit_char n \<noteq> CHR '':''" if "n < 16" for n
  proof -
    have "code (digit_char n) \<in> {48..57} \<union> {97..102}" using that by (auto simp: digit_char_def)
    then show ?thesis by (auto simp: delimiter_def ccc_ws_def quote_def simp del: code_char_of)
  qed
  have all: "c \<in> set (to_hex_lower bs) \<Longrightarrow> \<not> delimiter c \<and> c \<noteq> quote \<and> c \<noteq> CHR '':''" for c
    using d nibble_bounds by (auto simp: to_hex_lower_def)
  have "to_hex_lower bs \<noteq> []" using assms by (cases bs) (simp_all add: to_hex_lower_def)
  then have "hd (to_hex_lower bs) \<in> set (to_hex_lower bs)" by simp
  with all \<open>to_hex_lower bs \<noteq> []\<close> show ?thesis
    by (auto simp: name_ok_def token_ok_def bare_token_def list_all_iff)
qed

lemma cipher_encode_token: "p \<noteq> [] \<Longrightarrow> name_ok (cipher_encode p)"
  unfolding cipher_encode_def
  by (rule hex_lower_token) (simp add: obfuscate_def translate_all_def bytes_of_str_def enumerate_eq_zip)

definition ascii_text :: "string \<Rightarrow> bool" where
  "ascii_text s = (s \<noteq> [] \<and> list_all (\<lambda>c. 0 < code c \<and> code c < 128) s)"

lemma userpass_ok:
  "u \<noteq> [] \<Longrightarrow> p \<noteq> [] \<Longrightarrow> document_ok (userpass_tree u p ident)"
  using name_ok_digits[of ident] cipher_encode_token
  by (simp add: userpass_tree_def Let_def document_ok_def MAX_DEPTH_def) (simp add: token_eval)

text \<open>
  The login request carries the credentials whatever characters they contain:
  for a non-empty ASCII user name and password the document parses, and the
  values of its two fields decode to exactly the user name and the password.
\<close>

theorem userpass_request_readable:
  assumes "ascii_text u" "ascii_text p" "length (build_userpass_request u p ident) \<le> MAX_INPUT_LEN"
  shows "\<exists>doc eu ep. ccc_parse (build_userpass_request u p ident) = Inr doc
    \<and> get_atom (ccc_get doc ''RequestData'') ''username'' = Some eu \<and> cipher_decode eu = Inr (bytes_of_str u)
    \<and> get_atom (ccc_get doc ''RequestData'') ''password'' = Some ep \<and> cipher_decode ep = Inr (bytes_of_str p)"
proof -
  have "ccc_parse (build_userpass_request u p ident) = Inr (userpass_tree u p ident)"
    unfolding build_userpass_request_def
    by (rule ccc_parse_written) (use assms userpass_ok in \<open>auto simp: ascii_text_def build_userpass_request_def\<close>)
  moreover have "cipher_decode (cipher_encode u) = Inr (bytes_of_str u)"
    "cipher_decode (cipher_encode p) = Inr (bytes_of_str p)"
    using assms(1,2) by (simp_all add: ascii_text_def cipher_ascii)
  ultimately show ?thesis by (simp add: userpass_tree_def Let_def get_atom_def)
qed

theorem userpass_request_readable_witness:
  "\<exists>doc eu ep. ccc_parse (build_userpass_request ''bob'' ''p) (x'' 1) = Inr doc
    \<and> get_atom (ccc_get doc ''RequestData'') ''username'' = Some eu \<and> cipher_decode eu = Inr (bytes_of_str ''bob'')
    \<and> get_atom (ccc_get doc ''RequestData'') ''password'' = Some ep \<and> cipher_decode ep = Inr (bytes_of_str ''p) (x'')"
proof -
  have len: "length (to_hex_lower bs) = 2 * length bs" for bs
    by (induction bs) (simp_all add: to_hex_lower_def)
  have enc: "length (cipher_encode s) = 2 * length s" for s
    by (simp add: cipher_encode_def len obfuscate_def translate_all_nth)
  have one: "length (show_nat (Suc 0)) = 1" by code_simp
  show ?thesis
    by (rule userpass_request_readable)
       (simp_all add: ascii_text_def build_userpass_request_def userpass_tree_def to_wire_def Let_def enc one
          MAX_INPUT_LEN_def)
qed

text \<open>
  How a login response is classified.  A session needs return code 600 and an
  active key; a well-formed response with any other return code is a permanent
  failure; everything else, a malformed body included, is transient, so that the
  client tries again.
\<close>

theorem parse_ccc_response_classified:
  "case parse_ccc_response body of
     Inr s \<Rightarrow> (\<exists>doc. ccc_parse body = Inr doc \<and> ccc_name doc = Some ''CCCserverResponse''
       \<and> opt_bind (get_atom (ccc_get doc ''ResponseHeader'') ''return_code'') (parse_uint (2 ^ 32)) = Some 600
       \<and> get_atom (ccc_get doc ''ResponseData'') ''active_key'' = Some (cs_active_key s))
   | Inl e \<Rightarrow> is_permanent e =
       (\<exists>doc rc. ccc_parse body = Inr doc \<and> ccc_name doc = Some ''CCCserverResponse''
          \<and> opt_bind (get_atom (ccc_get doc ''ResponseHeader'') ''return_code'') (parse_uint (2 ^ 32)) = Some rc
          \<and> rc \<noteq> 600)"
proof (cases "ccc_parse body")
  case (Inl e)
  then show ?thesis using ccc_parse_error[OF Inl] by (auto simp: parse_ccc_response_def)
next
  case (Inr doc)
  note [simp] = parse_ccc_response_def Inr Let_def
  show ?thesis
  proof (cases "ccc_name doc = Some ''CCCserverResponse''")
    case False
    then show ?thesis by simp
  next
    case True
    show ?thesis
      by (cases "opt_bind (get_atom (ccc_get doc ''ResponseHeader'') ''return_code'') (parse_uint (2 ^ 32))";
          cases "get_atom (ccc_get doc ''ResponseData'') ''active_key''")
         (simp_all add: True)
  qed
qed

section \<open>The end of the response\<close>

lemma read_http_body_loop_all:
  assumes "list_all (\<lambda>d. d \<noteq> [] \<and> length d \<le> 2048) ds" "length (buf @ concat ds) \<le> CP_AUTH_RESPONSE_MAX"
    and "inbox s = map (\<lambda>d. (0, Data d)) ds @ [(0, e)]"
    and "e = Data [] \<or> (\<exists>io. e = Read_Fail io \<and> io_kind io = Unexpected_Eof)"
  shows "fst (read_http_body_loop buf s) = Returned (Inr (ccc_body (buf @ concat ds)))"
  using assms
proof (induction ds arbitrary: buf s)
  case Nil
  then show ?case
    by (auto simp: read_http_body_loop.simps[of buf] read_chunk_def cap_event_def)
next
  case (Cons d ds)
  let ?s = "s\<lparr>clock := max (clock s) 0, inbox := map (\<lambda>d. (0, Data d)) ds @ [(0, e)]\<rparr>"
  have "read_chunk 2048 s = Some (Data d, ?s)"
    using Cons.prems by (simp add: read_chunk_def cap_event_def)
  moreover have "fst (read_http_body_loop (buf @ d) ?s) = Returned (Inr (ccc_body ((buf @ d) @ concat ds)))"
    by (rule Cons.IH) (use Cons.prems in auto)
  ultimately show ?case
    using Cons.prems by (simp add: read_http_body_loop.simps[of buf])
qed

text \<open>
  The response is read to the end of the stream: however the bytes are cut
  into reads of at most 2048 bytes, and whether the server closes cleanly or
  without a close notification, the body is taken from all the bytes.
\<close>

theorem read_http_body_complete:
  assumes "list_all (\<lambda>d. d \<noteq> [] \<and> length d \<le> 2048) ds" "length (concat ds) \<le> CP_AUTH_RESPONSE_MAX"
    and "inbox s = map (\<lambda>d. (0, Data d)) ds @ [(0, e)]"
    and "e = Data [] \<or> (\<exists>io. e = Read_Fail io \<and> io_kind io = Unexpected_Eof)"
  shows "fst (read_http_body s) = Returned (Inr (ccc_body (concat ds)))"
  using read_http_body_loop_all[OF assms(1) _ assms(3,4), of "[]"] assms(2) by (simp add: read_http_body_def)

theorem read_http_body_complete_witness:
  "fst (read_http_body (silent_after [(0, Data [0x28]), (0, Data [0x29]), (0, Data [])]))
     = Returned (Inr (ccc_body [0x28, 0x29]))"
  using read_http_body_complete[of "[[0x28], [0x29]]" "silent_after [(0, Data [0x28]), (0, Data [0x29]), (0, Data [])]" "Data []"]
  by (simp add: silent_after_def CP_AUTH_RESPONSE_MAX_def)

end
