(* ===== verification/Anyconnect_Auth.thy ===== *)
theory Anyconnect_Auth
  imports Cstp
begin

text \<open>
  AnyConnect authentication (\<open>auth.rs\<close>): the escaping of credentials into the XML
  form, the two POST requests, the parser of the response with its order of
  checks, the bounded reader and the two-step exchange.
\<close>

definition AC_USER_AGENT :: string where "AC_USER_AGENT = ''AnyConnect Windows 4.10.05085''"

definition attr_str :: "string \<Rightarrow> string \<Rightarrow> string" where
  "attr_str k v = '' '' @ k @ ''='' @ DQ @ v @ DQ"

definition xml_prolog :: string where
  "xml_prolog = ''<?xml'' @ attr_str ''version'' ''1.0'' @ attr_str ''encoding'' ''UTF-8'' @ ''?>'' @ [LF]"

definition config_auth_open :: "string \<Rightarrow> string" where
  "config_auth_open ty =
     ''<config-auth'' @ attr_str ''client'' ''vpn'' @ attr_str ''type'' ty
       @ attr_str ''aggregate-auth-version'' ''2'' @ ''>'' @ [LF]
     @ ''<version'' @ attr_str ''who'' ''vpn'' @ ''>4.10.05085</version>'' @ [LF]
     @ ''<device-id>win</device-id>'' @ [LF]"

definition INIT_BODY :: string where
  "INIT_BODY = xml_prolog @ config_auth_open ''init'' @ ''</config-auth>''"

text \<open>\<open>str::replace\<close> of one character.\<close>

definition replace_char :: "char \<Rightarrow> string \<Rightarrow> string \<Rightarrow> string" where
  "replace_char c rep s = concat (map (\<lambda>x. if x = c then rep else [x]) s)"

definition xml_escape :: "string \<Rightarrow> string" where
  "xml_escape s =
     replace_char (CHR 0x27) ''&apos;'' (replace_char (CHR 0x22) ''&quot;''
       (replace_char (CHR ''>'') ''&gt;'' (replace_char (CHR ''<'') ''&lt;''
         (replace_char (CHR ''&'') ''&amp;'' s))))"

definition ac_http_post :: "string \<Rightarrow> string \<Rightarrow> string" where
  "ac_http_post host body =
     ''POST / HTTP/1.1'' @ CRLF
     @ ''Host: '' @ host @ CRLF
     @ ''User-Agent: '' @ AC_USER_AGENT @ CRLF
     @ ''X-Aggregate-Auth: 1'' @ CRLF
     @ ''Content-Type: application/x-www-form-urlencoded'' @ CRLF
     @ ''Content-Length: '' @ show_nat (length body) @ CRLF
     @ ''Connection: keep-alive'' @ CRLF
     @ CRLF @ body"

definition build_init_request :: "string \<Rightarrow> string" where
  "build_init_request host = ac_http_post host INIT_BODY"

definition auth_reply_body :: "string \<Rightarrow> string \<Rightarrow> string" where
  "auth_reply_body username password =
     xml_prolog @ config_auth_open ''auth-reply''
     @ ''<auth>'' @ [LF]
     @ ''<username>'' @ xml_escape username @ ''</username>'' @ [LF]
     @ ''<password>'' @ xml_escape password @ ''</password>'' @ [LF]
     @ ''</auth>'' @ [LF]
     @ ''</config-auth>''"

definition build_auth_reply_request :: "string \<Rightarrow> string \<Rightarrow> string \<Rightarrow> string" where
  "build_auth_reply_request host username password =
     ac_http_post host (auth_reply_body username password)"

definition AUTH_RESPONSE_MAX :: nat where "AUTH_RESPONSE_MAX = 64 * 1024"

definition find_header_end :: "bytes \<Rightarrow> nat option" where
  "find_header_end buf = map_option (\<lambda>p. p + 4) (find_sub (bytes_of_str (CRLF @ CRLF)) buf)"

text \<open>The cookie a line of the response carries, if it does.\<close>

definition webvpn_cookie :: "string \<Rightarrow> string option" where
  "webvpn_cookie line =
     (case split_once '':'' line of
        None \<Rightarrow> None
      | Some (name, value) \<Rightarrow>
          if \<not> eq_ignore_ascii_case (trim name) ''set-cookie'' then None
          else case find_sub ''webvpn='' value of
            None \<Rightarrow> None
          | Some start \<Rightarrow>
              let rest = drop (start + 7) value;
                  c = trim (takeWhile (\<lambda>x. x \<noteq> CHR '';'' \<and> x \<noteq> CR \<and> x \<noteq> LF) rest) in
              if c \<noteq> [] then Some c else None)"

definition failure_marker :: string where
  "failure_marker = ''<auth id='' @ DQ @ ''failure'' @ DQ"

definition parse_auth_response :: "string \<Rightarrow> string result" where
  "parse_auth_response raw =
     (let ls = lines raw;
          status = (case ls of [] \<Rightarrow> [] | l # _ \<Rightarrow> l);
          cd = (case split_whitespace status of _ # c # _ \<Rightarrow> Some c | _ \<Rightarrow> None) in
      if (case cd of Some c \<Rightarrow> prefix ''4'' c | None \<Rightarrow> False) then
        Inl (Auth_Failed (''server rejected credentials (HTTP '' @ the cd @ '')''))
      else if contains_sub failure_marker raw then
        Inl (Auth_Failed ''authentication rejected by server'')
      else case List.map_filter webvpn_cookie ls of
        c # _ \<Rightarrow> Inr c
      | [] \<Rightarrow> Inl (Auth_Failed ''no webvpn session cookie in auth response''))"

function read_http_response :: "bytes \<Rightarrow> stream \<Rightarrow> string outcome \<times> stream" where
  "read_http_response buf s =
     (case read_chunk 2048 s of
        None \<Rightarrow> (Hangs, s)
      | Some (Read_Fail e, s1) \<Rightarrow> (Returned (Inl (Io e)), s1)
      | Some (Data d, s1) \<Rightarrow>
          if d = [] then (Returned (Inr (utf8_lossy buf)), s1)
          else
            let buf' = buf @ d in
            if find_header_end buf' \<noteq> None \<or> AUTH_RESPONSE_MAX < length buf' then
              (Returned (Inr (utf8_lossy buf')), s1)
            else read_http_response buf' s1)"
  by pat_completeness auto
termination
  by (relation "measure (\<lambda>(b, s). inbox_size s)") (auto dest: read_chunk_size [rotated])

declare read_http_response.simps [simp del]

text \<open>One POST and the response to it.\<close>

definition ac_exchange :: "stream \<Rightarrow> string \<Rightarrow> string outcome \<times> stream" where
  "ac_exchange s req =
     (case write_flush (bytes_of_str req) s of
        (Inl e, s1) \<Rightarrow> (Returned (Inl e), s1)
      | (Inr _, s1) \<Rightarrow> read_http_response [] s1)"

definition authenticate :: "stream \<Rightarrow> string \<Rightarrow> string \<Rightarrow> string \<Rightarrow> string outcome \<times> stream" where
  "authenticate s host username password =
     (case ac_exchange s (build_init_request host) of
        (Returned (Inr _), s1) \<Rightarrow>
          (case ac_exchange s1 (build_auth_reply_request host username password) of
             (r, s2) \<Rightarrow> (outcome_then r (\<lambda>raw. Returned (parse_auth_response raw)), s2))
      | (Returned (Inl e), s1) \<Rightarrow> (Returned (Inl e), s1)
      | (Panicked, s1) \<Rightarrow> (Panicked, s1)
      | (Hangs, s1) \<Rightarrow> (Hangs, s1))"

section \<open>Escaping\<close>

text \<open>The five replacements one after the other are one substitution of each character.\<close>

definition escape_char :: "char \<Rightarrow> string" where
  "escape_char c =
     (if c = CHR ''&'' then ''&amp;''
      else if c = CHR ''<'' then ''&lt;''
      else if c = CHR ''>'' then ''&gt;''
      else if c = CHR 0x22 then ''&quot;''
      else if c = CHR 0x27 then ''&apos;''
      else [c])"

lemma replace_char_simps [simp]:
  "replace_char c rep [] = []"
  "replace_char c rep (x # s) = (if x = c then rep else [x]) @ replace_char c rep s"
  "replace_char c rep (s @ t) = replace_char c rep s @ replace_char c rep t"
  by (simp_all add: replace_char_def)

lemma xml_escape_chars: "xml_escape s = concat (map escape_char s)"
  unfolding xml_escape_def by (induction s) (simp_all add: escape_char_def)

text \<open>Reading the five entities back.\<close>

fun xml_unescape :: "string \<Rightarrow> string" where
  "xml_unescape [] = []"
| "xml_unescape (c # s) =
     (if prefix ''&amp;'' (c # s) then CHR ''&'' # xml_unescape (drop 4 s)
      else if prefix ''&lt;'' (c # s) then CHR ''<'' # xml_unescape (drop 3 s)
      else if prefix ''&gt;'' (c # s) then CHR ''>'' # xml_unescape (drop 3 s)
      else if prefix ''&quot;'' (c # s) then CHR 0x22 # xml_unescape (drop 5 s)
      else if prefix ''&apos;'' (c # s) then CHR 0x27 # xml_unescape (drop 5 s)
      else c # xml_unescape s)"

lemma xml_unescape_escape: "xml_unescape (xml_escape s) = s"
  unfolding xml_escape_chars by (induction s) (auto simp: escape_char_def)

text \<open>
  Credentials cannot alter the authentication document: the escaped text
  contains no angle bracket and no quote, and an XML reader gets back exactly
  what was entered, because the ampersand is replaced first.
\<close>

theorem xml_escape_safe:
  "set (xml_escape s) \<inter> {CHR ''<'', CHR ''>'', CHR 0x22, CHR 0x27} = {}
   \<and> xml_unescape (xml_escape s) = s"
proof -
  have "set (escape_char c) \<inter> {CHR ''<'', CHR ''>'', CHR 0x22, CHR 0x27} = {}" for c
    by (auto simp: escape_char_def)
  then show ?thesis using xml_unescape_escape by (auto simp: xml_escape_chars)
qed

section \<open>Responses\<close>

lemma webvpn_cookie_usable:
  assumes "webvpn_cookie l = Some c"
  shows "c \<noteq> [] \<and> CHR '';'' \<notin> set c \<and> CR \<notin> set c \<and> LF \<notin> set c"
proof -
  have "x \<notin> set (trim (takeWhile P w))" if "\<not> P x" for x P and w :: string
    using set_trim_subset[of "takeWhile P w"] that by (auto dest: set_takeWhileD)
  with assms show ?thesis
    by (auto simp: webvpn_cookie_def Let_def split: option.splits if_splits prod.splits)
qed

lemma map_filter_hd:
  "List.map_filter f xs = c # cs \<Longrightarrow> \<exists>x \<in> set xs. f x = Some c"
  by (induction xs) (auto simp: List.map_filter_simps split: option.splits)

text \<open>
  An AnyConnect login succeeds only on an explicit sign of success: the
  response carries no failure marker, its status code does not begin with 4, and
  one of its \<open>Set-Cookie\<close> lines gives the \<open>webvpn\<close> cookie, which is not empty and
  cannot end the header line it will be sent back in.  Every other response is a
  permanent authentication failure, so the reconnect loop does not retry it.
\<close>

theorem parse_auth_response_spec:
  "case parse_auth_response raw of
     Inl e \<Rightarrow> is_permanent e
   | Inr c \<Rightarrow> \<not> contains_sub failure_marker raw
       \<and> c \<noteq> [] \<and> CHR '';'' \<notin> set c \<and> CR \<notin> set c \<and> LF \<notin> set c
       \<and> (\<exists>l. l \<in> set (lines raw) \<and> webvpn_cookie l = Some c)
       \<and> (case lines raw of
            status # _ \<Rightarrow> (case split_whitespace status of _ # cd # _ \<Rightarrow> \<not> prefix ''4'' cd | _ \<Rightarrow> True)
          | [] \<Rightarrow> True)"
proof (cases "parse_auth_response raw")
  case (Inl e)
  then show ?thesis
    by (auto simp: parse_auth_response_def Let_def split: if_splits list.splits option.splits)
next
  case (Inr c)
  then obtain cs where m: "List.map_filter webvpn_cookie (lines raw) = c # cs"
    by (auto simp: parse_auth_response_def Let_def split: if_splits list.splits)
  then obtain l where l: "l \<in> set (lines raw)" "webvpn_cookie l = Some c" using map_filter_hd by metis
  have "\<not> contains_sub failure_marker raw"
    using Inr by (auto simp: parse_auth_response_def Let_def split: if_splits list.splits)
  moreover have "case lines raw of
            status # _ \<Rightarrow> (case split_whitespace status of _ # cd # _ \<Rightarrow> \<not> prefix ''4'' cd | _ \<Rightarrow> True)
          | [] \<Rightarrow> True"
    using Inr by (auto simp: parse_auth_response_def Let_def split: if_splits list.splits option.splits)
  ultimately show ?thesis using Inr l webvpn_cookie_usable[OF l(2)] by auto
qed

end
