(* ===== verification/Http_Correct.thy ===== *)
theory Http_Correct
  imports Http
begin

text \<open>
  Properties of the HTTP client: what a cookie can be, that a request ends within
  its time limit and with a bounded body, the round trip of the chunked coding
  and where its decoder panics, and the retry of the keep-alive session.
\<close>

section \<open>Cookies\<close>

lemma cookie_value_usable:
  assumes "cookie_value name v = Some c"
  shows "c \<noteq> [] \<and> c \<noteq> ''0'' \<and> CHR '';'' \<notin> set c \<and> CHR '','' \<notin> set c"
proof -
  have "x \<notin> set (trim (takeWhile P w))" if "\<not> P x" for x P and w :: string
    using set_trim_subset[of "takeWhile P w"] that by (auto dest: set_takeWhileD)
  with assms show ?thesis
    by (auto simp: cookie_value_def Let_def split: option.splits if_splits)
qed

lemma cookie_from_value:
  assumes "cookie r name = Some c"
  shows "\<exists>v. (''set-cookie'', v) \<in> set (resp_headers r) \<and> cookie_value name v = Some c"
proof -
  have "(\<exists>v. (''set-cookie'', v) \<in> set hs \<and> cookie_value name v = Some c) \<or> acc = Some c"
    if "fold (\<lambda>(k, v) found. if k \<noteq> ''set-cookie'' then found
        else case cookie_value name v of Some val \<Rightarrow> Some val | None \<Rightarrow> found) hs acc = Some c" for hs acc
    using that
  proof (induction hs arbitrary: acc)
    case (Cons h hs)
    then show ?case by (cases h) (fastforce split: if_splits option.splits)
  qed simp
  then show ?thesis using assms by (fastforce simp: cookie_def)
qed

text \<open>
  A cookie taken from a response is a usable credential: it comes from a
  \<open>Set-Cookie\<close> header, it is not empty and not the \<open>0\<close> with which FortiGate
  deletes a cookie, and it contains no separator that would let it add another
  cookie to the header it is sent back in.
\<close>

theorem cookie_usable:
  assumes "cookie r name = Some c"
  shows "c \<noteq> [] \<and> c \<noteq> ''0'' \<and> CHR '';'' \<notin> set c \<and> CHR '','' \<notin> set c
    \<and> (\<exists>v. (''set-cookie'', v) \<in> set (resp_headers r) \<and> contains_sub (name @ ''='') v)"
proof -
  obtain v where v: "(''set-cookie'', v) \<in> set (resp_headers r)" "cookie_value name v = Some c"
    using cookie_from_value[OF assms] by blast
  then have "contains_sub (name @ ''='') v"
    by (auto simp: cookie_value_def contains_sub_def split: option.splits)
  with v cookie_value_usable show ?thesis by blast
qed

text \<open>The reply that clears the cookie in one header and sets it in another, and the temporary cookie of like name.\<close>

definition cookie_reply :: http_response where
  "cookie_reply = \<lparr>resp_status = 200, resp_headers =
     [(''set-cookie'', ''SVPNCOOKIE=abc; path=/''), (''set-cookie'', ''SVPNCOOKIE=; path=/''),
      (''set-cookie'', ''SVPNTMPCOOKIE=xyz'')], resp_body = []\<rparr>"

lemma cookie_reply_eval: "cookie cookie_reply ''SVPNCOOKIE'' = Some ''abc''"
  by code_simp

theorem cookie_usable_witness:
  "cookie cookie_reply ''SVPNCOOKIE'' = Some ''abc'' \<and> ''abc'' \<noteq> '''' \<and> CHR '';'' \<notin> set ''abc''"
  using cookie_usable[OF cookie_reply_eval] cookie_reply_eval by blast

section \<open>The chunked coding\<close>

definition encode_chunk :: "bytes \<Rightarrow> bytes" where
  "encode_chunk c = bytes_of_str (show_radix 16 (length c) @ CRLF) @ c @ bytes_of_str CRLF"

definition encode_chunks :: "bytes list \<Rightarrow> bytes" where
  "encode_chunks cs = concat (map encode_chunk cs) @ bytes_of_str (''0'' @ CRLF)"

lemma hex_digit_props:
  assumes "c \<in> set (show_radix 16 n)"
  shows "code c < 128" "\<not> ascii_ws c" "c \<noteq> CR" "c \<noteq> LF" "c \<noteq> CHR '';''"
proof -
  obtain d where d: "d < 16" "c = digit_char d" using assms set_show_radix[of 16 n] by auto
  then have "(48 \<le> code c \<and> code c \<le> 57) \<or> (97 \<le> code c \<and> code c \<le> 102)"
    by (auto simp: digit_char_def)
  then show "code c < 128" "\<not> ascii_ws c" "c \<noteq> CR" "c \<noteq> LF" "c \<noteq> CHR '';''"
    by (auto simp: ascii_ws_def)
qed

lemma find_sub_CRLF:
  "CR \<notin> set s \<Longrightarrow> find_sub (bytes_of_str CRLF) (bytes_of_str s @ bytes_of_str CRLF @ rest) = Some (length s)"
proof (induction s)
  case (Cons c s)
  then have "byte_of_char c \<noteq> byte_of_char CR" by (metis char_of_byte_of_char list.set_intros(1))
  with Cons show ?case by (simp add: CRLF_def)
qed (simp add: CRLF_def)

lemma trim_hex: "trim (show_radix 16 n) = show_radix 16 n"
proof -
  have "hd (show_radix 16 n) \<in> set (show_radix 16 n)" "last (show_radix 16 n) \<in> set (show_radix 16 n)" by simp_all
  then show ?thesis using hex_digit_props(1,2) by (intro trim_id) blast+
qed

lemma utf8_valid_ascii: "(\<forall>c \<in> set s. code c < 128) \<Longrightarrow> utf8_valid (bytes_of_str s)"
proof (induction s)
  case (Cons c s)
  then have "unat (byte_of_char c) < 128"
    by (simp add: byte_of_char_def unsigned_of_nat take_bit_nat_eq_self)
  with Cons show ?case by (simp add: utf8_step_def)
qed simp

lemma decode_chunks_size_line:
  assumes "drop pos buf = bytes_of_str (show_radix 16 n @ CRLF) @ rest" "n < 2 ^ 64"
  shows "decode_chunks buf pos out =
     (let pos1 = pos + length (show_radix 16 n) + 2 in
      if n = 0 then Returned (Inr (Some out))
      else if RESPONSE_MAX < usize_add (length out) n then
        Returned (Inl (Protocol ''chunked body exceeded size guard''))
      else if length buf < usize_add (usize_add pos1 n) 2 then Returned (Inr None)
      else
        let stop = usize_add pos1 n in
        if stop < pos1 \<or> length buf < stop then Panicked
        else decode_chunks buf (stop + 2) (out @ take (stop - pos1) (drop pos1 buf)))"
proof -
  let ?h = "show_radix 16 n"
  have nl: "find_sub (bytes_of_str CRLF) (drop pos buf) = Some (length ?h)"
    using find_sub_CRLF[of ?h rest] hex_digit_props(3)[of _ n] assms(1) by auto
  have "byte_of_char (CHR '';'') \<notin> set (bytes_of_str ?h)"
    using hex_digit_props(5)[of _ n] by (auto simp: bytes_of_str_def) (metis char_of_byte_of_char)
  then have line: "takeWhile (\<lambda>b. b \<noteq> byte_of_char (CHR '';'')) (take (length ?h) (drop pos buf)) = bytes_of_str ?h"
    using assms(1) by (auto simp: takeWhile_eq_all_conv)
  have "utf8_valid (bytes_of_str ?h)" using hex_digit_props(1) utf8_valid_ascii by blast
  moreover have "parse_radix 16 (2 ^ 64) ?h = Some n" using assms(2) by (intro parse_radix_show) auto
  ultimately show ?thesis
    by (subst decode_chunks.simps) (simp add: nl line trim_hex Let_def)
qed

lemma decode_chunks_step:
  assumes "drop pos buf = encode_chunk c @ tail" "c \<noteq> []"
    and "length out + length c \<le> RESPONSE_MAX" "length buf < 2 ^ 64"
  shows "decode_chunks buf pos out = decode_chunks buf (pos + length (encode_chunk c)) (out @ c)"
proof -
  let ?h = "show_radix 16 (length c)"
  define pos1 where "pos1 = pos + length ?h + 2"
  have d: "drop pos buf = bytes_of_str (?h @ CRLF) @ c @ bytes_of_str CRLF @ tail"
    using assms(1) by (simp add: encode_chunk_def)
  have "drop pos1 buf = drop (length ?h + 2) (drop pos buf)" by (simp add: pos1_def add.commute add.left_commute)
  also have "\<dots> = c @ bytes_of_str CRLF @ tail" using d by (simp add: CRLF_def)
  finally have d1: "drop pos1 buf = c @ bytes_of_str CRLF @ tail" .
  have "length buf - pos1 = length (c @ bytes_of_str CRLF @ tail)"
    using arg_cong[OF d1, of length] by (simp only: length_drop)
  then have len: "pos1 + length c + 2 \<le> length buf" by (simp add: CRLF_def)
  have c: "length c \<noteq> 0" using assms by auto
  have arith: "usize_add (length out) (length c) = length out + length c"
    "usize_add pos1 (length c) = pos1 + length c"
    "usize_add (pos1 + length c) 2 = pos1 + length c + 2"
    using assms(3,4) len by (auto simp: usize_add_def RESPONSE_MAX_def)
  have "length c < 2 ^ 64" using len assms(4) by linarith
  note line = decode_chunks_size_line[OF d this, unfolded Let_def, folded pos1_def]
  have "decode_chunks buf pos out = decode_chunks buf (pos1 + length c + 2) (out @ c)"
    using line c arith assms(3) len d1 by simp
  also have "pos1 + length c + 2 = pos + length (encode_chunk c)"
    by (simp add: pos1_def encode_chunk_def CRLF_def)
  finally show ?thesis .
qed

lemma decode_chunks_encoded:
  assumes "drop pos buf = encode_chunks cs @ rest" "\<forall>c \<in> set cs. c \<noteq> []"
    and "length out + length (concat cs) \<le> RESPONSE_MAX" "length buf < 2 ^ 64"
  shows "decode_chunks buf pos out = Returned (Inr (Some (out @ concat cs)))"
  using assms
proof (induction cs arbitrary: pos out)
  case Nil
  then have "drop pos buf = bytes_of_str (show_radix 16 0 @ CRLF) @ rest"
    by (simp add: encode_chunks_def show_radix.simps digit_char_0)
  from decode_chunks_size_line[OF this] show ?case by simp
next
  case (Cons c cs)
  have d: "drop pos buf = encode_chunk c @ encode_chunks cs @ rest"
    using Cons.prems(1) by (simp add: encode_chunks_def)
  have "drop (pos + length (encode_chunk c)) buf = drop (length (encode_chunk c)) (drop pos buf)"
    by (simp add: add.commute)
  then have d2: "drop (pos + length (encode_chunk c)) buf = encode_chunks cs @ rest" by (simp add: d)
  have "decode_chunks buf pos out = decode_chunks buf (pos + length (encode_chunk c)) (out @ c)"
    by (rule decode_chunks_step[OF d]) (use Cons.prems in auto)
  also have "\<dots> = Returned (Inr (Some ((out @ c) @ concat cs)))"
    by (rule Cons.IH) (use d2 Cons.prems in auto)
  finally show ?case by simp
qed

text \<open>
  The chunked decoder inverts the chunked coding: from any list of chunks
  that are not empty and fit the size guard together, followed by the closing
  zero chunk and by anything at all (trailers, the next response), it returns
  exactly their concatenation.
\<close>

theorem decode_chunked_encoded:
  assumes "\<forall>c \<in> set cs. c \<noteq> []" "length (concat cs) \<le> RESPONSE_MAX"
    and "length (encode_chunks cs @ rest) < 2 ^ 64"
  shows "decode_chunked (encode_chunks cs @ rest) = Returned (Inr (Some (concat cs)))"
  using decode_chunks_encoded[of 0 "encode_chunks cs @ rest" cs rest "[]"] assms
  by (simp add: decode_chunked_def)

theorem decode_chunked_encoded_witness:
  "decode_chunked (encode_chunks [[1, 2], [3]] @ [7]) = Returned (Inr (Some [1, 2, 3]))"
  using decode_chunked_encoded[of "[[1, 2], [3]]" "[7]"]
  by (simp add: RESPONSE_MAX_def encode_chunks_def encode_chunk_def show_radix.simps CRLF_def)

text \<open>
  C39: the decoder is not free of panics: after any chunk \<open>c\<close>, a size line that
  announces 2 to the 64 less the length of \<open>c\<close> wraps the size guard around to
  zero and the range check with it, and the slice of the second chunk ends
  before it starts.
\<close>

theorem decode_chunked_panics:
  assumes "c \<noteq> []" "length c \<le> RESPONSE_MAX" "extra \<noteq> []"
    and "length (encode_chunk c @ bytes_of_str (show_radix 16 (2 ^ 64 - length c) @ CRLF) @ extra) < 2 ^ 64"
  shows "decode_chunked (encode_chunk c @ bytes_of_str (show_radix 16 (2 ^ 64 - length c) @ CRLF) @ extra) = Panicked"
proof -
  let ?n = "2 ^ 64 - length c"
  let ?h = "show_radix 16 ?n"
  define buf where "buf = encode_chunk c @ bytes_of_str (?h @ CRLF) @ extra"
  define pos where "pos = length (encode_chunk c)"
  define pos1 where "pos1 = pos + length ?h + 2"
  have buf: "length buf < 2 ^ 64" using assms(4) by (simp add: buf_def)
  have k: "0 < length c" "length c < 2 ^ 64" "length c \<le> pos1"
    using assms(1,2) by (auto simp: RESPONSE_MAX_def pos1_def pos_def encode_chunk_def)
  have "0 < length extra" using assms(3) by simp
  then have lb: "pos1 < length buf" by (simp add: buf_def pos1_def pos_def CRLF_def)
  have "decode_chunked buf = decode_chunks buf pos c"
    unfolding decode_chunked_def
    using decode_chunks_step[of 0 buf c "bytes_of_str (?h @ CRLF) @ extra" "[]"] assms(1,2) buf
    by (simp add: buf_def pos_def)
  also have "\<dots> = Panicked"
  proof -
    have d: "drop pos buf = bytes_of_str (?h @ CRLF) @ extra" by (simp add: buf_def pos_def)
    have n: "?n < 2 ^ 64" "?n \<noteq> 0" using k by auto
    have a1: "usize_add (length c) ?n = 0" using k by (simp add: usize_add_def)
    have "pos1 + ?n = (pos1 - length c) + 2 ^ 64" using k by simp
    moreover have "pos1 - length c < 2 ^ 64" using lb buf by linarith
    ultimately have a2: "usize_add pos1 ?n = pos1 - length c"
      by (simp add: usize_add_def)
    have wrap: "pos1 - length c < pos1" using k by linarith
    have a3: "usize_add (pos1 - length c) 2 \<le> length buf"
    proof -
      have "pos1 - length c + 2 \<le> length buf" using lb k by linarith
      then show ?thesis by (auto simp: usize_add_def intro: order_trans [OF mod_less_eq_dividend])
    qed
    show ?thesis
      using decode_chunks_size_line[OF d n(1), unfolded Let_def, folded pos1_def, of c] n(2) a1 a2 a3 wrap
      by (simp add: not_less [symmetric])
  qed
  finally show ?thesis by (simp add: buf_def)
qed

theorem decode_chunked_panics_witness:
  "decode_chunked (encode_chunk [65] @ bytes_of_str (show_radix 16 (2 ^ 64 - 1) @ CRLF) @ [88]) = Panicked"
proof -
  have len: "length (show_radix 16 (2 ^ 64 - 1)) \<le> 16"
    by (rule length_show_radix) simp_all
  have len1: "length (show_radix 16 1) \<le> 1"
    by (rule length_show_radix) simp_all
  have "decode_chunked (encode_chunk [65] @ bytes_of_str (show_radix 16 (2 ^ 64 - length [65 :: byte]) @ CRLF) @ [88]) = Panicked"
    by (rule decode_chunked_panics)
       (use len len1 in \<open>simp_all add: RESPONSE_MAX_def encode_chunk_def CRLF_def\<close>)
  then show ?thesis by simp
qed

section \<open>Requests\<close>

lemma decode_chunks_no_hang: "decode_chunks buf pos out \<noteq> Hangs"
proof (induction buf pos out rule: decode_chunks.induct)
  case (1 buf pos out)
  show ?case
    by (subst decode_chunks.simps) (use 1 in \<open>auto simp: Let_def split: option.splits\<close>)
qed

lemma response_pass_no_hang: "response_pass buf h \<noteq> Hangs"
proof -
  have "body_ready buf x \<noteq> Hangs" for x
    using decode_chunks_no_hang
    by (cases x) (auto simp: body_ready_def Let_def decode_chunked_def split: option.splits)
  then show ?thesis
    by (auto simp: response_pass_def split: sum.splits option.splits if_splits)
qed

lemma decode_chunks_Some_cases:
  assumes "decode_chunks buf pos out = Returned (Inr (Some b))"
  obtains (last) "b = out"
  | (step) pos1 size' where "pos < pos1" "pos1 \<le> length buf" "size' < 2 ^ 64"
      "usize_add (length out) size' \<le> RESPONSE_MAX"
      "pos1 \<le> usize_add pos1 size'" "usize_add pos1 size' \<le> length buf"
      "decode_chunks buf (usize_add pos1 size' + 2)
         (out @ take (usize_add pos1 size' - pos1) (drop pos1 buf)) = Returned (Inr (Some b))"
proof -
  obtain nl where nl: "find_sub (bytes_of_str CRLF) (drop pos buf) = Some nl"
    using assms by (subst (asm) decode_chunks.simps) (auto split: option.splits)
  define hex where "hex = takeWhile (\<lambda>b. b \<noteq> byte_of_char (CHR '';'')) (take nl (drop pos buf))"
  have hex: "utf8_valid hex"
    using assms nl by (subst (asm) decode_chunks.simps) (auto simp: hex_def Let_def split: if_splits)
  obtain n where n: "parse_radix 16 (2 ^ 64) (trim (str_of_bytes hex)) = Some n"
    using assms nl hex by (subst (asm) decode_chunks.simps) (auto simp: hex_def Let_def split: option.splits)
  have "nl + 2 \<le> length buf - pos" using find_sub_Some[OF nl] by (simp add: CRLF_def)
  then have pos1: "pos < pos + nl + 2" "pos + nl + 2 \<le> length buf" by linarith+
  note eq = decode_chunks.simps[of buf pos out, unfolded nl option.case Let_def, folded hex_def,
      unfolded n option.case]
  show thesis
    using assms last step[OF pos1 parse_radix_bound[OF n]] hex
    unfolding eq by (simp split: if_splits)
qed

lemma decode_chunks_size:
  assumes "decode_chunks buf pos out = Returned (Inr (Some b))"
    and "length out \<le> RESPONSE_MAX" "length buf < 2 ^ 63"
  shows "length b \<le> RESPONSE_MAX"
  using assms(1,2)
proof (induction "length buf - pos" arbitrary: pos out rule: less_induct)
  case less
  from less.prems(1) show ?case
  proof (cases rule: decode_chunks_Some_cases)
    case last
    then show ?thesis using less by simp
  next
    case (step pos1 n)
    have s: "usize_add pos1 n = pos1 + n"
    proof (rule ccontr)
      assume "usize_add pos1 n \<noteq> pos1 + n"
      then have "2 ^ 64 \<le> pos1 + n" unfolding usize_add_def using mod_less not_le by blast
      then have "usize_add pos1 n = pos1 + n - 2 ^ 64"
        using step(2,3) assms(3) by (simp add: usize_add_def le_mod_geq)
      then show False using step(3,5) \<open>2 ^ 64 \<le> pos1 + n\<close> by linarith
    qed
    then have "n \<le> length buf" using step(6) by linarith
    then have "usize_add (length out) n = length out + n"
      using less.prems(2) assms(3) by (simp add: usize_add_def RESPONSE_MAX_def)
    then have "length (out @ take (usize_add pos1 n - pos1) (drop pos1 buf)) \<le> RESPONSE_MAX"
      using step s by simp
    moreover have "length buf - (usize_add pos1 n + 2) < length buf - pos" using step(1,2,5) by linarith
    ultimately show ?thesis using less.hyps step(7) by blast
  qed
qed

lemma response_pass_size:
  assumes "response_pass buf h = Returned (Inr (Some r, h'))" "length buf \<le> RESPONSE_MAX + 4096"
  shows "length (resp_body r) \<le> RESPONSE_MAX"
proof -
  obtain hh where "body_ready buf hh = Returned (Inr (Some r))"
    using assms(1) by (auto simp: response_pass_def split: sum.splits option.splits if_splits)
  moreover have "length (drop n buf) < 2 ^ 63" for n
    using assms(2) by (simp add: RESPONSE_MAX_def)
  ultimately show ?thesis
    by (cases hh) (auto simp: body_ready_def Let_def decode_chunked_def RESPONSE_MAX_def
        split: if_splits option.splits dest!: decode_chunks_size)
qed

lemma response_pass_more:
  "response_pass buf h = Returned (Inr (None, h')) \<Longrightarrow> length buf \<le> RESPONSE_MAX"
  by (auto simp: response_pass_def split: sum.splits option.splits if_splits)

lemma response_eof_size:
  "response_eof buf h = Inr r \<Longrightarrow> length (resp_body r) \<le> length buf"
  by (auto simp: response_eof_def split: option.splits)

lemma read_response_loop_facts:
  assumes "read_response_loop deadline buf h s = (r, s')" "clock s \<le> deadline"
    "length buf \<le> RESPONSE_MAX + 4096"
  shows "r \<noteq> Hangs \<and> clock s \<le> clock s' \<and> clock s' \<le> deadline
    \<and> (\<forall>resp. r = Returned (Inr (Some resp)) \<longrightarrow> length (resp_body resp) \<le> RESPONSE_MAX)"
  using assms
proof (induction deadline buf h s arbitrary: r s' rule: read_response_loop.induct)
  case (1 deadline buf h s)
  have eq: "read_response_loop deadline buf h s = (r, s')" by fact
  consider (stop) "response_pass buf h = Panicked"
    | (err) e where "response_pass buf h = Returned (Inl e)"
    | (ready) x h' where "response_pass buf h = Returned (Inr (Some x, h'))"
    | (more) h' where "response_pass buf h = Returned (Inr (None, h'))"
    using response_pass_no_hang[of buf h]
    by (metis old.sum.exhaust option.exhaust outcome.exhaust surj_pair)
  then show ?case
  proof cases
    case stop
    then show ?thesis using eq 1(3) by (simp add: read_response_loop.simps)
  next
    case err
    then show ?thesis using eq 1(3) by (auto simp: read_response_loop.simps)
  next
    case (ready x h')
    then show ?thesis
      using eq 1(3,4) response_pass_size[OF ready] by (auto simp: read_response_loop.simps)
  next
    case (more h')
    obtain ev s1 where rd: "read_chunk_timeout 4096 (deadline - clock s) s = (ev, s1)"
      by (cases "read_chunk_timeout 4096 (deadline - clock s) s")
    have c: "clock s \<le> clock s1" "clock s1 \<le> deadline"
      using read_chunk_timeout_clock[OF rd] 1(3) by auto
    note b = response_pass_more[OF more]
    show ?thesis
    proof (cases "\<exists>d. ev = Some (Data d) \<and> d \<noteq> []")
      case False
      then show ?thesis
        using eq more rd c b
        by (auto simp: read_response_loop.simps[of deadline buf] map_sum_def
            split: option.splits read_event.splits if_splits sum.splits dest!: response_eof_size)
    next
      case True
      then obtain d where d: "ev = Some (Data d)" "d \<noteq> []" by blast
      have "read_response_loop deadline (buf @ d) h' s1 = (r, s')"
        using eq more rd d by (simp add: read_response_loop.simps[of deadline buf])
      moreover have "length (buf @ d) \<le> RESPONSE_MAX + 4096"
        using read_chunk_timeout_cap rd d(1) b by fastforce
      ultimately show ?thesis
        using 1(1)[OF more refl refl refl rd[symmetric] d(1) refl d(2)] c by fastforce
    qed
  qed
qed

text \<open>
  C40: a request over an open connection always ends, at most 20 seconds after it
  was written, whatever the server does: it returns a response or an error (or
  panics in the chunked decoder), and the body of a response fits the size guard.
\<close>

theorem request_on_bounded:
  "case request_on s method path host ua ck body of (r, s') \<Rightarrow>
     r \<noteq> Hangs \<and> clock s \<le> clock s' \<and> clock s' \<le> clock s + 20000
     \<and> (case r of Returned (Inr resp) \<Rightarrow> length (resp_body resp) \<le> RESPONSE_MAX | _ \<Rightarrow> True)"
proof -
  obtain w s1 where w: "write_flush (bytes_of_str (build_request method path host ua ck body)) s = (w, s1)"
    by (cases "write_flush (bytes_of_str (build_request method path host ua ck body)) s")
  obtain r s2 where r: "read_response_loop (clock s1 + REQUEST_TIMEOUT) [] None s1 = (r, s2)"
    by (cases "read_response_loop (clock s1 + REQUEST_TIMEOUT) [] None s1")
  note w' = write_flush_clock[OF w] and r' = read_response_loop_facts[OF r]
  show ?thesis
  proof (cases w)
    case (Inl e)
    then show ?thesis using w w' by (simp add: request_on_def)
  next
    case (Inr u)
    then show ?thesis
      using w w' r r' by (auto simp: request_on_def REQUEST_TIMEOUT_def split: outcome.splits sum.splits option.splits)
  qed
qed

section \<open>The keep-alive session\<close>

lemma dial_made: "dial n = (r, n') \<Longrightarrow> dials_made n' = dials_made n + 1"
  by (auto simp: dial_def Let_def split: list.splits prod.splits)

lemma session_attempt_facts:
  assumes "session_attempt hs method path ck body = (r, hs')"
  shows "dials_made (hs_net hs') \<le> dials_made (hs_net hs) + (if hs_stream hs = None then 1 else 0)"
    and "r = Returned (Inr (Inr e)) \<Longrightarrow> hs_stream hs' = None"
    and "r = Returned (Inl e) \<Longrightarrow> hs_stream hs' = None"
    and "r = Returned (Inr (Inl resp)) \<Longrightarrow> hs_stream hs' = None \<longleftrightarrow> connection_close resp"
  using assms
  by (auto simp: session_attempt_def session_stream_def Let_def
      split: option.splits prod.splits outcome.splits sum.splits if_splits dest!: dial_made)

text \<open>
  A request of the keep-alive session dials at most twice, and at most once
  when it starts with an open connection; after an error no connection is kept,
  so that the next request starts on a fresh one; after a response the connection is kept
  exactly if the server did not announce that it closes it.
\<close>

theorem session_request_retry:
  "case session_request hs method path ck body of (r, hs') \<Rightarrow>
     dials_made (hs_net hs') \<le> dials_made (hs_net hs) + (if hs_stream hs = None then 2 else 1)
     \<and> (case r of
          Returned (Inl _) \<Rightarrow> hs_stream hs' = None
        | Returned (Inr resp) \<Rightarrow> (hs_stream hs' = None) = connection_close resp
        | Panicked \<Rightarrow> True
        | Hangs \<Rightarrow> True)"
proof -
  obtain r1 hs1 where a1: "session_attempt hs method path ck body = (r1, hs1)"
    by (cases "session_attempt hs method path ck body")
  obtain r2 hs2 where a2: "session_attempt hs1 method path ck body = (r2, hs2)"
    by (cases "session_attempt hs1 method path ck body")
  note f1 = session_attempt_facts[OF a1] and f2 = session_attempt_facts[OF a2]
  show ?thesis
    using a1 a2 f1 f2
    by (auto simp: session_request_def numeral_2_eq_2 split: outcome.splits sum.splits if_splits)
qed

end
