(* ===== verification/Forti_Auth.thy ===== *)
theory Forti_Auth
  imports Http_Correct
begin

text \<open>
  FortiGate login (\<open>fortigate/auth.rs\<close>): the form encoding of the credentials, the
  fields of the reply, the classification of the login response and the
  exchange with the host-check round.
\<close>

definition unreserved :: "char \<Rightarrow> bool" where
  "unreserved c = (is_ascii_alphanumeric c \<or> c = CHR ''-'' \<or> c = CHR ''_'' \<or> c = CHR ''.'' \<or> c = CHR ''~'')"

definition upper_hex_digit :: "nat \<Rightarrow> char" where
  "upper_hex_digit d = (if d < 10 then char_of (48 + d) else char_of (55 + d))"

fun url_encode :: "string \<Rightarrow> string" where
  "url_encode [] = []"
| "url_encode (c # s) =
     (if unreserved c then c # url_encode s
      else CHR ''%'' # upper_hex_digit (code c div 16) # upper_hex_digit (code c mod 16) # url_encode s)"

definition build_login_body :: "string \<Rightarrow> string \<Rightarrow> string \<Rightarrow> string" where
  "build_login_body username password realm =
     ''username='' @ url_encode username @ ''&credential='' @ url_encode password
     @ ''&realm='' @ url_encode realm @ ''&ajax=1''"

definition body_field :: "string \<Rightarrow> string \<Rightarrow> string option" where
  "body_field body key =
     (let needle = key @ ''='' in
      (case List.map_filter (\<lambda>part. strip_prefix needle (trim part)) (split_on (CHR '','') (trim body)) of
         [] \<Rightarrow> None
       | v # _ \<Rightarrow> Some v))"

datatype login_outcome =
    Cookie string
  | HostCheck (redir: string) (tmp_cookie: "string option")
  | TwoFactor string

definition classify_login :: "http_response \<Rightarrow> login_outcome result" where
  "classify_login resp =
     (if 400 \<le> resp_status resp then
        Inl (Auth_Failed (''server rejected credentials (HTTP '' @ show_nat (resp_status resp) @ '')''))
      else case cookie resp ''SVPNCOOKIE'' of
        Some c \<Rightarrow> Inr (Cookie c)
      | None \<Rightarrow>
          let body = body_str resp;
              ret = (case body_field body ''ret'' of Some r \<Rightarrow> r | None \<Rightarrow> '''');
              redirect = (if ret = ''1'' then
                            (case body_field body ''redir'' of
                               Some rd \<Rightarrow> if rd \<noteq> '''' then Some rd else None
                             | None \<Rightarrow> None)
                          else None) in
          case redirect of
            Some rd \<Rightarrow> Inr (HostCheck rd (cookie resp ''SVPNTMPCOOKIE''))
          | None \<Rightarrow>
              if list_ex (\<lambda>k. body_field body k \<noteq> None) [''tokeninfo'', ''reqid'', ''polid'', ''magic''] then
                Inr (TwoFactor (case body_field body ''tokeninfo'' of Some t \<Rightarrow> t | None \<Rightarrow> ''''))
              else Inl (Auth_Failed
                (if ret = '''' then ''no SVPNCOOKIE in login response and no recognizable status field''
                 else ''gateway rejected the login (ret='' @ ret @ '')'')))"

text \<open>The exchange; \<open>conclude\<close> is what follows a classified login response.\<close>

definition follow_host_check :: "http_session \<Rightarrow> string \<Rightarrow> string option \<Rightarrow> string outcome \<times> http_session" where
  "follow_host_check hs rd tmp =
     (let hdr = map_option (\<lambda>t. ''SVPNTMPCOOKIE='' @ t) tmp in
      case session_request hs ''GET'' rd hdr None of
        (r, hs1) \<Rightarrow>
          (outcome_then r (\<lambda>resp2.
             if 400 \<le> resp_status resp2 then
               Returned (Inl (Auth_Failed (''host check failed (HTTP '' @ show_nat (resp_status resp2) @ '')'')))
             else Returned (ok_or (Auth_Failed ''host check completed but the gateway issued no SVPNCOOKIE'')
               (cookie resp2 ''SVPNCOOKIE''))), hs1))"

definition conclude_login :: "http_session \<Rightarrow> http_response \<Rightarrow> string outcome \<times> http_session" where
  "conclude_login hs resp =
     (case classify_login resp of
        Inl e \<Rightarrow> (Returned (Inl e), hs)
      | Inr (Cookie c) \<Rightarrow> (Returned (Inr c), hs)
      | Inr (HostCheck rd tmp) \<Rightarrow> follow_host_check hs rd tmp
      | Inr (TwoFactor info) \<Rightarrow>
          (Returned (Inl (Auth_Failed (''gateway requires a second factor (OTP)''
             @ (if info = '''' then '''' else '' ['' @ info @ '']'')
             @ ''; interactive OTP is not supported yet''))), hs))"

definition login_post :: "http_session \<Rightarrow> string \<Rightarrow> string \<Rightarrow> string \<Rightarrow> string outcome \<times> http_session" where
  "login_post hs username password realm =
     (case session_request hs ''POST'' ''/remote/logincheck'' None
         (Some (build_login_body username password realm)) of
        (Returned (Inr resp), hs1) \<Rightarrow> conclude_login hs1 resp
      | (Returned (Inl e), hs1) \<Rightarrow> (Returned (Inl e), hs1)
      | (Panicked, hs1) \<Rightarrow> (Panicked, hs1)
      | (Hangs, hs1) \<Rightarrow> (Hangs, hs1))"

text \<open>The portal page is fetched first, and an error there is ignored.\<close>

definition authenticate_on :: "http_session \<Rightarrow> string \<Rightarrow> string \<Rightarrow> string \<Rightarrow> string outcome \<times> http_session" where
  "authenticate_on hs username password realm =
     (case session_request hs ''GET'' ''/remote/login?lang=en'' None None of
        (Returned _, hs1) \<Rightarrow> login_post hs1 username password realm
      | (Panicked, hs1) \<Rightarrow> (Panicked, hs1)
      | (Hangs, hs1) \<Rightarrow> (Hangs, hs1))"

definition authenticate_fortigate :: "string \<Rightarrow> network \<Rightarrow> string \<Rightarrow> string \<Rightarrow> string outcome" where
  "authenticate_fortigate host n username password =
     fst (authenticate_on (http_session_new host n) username password '''')"

section \<open>Form encoding\<close>

text \<open>Percent-decoding, to state that the encoding loses nothing.\<close>

fun url_decode :: "string \<Rightarrow> string option" where
  "url_decode [] = Some []"
| "url_decode (c # s) =
     (if c = CHR ''%'' then
        (case s of
           h # l # s' \<Rightarrow>
             (case (digit_val 16 h, digit_val 16 l, url_decode s') of
                (Some a, Some b, Some t) \<Rightarrow> Some (char_of (16 * a + b) # t)
              | _ \<Rightarrow> None)
         | _ \<Rightarrow> None)
      else map_option (\<lambda>t. c # t) (url_decode s))"

lemma upper_hex_digit_code:
  "d < 16 \<Longrightarrow> code (upper_hex_digit d) = (if d < 10 then 48 + d else 55 + d)"
  by (auto simp: upper_hex_digit_def)

lemma digit_val_upper [simp]: "d < 16 \<Longrightarrow> digit_val 16 (upper_hex_digit d) = Some d"
  by (auto simp: digit_val.simps upper_hex_digit_code Let_def)

lemma unreserved_not_percent: "unreserved c \<Longrightarrow> c \<noteq> CHR ''%'' \<and> c \<noteq> CHR ''&'' \<and> c \<noteq> CHR ''=''"
  by (auto simp: unreserved_def is_ascii_alphanumeric_def)

lemma url_decode_encode: "url_decode (url_encode s) = Some s"
proof (induction s)
  case (Cons c s)
  have "code c div 16 < 16" using nat_of_char_less_256[of c] by linarith
  moreover have "code c mod 16 < 16" by simp
  moreover have "16 * (code c div 16) + code c mod 16 = code c" by simp
  ultimately show ?case using Cons unreserved_not_percent[of c] by auto
qed simp

lemma set_url_encode: "c \<in> set (url_encode s) \<Longrightarrow> unreserved c \<or> c = CHR ''%''"
proof (induction s)
  case (Cons d s)
  have hex: "unreserved (upper_hex_digit n)" if "n < 16" for n
    using upper_hex_digit_code[OF that] that by (auto simp: unreserved_def is_ascii_alphanumeric_def)
  have "code d div 16 < 16" using nat_of_char_less_256[of d] by linarith
  with Cons hex[of "code d div 16"] hex[of "code d mod 16"] show ?case by (auto split: if_splits)
qed simp

lemma ampersand_not_encoded [simp]: "CHR ''&'' \<notin> set (url_encode s)"
  using set_url_encode[of "CHR ''&''" s] unreserved_not_percent[of "CHR ''&''"] by auto

text \<open>
  Credentials cannot inject form fields: whatever the user name, password and
  realm are, the login body splits at its ampersands into exactly the four fields
  of the form, and each of them decodes to the value that was entered.
\<close>

theorem login_body_fields:
  "split_on (CHR ''&'') (build_login_body username password realm) =
     [''username='' @ url_encode username, ''credential='' @ url_encode password,
      ''realm='' @ url_encode realm, ''ajax=1'']
   \<and> url_decode (url_encode username) = Some username
   \<and> url_decode (url_encode password) = Some password
   \<and> url_decode (url_encode realm) = Some realm"
proof -
  have "build_login_body username password realm =
      (''username='' @ url_encode username) @ CHR ''&'' # (''credential='' @ url_encode password)
      @ CHR ''&'' # (''realm='' @ url_encode realm) @ CHR ''&'' # ''ajax=1''"
    by (simp add: build_login_body_def)
  moreover have "CHR ''&'' \<notin> set (''username='' @ url_encode u)" "CHR ''&'' \<notin> set (''credential='' @ url_encode u)"
    "CHR ''&'' \<notin> set (''realm='' @ url_encode u)" "CHR ''&'' \<notin> set ''ajax=1''" for u
    by simp_all
  ultimately show ?thesis
    by (simp only: split_on_append split_on_no_sep url_decode_encode simp_thms)
qed

section \<open>The login\<close>

lemma classify_login_cookie:
  "classify_login resp = Inr (Cookie c) \<longleftrightarrow> resp_status resp < 400 \<and> cookie resp ''SVPNCOOKIE'' = Some c"
  by (auto simp: classify_login_def Let_def split: option.splits if_splits)

text \<open>
  The order in which a login response is judged.  A status of 400 or more is a
  permanent failure even when a cookie comes with it; otherwise a usable
  \<open>SVPNCOOKIE\<close> decides; otherwise \<open>ret=1\<close> with a redirect asks for the host check;
  otherwise the markers of a second factor; and everything else is a permanent
  failure.
\<close>

theorem classify_login_cases:
  "let body = body_str resp; ret = body_field body ''ret''; redirect = body_field body ''redir'' in
     if 400 \<le> resp_status resp then \<exists>m. classify_login resp = Inl (Auth_Failed m)
     else if cookie resp ''SVPNCOOKIE'' \<noteq> None then
       classify_login resp = Inr (Cookie (the (cookie resp ''SVPNCOOKIE'')))
     else if ret = Some ''1'' \<and> redirect \<noteq> None \<and> redirect \<noteq> Some '''' then
       classify_login resp = Inr (HostCheck (the redirect) (cookie resp ''SVPNTMPCOOKIE''))
     else if body_field body ''tokeninfo'' = None \<and> body_field body ''reqid'' = None
          \<and> body_field body ''polid'' = None \<and> body_field body ''magic'' = None then
       \<exists>m. classify_login resp = Inl (Auth_Failed m)
     else classify_login resp =
       Inr (TwoFactor (case body_field body ''tokeninfo'' of Some t \<Rightarrow> t | None \<Rightarrow> ''''))"
proof -
  consider "400 \<le> resp_status resp" | "resp_status resp < 400" "cookie resp ''SVPNCOOKIE'' \<noteq> None"
    | "resp_status resp < 400" "cookie resp ''SVPNCOOKIE'' = None" by fastforce
  then show ?thesis
  proof cases
    case 3
    then show ?thesis
      by (cases "body_field (body_str resp) ''ret''"; cases "body_field (body_str resp) ''redir''")
         (simp_all add: classify_login_def Let_def)
  qed (auto simp: classify_login_def)
qed

lemma conclude_login_cookie:
  assumes "conclude_login hs resp = (Returned (Inr c), hs')"
  shows "\<exists>resp'. cookie resp' ''SVPNCOOKIE'' = Some c \<and> resp_status resp' < 400"
  using assms
  by (auto simp: conclude_login_def follow_host_check_def Let_def classify_login_cookie
      split: sum.splits login_outcome.splits prod.splits if_splits)

text \<open>
  A FortiGate login that succeeds, directly or after the host check, yields
  the \<open>SVPNCOOKIE\<close> of a response with a status below 400, and that cookie is not
  one of the empty or zero values with which the gateway deletes it.
\<close>

theorem authenticate_on_cookie:
  "case fst (authenticate_on hs username password realm) of
     Returned (Inr c) \<Rightarrow>
       c \<noteq> '''' \<and> c \<noteq> ''0'' \<and> (\<exists>resp. cookie resp ''SVPNCOOKIE'' = Some c \<and> resp_status resp < 400)
   | _ \<Rightarrow> True"
proof (cases "\<exists>c hs'. authenticate_on hs username password realm = (Returned (Inr c), hs')")
  case True
  then obtain c hs' where a: "authenticate_on hs username password realm = (Returned (Inr c), hs')" by blast
  then obtain hs1 hs2 resp where "conclude_login hs1 resp = (Returned (Inr c), hs2)"
    by (auto simp: authenticate_on_def login_post_def split: prod.splits outcome.splits sum.splits)
  then obtain resp' where "cookie resp' ''SVPNCOOKIE'' = Some c" "resp_status resp' < 400"
    using conclude_login_cookie by blast
  then show ?thesis using a cookie_from_value cookie_value_usable by fastforce
next
  case False
  then show ?thesis
    by (cases "authenticate_on hs username password realm") (auto split: outcome.splits sum.splits)
qed

end
