(* ===== verification/Ppp_Negotiate.thy ===== *)
theory Ppp_Negotiate
  imports Ppp Net_Io
begin

text \<open>
  PPP link negotiation over the hijacked tunnel stream (the second part of
  \<open>fortigate/ppp.rs\<close>): the optional HTTP prologue, the buffered frame reader
  with its deadline, and the LCP and IPCP loops of \<open>negotiate\<close>.

  A handler of one received frame is a pure function of the phase's state.  It
  returns what the code does next: the frame it writes, if any, and then either
  the new state or the error with which \<open>negotiate\<close> returns.  \<open>exec_step\<close> performs
  the write, and \<open>neg_loop\<close> is the loop that the two phases share: it counts
  rounds, checks the deadline, receives with a timeout and retransmits.
\<close>

section \<open>The prologue and the frame reader\<close>

text \<open>Times are in milliseconds.\<close>

definition RECV_TIMEOUT :: nat where "RECV_TIMEOUT = 5000"
definition RESTART_INTERVAL :: nat where "RESTART_INTERVAL = 3000"
definition NEGOTIATE_DEADLINE :: nat where "NEGOTIATE_DEADLINE = 30000"
definition MAX_ROUNDS :: nat where "MAX_ROUNDS = 40"

lemmas neg_consts = RECV_TIMEOUT_def RESTART_INTERVAL_def NEGOTIATE_DEADLINE_def MAX_ROUNDS_def

definition strip_http_prologue :: "bytes \<Rightarrow> bool result \<times> bytes" where
  "strip_http_prologue buf =
     (if length buf < 5 then (Inr False, buf)
      else if \<not> prefix (bytes_of_str ''HTTP/'') buf then (Inr True, buf)
      else case find_sub (bytes_of_str (CRLF @ CRLF)) buf of
        None \<Rightarrow>
          if 8 * 1024 < length buf then
            (Inl (Protocol ''FortiGate tunnel-upgrade header block exceeded size guard''), buf)
          else (Inr False, buf)
      | Some p \<Rightarrow>
          (let end = p + 4;
               head = utf8_lossy (take end buf);
               status = (case lines head of [] \<Rightarrow> [] | l # _ \<Rightarrow> l) in
           if \<not> contains_sub ''200'' status then
             (Inl (Tls (''unexpected tunnel-upgrade response: '' @ status)), buf)
           else (Inr True, drop end buf)))"

record ppp_io =
  io_stream :: stream
  io_buf :: bytes
  http_checked :: bool

text \<open>One pass of the reader's loop over what is already buffered.\<close>

definition poll_frame :: "ppp_io \<Rightarrow> (16 word \<times> bytes) option result \<times> ppp_io" where
  "poll_frame io =
     (case (if http_checked io then (Inr True, io_buf io) else strip_http_prologue (io_buf io)) of
        (Inl e, b) \<Rightarrow> (Inl e, io\<lparr>io_buf := b\<rparr>)
      | (Inr False, b) \<Rightarrow> (Inr None, io\<lparr>io_buf := b, http_checked := False\<rparr>)
      | (Inr True, b) \<Rightarrow>
          (case try_decode_ppp b of (r, b') \<Rightarrow> (r, io\<lparr>io_buf := b', http_checked := True\<rparr>)))"

definition closed_error :: vpn_error where
  "closed_error = Tls ''gateway closed the tunnel during PPP negotiation''"

lemma poll_frame_stream: "poll_frame io = (r, io') \<Longrightarrow> io_stream io' = io_stream io"
  by (auto simp: poll_frame_def split: prod.splits sum.splits bool.splits)

function recv_loop :: "nat \<Rightarrow> ppp_io \<Rightarrow> (16 word \<times> bytes) option result \<times> ppp_io" where
  "recv_loop deadline io =
     (case poll_frame io of
        (Inl e, io') \<Rightarrow> (Inl e, io')
      | (Inr (Some f), io') \<Rightarrow> (Inr (Some f), io')
      | (Inr None, io') \<Rightarrow>
          (let left = deadline - clock (io_stream io') in
           if left = 0 then (Inr None, io')
           else case read_timeout left (io_stream io') of
               (None, s) \<Rightarrow> (Inr None, io'\<lparr>io_stream := s\<rparr>)
             | (Some (Read_Fail e), s) \<Rightarrow>
                 (Inl (if io_kind e = Unexpected_Eof then closed_error else Io e), io'\<lparr>io_stream := s\<rparr>)
             | (Some (Data d), s) \<Rightarrow>
                 if d = [] then (Inl closed_error, io'\<lparr>io_stream := s\<rparr>)
                 else recv_loop deadline (io'\<lparr>io_stream := s, io_buf := io_buf io' @ d\<rparr>)))"
  by auto
termination
  by (relation "measure (\<lambda>(d, io). length (inbox (io_stream io)))")
     (auto dest!: read_timeout_less [OF sym] poll_frame_stream [OF sym])

declare recv_loop.simps [simp del]

definition recv :: "nat \<Rightarrow> ppp_io \<Rightarrow> (16 word \<times> bytes) option result \<times> ppp_io" where
  "recv timeout io = recv_loop (clock (io_stream io) + timeout) io"

section \<open>Steps\<close>

text \<open>What a handler does: an optional write, then the new state or an error.\<close>

type_synonym 's step = "bytes option \<times> 's result"

definition exec_step :: "'s step \<Rightarrow> ppp_io \<Rightarrow> 's result \<times> ppp_io" where
  "exec_step st io =
     (case st of
        (None, r) \<Rightarrow> (r, io)
      | (Some f, r) \<Rightarrow>
          (case write_flush f (io_stream io) of
             (Inl e, s) \<Rightarrow> (Inl e, io\<lparr>io_stream := s\<rparr>)
           | (Inr _, s) \<Rightarrow> (r, io\<lparr>io_stream := s\<rparr>)))"

text \<open>
  The loop of both phases: \<open>fin\<close> is the exit condition, \<open>retrans\<close> what happens
  when nothing was received, \<open>on_frame\<close> the handler of a received frame, \<open>msg\<close> the
  error when the rounds or the time run out.
\<close>

function neg_loop ::
  "('s \<Rightarrow> bool) \<Rightarrow> (nat \<Rightarrow> 's \<Rightarrow> 's step) \<Rightarrow> (nat \<Rightarrow> 16 word \<times> bytes \<Rightarrow> 's \<Rightarrow> 's step) \<Rightarrow>
   vpn_error \<Rightarrow> nat \<Rightarrow> nat \<Rightarrow> 's \<Rightarrow> ppp_io \<Rightarrow> 's result \<times> ppp_io" where
  "neg_loop fin retrans on_frame msg started rounds st io =
     (if fin st then (Inr st, io)
      else
        let rounds = rounds + 1 in
        if MAX_ROUNDS < rounds \<or> NEGOTIATE_DEADLINE < clock (io_stream io) - started then (Inl msg, io)
        else case recv RECV_TIMEOUT io of
            (Inl e, io1) \<Rightarrow> (Inl e, io1)
          | (Inr fo, io1) \<Rightarrow>
              (let t = clock (io_stream io1) in
               case exec_step (case fo of None \<Rightarrow> retrans t st | Some f \<Rightarrow> on_frame t f st) io1 of
                 (Inl e, io2) \<Rightarrow> (Inl e, io2)
               | (Inr st', io2) \<Rightarrow> neg_loop fin retrans on_frame msg started rounds st' io2))"
  by pat_completeness auto
termination
  by (relation "measure (\<lambda>(a, b, c, d, e, rounds, f, g). MAX_ROUNDS - rounds)") auto

declare neg_loop.simps [simp del]

section \<open>LCP\<close>

record lcp =
  lcp_opts :: "cp_option list"
  lcp_id :: byte
  lcp_mru :: "16 word"
  ours_acked :: bool
  theirs_acked :: bool
  lcp_last_tx :: nat
  lcp_early :: bytes

definition lcp_init :: "32 word \<Rightarrow> nat \<Rightarrow> lcp" where
  "lcp_init magic t =
     \<lparr>lcp_opts = [(LCP_OPT_MRU, to_be16 DEFAULT_MRU), (LCP_OPT_MAGIC, to_be32 magic)],
      lcp_id = 1, lcp_mru = DEFAULT_MRU, ours_acked = False, theirs_acked = False,
      lcp_last_tx = t, lcp_early = []\<rparr>"

definition conf_req :: "16 word \<Rightarrow> byte \<Rightarrow> cp_option list \<Rightarrow> bytes" where
  "conf_req proto i opts = encode_ppp proto (build_cp CODE_CONF_REQ i (build_options opts))"

text \<open>\<open>iter_mut().find(|(ot, _)| *ot == t)\<close> and assignment to the slot found.\<close>

fun assign_option :: "byte \<Rightarrow> bytes \<Rightarrow> cp_option list \<Rightarrow> cp_option list" where
  "assign_option t v [] = []"
| "assign_option t v ((ot, ov) # opts) = (if ot = t then (ot, v) # opts else (ot, ov) # assign_option t v opts)"

definition stage_early :: "bytes \<Rightarrow> bytes \<Rightarrow> bytes" where
  "stage_early dst payload = dst @ encode_ppp_append PPP_IPV4 payload []"

definition ack_mru :: "cp_option list \<Rightarrow> 16 word \<Rightarrow> 16 word" where
  "ack_mru opts mru =
     fold (\<lambda>(t, v) m. if t = LCP_OPT_MRU \<and> length v = 2 then from_be16 (v ! 0) (v ! 1) else m) opts mru"

definition reject_options :: "cp_option list \<Rightarrow> cp_option list \<Rightarrow> cp_option list" where
  "reject_options rejected opts = filter (\<lambda>(t, _). t \<notin> set (map fst rejected)) opts"

definition hex_bytes :: "bytes \<Rightarrow> string" where
  "hex_bytes v = concat (map (\<lambda>b. show_hex 2 (unat b)) v)"

definition lcp_on_packet :: "32 word \<Rightarrow> nat \<Rightarrow> cp_packet \<Rightarrow> lcp \<Rightarrow> lcp step" where
  "lcp_on_packet magic now pkt st =
     (if cp_code pkt = CODE_CONF_REQ then
        let peer_opts = parse_options (cp_data pkt) in
        case find (\<lambda>(t, _). t = LCP_OPT_AUTH) peer_opts of
          Some (_, v) \<Rightarrow>
            (None, Inl (Auth_Failed (''gateway demands PPP link authentication (LCP auth option 0x''
                @ hex_bytes v @ ''), unsupported'')))
        | None \<Rightarrow>
            let unknown = filter (\<lambda>(t, _). \<not> (t = LCP_OPT_MRU \<or> t = LCP_OPT_MAGIC)) peer_opts in
            if unknown = [] then
              (Some (encode_ppp PPP_LCP (build_cp CODE_CONF_ACK (cp_id pkt) (cp_data pkt))),
               Inr (st\<lparr>theirs_acked := True\<rparr>))
            else (Some (encode_ppp PPP_LCP (build_cp CODE_CONF_REJ (cp_id pkt) (build_options unknown))),
                  Inr st)
      else if cp_code pkt = CODE_CONF_ACK \<and> cp_id pkt = lcp_id st then
        (None, Inr (st\<lparr>lcp_mru := ack_mru (parse_options (cp_data pkt)) (lcp_mru st), ours_acked := True\<rparr>))
      else if cp_code pkt = CODE_CONF_NAK then
        let opts = fold (\<lambda>(t, v). assign_option t v) (parse_options (cp_data pkt)) (lcp_opts st);
            i = lcp_id st + 1 in
        (Some (conf_req PPP_LCP i opts), Inr (st\<lparr>lcp_opts := opts, lcp_id := i, lcp_last_tx := now\<rparr>))
      else if cp_code pkt = CODE_CONF_REJ then
        let opts = reject_options (parse_options (cp_data pkt)) (lcp_opts st);
            i = lcp_id st + 1 in
        (Some (conf_req PPP_LCP i opts), Inr (st\<lparr>lcp_opts := opts, lcp_id := i, lcp_last_tx := now\<rparr>))
      else if cp_code pkt = CODE_ECHO_REQ then (Some (echo_reply magic pkt), Inr st)
      else if cp_code pkt = CODE_TERM_REQ then
        (Some (encode_ppp PPP_LCP (build_cp CODE_TERM_ACK (cp_id pkt) [])),
         Inl (Protocol ''gateway terminated the PPP link during LCP''))
      else (None, Inr st))"

definition lcp_on_frame :: "32 word \<Rightarrow> nat \<Rightarrow> 16 word \<times> bytes \<Rightarrow> lcp \<Rightarrow> lcp step" where
  "lcp_on_frame magic now f st =
     (case f of (proto, payload) \<Rightarrow>
        if proto = PPP_IPV4 then (None, Inr (st\<lparr>lcp_early := stage_early (lcp_early st) payload\<rparr>))
        else if proto = PPP_PAP \<or> proto = PPP_CHAP then
          (None, Inl (Auth_Failed (''gateway requested PPP link authentication (PAP/CHAP), which is not supported ''
             @ [CHR 0xE2, CHR 0x80, CHR 0x94]
             @ '' FortiGate normally authenticates over HTTPS before the tunnel'')))
        else if proto = PPP_LCP then
          (case parse_cp payload of Inl e \<Rightarrow> (None, Inl e) | Inr pkt \<Rightarrow> lcp_on_packet magic now pkt st)
        else (None, Inr st))"

definition lcp_retransmit :: "nat \<Rightarrow> lcp \<Rightarrow> lcp step" where
  "lcp_retransmit now st =
     (if RESTART_INTERVAL \<le> now - lcp_last_tx st \<and> \<not> ours_acked st then
        (Some (conf_req PPP_LCP (lcp_id st) (lcp_opts st)), Inr (st\<lparr>lcp_last_tx := now\<rparr>))
      else (None, Inr st))"

definition lcp_phase :: "32 word \<Rightarrow> nat \<Rightarrow> ppp_io \<Rightarrow> lcp result \<times> ppp_io" where
  "lcp_phase magic started io =
     (let st = lcp_init magic (clock (io_stream io)) in
      case exec_step (Some (conf_req PPP_LCP (lcp_id st) (lcp_opts st)), Inr st) io of
        (Inl e, io1) \<Rightarrow> (Inl e, io1)
      | (Inr st, io1) \<Rightarrow>
          neg_loop (\<lambda>st. ours_acked st \<and> theirs_acked st) lcp_retransmit (lcp_on_frame magic)
            (Protocol ''LCP negotiation did not converge'') started 0 st io1)"

section \<open>IPCP\<close>

record ipcp =
  ipcp_opts :: "cp_option list"
  ipcp_id :: byte
  ip_ours :: bool
  ip_theirs :: bool
  ip_address :: "ipv4 option"
  ip_peer :: "ipv4 option"
  ip_dns :: "ipv4 list"
  ip_last_tx :: nat
  ip_early :: bytes

definition ipcp_init :: "nat \<Rightarrow> bytes \<Rightarrow> ipcp" where
  "ipcp_init t early =
     \<lparr>ipcp_opts = [(IPCP_OPT_ADDR, replicate 4 0), (IPCP_OPT_DNS1, replicate 4 0), (IPCP_OPT_DNS2, replicate 4 0)],
      ipcp_id = 1, ip_ours = False, ip_theirs = False, ip_address = None, ip_peer = None, ip_dns = [],
      ip_last_tx = t, ip_early = early\<rparr>"

definition harvest_option :: "cp_option \<Rightarrow> ipv4 option \<times> ipv4 list \<Rightarrow> ipv4 option \<times> ipv4 list" where
  "harvest_option tv acc =
     (case (tv, acc) of ((t, v), (address, dns)) \<Rightarrow>
        if t = IPCP_OPT_ADDR then
          (case opt_ipv4 v of Some a \<Rightarrow> if \<not> is_unspecified a then (Some a, dns) else (address, dns)
           | None \<Rightarrow> (address, dns))
        else if t = IPCP_OPT_DNS1 \<or> t = IPCP_OPT_DNS2 then
          (case opt_ipv4 v of
             Some a \<Rightarrow> if \<not> is_unspecified a \<and> a \<notin> set dns then (address, dns @ [a]) else (address, dns)
           | None \<Rightarrow> (address, dns))
        else (address, dns))"

definition harvest_ipcp :: "cp_option list \<Rightarrow> ipv4 option \<times> ipv4 list \<Rightarrow> ipv4 option \<times> ipv4 list" where
  "harvest_ipcp opts acc = fold harvest_option opts acc"

fun set_or_push_option :: "byte \<Rightarrow> bytes \<Rightarrow> cp_option list \<Rightarrow> cp_option list" where
  "set_or_push_option t v opts =
     (if t \<in> set (map fst opts) then assign_option t v opts else opts @ [(t, v)])"

definition ipcp_on_lcp_packet :: "32 word \<Rightarrow> cp_packet \<Rightarrow> ipcp \<Rightarrow> ipcp step" where
  "ipcp_on_lcp_packet magic pkt st =
     (if cp_code pkt = CODE_ECHO_REQ then (Some (echo_reply magic pkt), Inr st)
      else if cp_code pkt = CODE_CONF_REQ then
        (Some (encode_ppp PPP_LCP (build_cp CODE_CONF_ACK (cp_id pkt) (cp_data pkt))), Inr st)
      else if cp_code pkt = CODE_TERM_REQ then
        (Some (encode_ppp PPP_LCP (build_cp CODE_TERM_ACK (cp_id pkt) [])),
         Inl (Protocol ''gateway terminated the PPP link during IPCP''))
      else (None, Inr st))"

definition peer_address :: "cp_option list \<Rightarrow> ipv4 option \<Rightarrow> ipv4 option" where
  "peer_address opts peer = fold (\<lambda>(t, v) p. if t = IPCP_OPT_ADDR then opt_ipv4 v else p) opts peer"

definition ipcp_on_packet :: "nat \<Rightarrow> cp_packet \<Rightarrow> ipcp \<Rightarrow> ipcp step" where
  "ipcp_on_packet now pkt st =
     (let opts = parse_options (cp_data pkt) in
      if cp_code pkt = CODE_CONF_REQ then
        (Some (encode_ppp PPP_IPCP (build_cp CODE_CONF_ACK (cp_id pkt) (cp_data pkt))),
         Inr (st\<lparr>ip_peer := peer_address opts (ip_peer st), ip_theirs := True\<rparr>))
      else if cp_code pkt = CODE_CONF_ACK \<and> cp_id pkt = ipcp_id st then
        let (address, dns) = harvest_ipcp opts (ip_address st, ip_dns st) in
        (None, Inr (st\<lparr>ip_address := address, ip_dns := dns, ip_ours := True\<rparr>))
      else if cp_code pkt = CODE_CONF_NAK then
        let (address, dns) = harvest_ipcp opts (ip_address st, ip_dns st);
            mine = fold (\<lambda>(t, v). set_or_push_option t v) opts (ipcp_opts st);
            i = ipcp_id st + 1 in
        (Some (conf_req PPP_IPCP i mine),
         Inr (st\<lparr>ip_address := address, ip_dns := dns, ipcp_opts := mine, ipcp_id := i, ip_last_tx := now\<rparr>))
      else if cp_code pkt = CODE_CONF_REJ then
        let mine = reject_options opts (ipcp_opts st);
            i = ipcp_id st + 1 in
        (Some (conf_req PPP_IPCP i mine), Inr (st\<lparr>ipcp_opts := mine, ipcp_id := i, ip_last_tx := now\<rparr>))
      else (None, Inr st))"

definition ipcp_on_frame :: "32 word \<Rightarrow> nat \<Rightarrow> 16 word \<times> bytes \<Rightarrow> ipcp \<Rightarrow> ipcp step" where
  "ipcp_on_frame magic now f st =
     (case f of (proto, payload) \<Rightarrow>
        if proto = PPP_IPV4 then (None, Inr (st\<lparr>ip_early := stage_early (ip_early st) payload\<rparr>))
        else if proto = PPP_LCP then
          (case parse_cp payload of Inl e \<Rightarrow> (None, Inl e) | Inr pkt \<Rightarrow> ipcp_on_lcp_packet magic pkt st)
        else if proto = PPP_IPCP then
          (case parse_cp payload of Inl e \<Rightarrow> (None, Inl e) | Inr pkt \<Rightarrow> ipcp_on_packet now pkt st)
        else (None, Inr st))"

definition ipcp_retransmit :: "nat \<Rightarrow> ipcp \<Rightarrow> ipcp step" where
  "ipcp_retransmit now st =
     (if RESTART_INTERVAL \<le> now - ip_last_tx st \<and> \<not> ip_ours st then
        (Some (conf_req PPP_IPCP (ipcp_id st) (ipcp_opts st)), Inr (st\<lparr>ip_last_tx := now\<rparr>))
      else (None, Inr st))"

definition ipcp_phase :: "32 word \<Rightarrow> nat \<Rightarrow> bytes \<Rightarrow> ppp_io \<Rightarrow> ipcp result \<times> ppp_io" where
  "ipcp_phase magic started early io =
     (let st = ipcp_init (clock (io_stream io)) early in
      case exec_step (Some (conf_req PPP_IPCP (ipcp_id st) (ipcp_opts st)), Inr st) io of
        (Inl e, io1) \<Rightarrow> (Inl e, io1)
      | (Inr st, io1) \<Rightarrow>
          neg_loop (\<lambda>st. ip_ours st \<and> ip_theirs st) ipcp_retransmit (ipcp_on_frame magic)
            (Protocol ''IPCP negotiation did not converge'') started 0 st io1)"

section \<open>The handshake\<close>

record ppp_session =
  ppp_address :: ipv4
  ppp_peer :: "ipv4 option"
  ppp_dns :: "ipv4 list"
  ppp_mtu :: "16 word"
  ppp_magic :: "32 word"

definition negotiate_io :: "32 word \<Rightarrow> ppp_io \<Rightarrow> (ppp_session \<times> bytes) result \<times> ppp_io" where
  "negotiate_io magic io =
     (let started = clock (io_stream io) in
      case lcp_phase magic started io of
        (Inl e, io1) \<Rightarrow> (Inl e, io1)
      | (Inr lcp, io1) \<Rightarrow>
          (case ipcp_phase magic started (lcp_early lcp) io1 of
             (Inl e, io2) \<Rightarrow> (Inl e, io2)
           | (Inr ip, io2) \<Rightarrow>
               (case ip_address ip of
                  None \<Rightarrow> (Inl (Protocol ''IPCP completed without assigning an IPv4 address''), io2)
                | Some address \<Rightarrow>
                    (Inr (\<lparr>ppp_address = address, ppp_peer = ip_peer ip, ppp_dns = ip_dns ip,
                           ppp_mtu = lcp_mru lcp, ppp_magic = magic\<rparr>,
                          ip_early ip @ io_buf io2), io2\<lparr>io_buf := []\<rparr>))))"

definition negotiate :: "(nat \<times> nat) option \<Rightarrow> stream \<Rightarrow> bytes \<Rightarrow> (ppp_session \<times> bytes) result \<times> stream" where
  "negotiate systime s prime =
     (case negotiate_io (gen_magic systime) \<lparr>io_stream = s, io_buf = prime, http_checked = False\<rparr> of
        (r, io) \<Rightarrow> (r, io_stream io))"

end
