(* ===== verification/Forti_Config.thy ===== *)
theory Forti_Config
  imports Http_Correct Session_Params Ppp_Negotiate
begin

text \<open>
  The FortiGate tunnel configuration (\<open>fortigate/config.rs\<close>): the attribute
  scanner, the scan of the XML fragments into \<open>FortiConfig\<close>, the keepalive
  cadence, the mapping to session parameters and the fetch with its warm-up.
\<close>

definition FORTI_DEFAULT_MTU :: "16 word" where "FORTI_DEFAULT_MTU = 1354"
definition DEFAULT_KEEPALIVE_SECS :: nat where "DEFAULT_KEEPALIVE_SECS = 30"

record forti_config =
  fc_address :: "ipv4 option"
  fc_netmask :: "ipv4 option"
  fc_dns :: "ipv4 list"
  fc_dns_suffix :: "string option"
  fc_routes :: "(ipv4 \<times> nat) list"
  fc_exclude_routes :: "(ipv4 \<times> nat) list"
  fc_version :: "string option"
  fc_tunnel_methods :: "string list"
  fc_idle_timeout :: "nat option"
  fc_auth_timeout :: "nat option"

definition forti_config_default :: forti_config where
  "forti_config_default =
     \<lparr>fc_address = None, fc_netmask = None, fc_dns = [], fc_dns_suffix = None, fc_routes = [],
      fc_exclude_routes = [], fc_version = None, fc_tunnel_methods = [], fc_idle_timeout = None,
      fc_auth_timeout = None\<rparr>"

definition keepalive_secs :: "forti_config \<Rightarrow> nat" where
  "keepalive_secs cfg =
     (case fc_idle_timeout cfg of
        Some t \<Rightarrow> if 0 < t then max 5 (min 60 (t div 3)) else DEFAULT_KEEPALIVE_SECS
      | None \<Rightarrow> DEFAULT_KEEPALIVE_SECS)"

definition to_session_params :: "forti_config \<Rightarrow> ppp_session option \<Rightarrow> session_params" where
  "to_session_params cfg ppp =
     (let address = (case ppp of Some p \<Rightarrow> ppp_address p
                     | None \<Rightarrow> (case fc_address cfg of Some a \<Rightarrow> a | None \<Rightarrow> unspecified));
          dns = fold push_new ((case ppp of Some p \<Rightarrow> ppp_dns p | None \<Rightarrow> []) @ fc_dns cfg) [] in
      \<lparr>sp_address = address, sp_netmask = fc_netmask cfg, sp_dns = dns,
       sp_mtu = (case ppp of Some p \<Rightarrow> ppp_mtu p | None \<Rightarrow> FORTI_DEFAULT_MTU),
       sp_keepalive = Some (keepalive_secs cfg), sp_dpd = None,
       sp_disconnected_timeout = fc_idle_timeout cfg\<rparr>)"

definition mask_to_prefix :: "ipv4 \<Rightarrow> nat" where
  "mask_to_prefix m = count_ones (ipv4_bits m)"

definition prefix_to_mask :: "nat \<Rightarrow> ipv4" where
  "prefix_to_mask plen =
     (let p = min plen 32;
          bits = (if p = 0 then 0 else push_bit (32 - p) (- 1)) in
      ipv4_of_bits bits)"

text \<open>
  The value of an attribute: the loop goes on after each occurrence of the name
  that is not a whole attribute name.  The names looked up are never empty (for
  an empty name the search would not advance; the model gives \<open>None\<close>).
\<close>

lemma search_advance:
  "find_sub pat (drop i s) = Some rel \<Longrightarrow> pat \<noteq> [] \<Longrightarrow> length s - (i + rel + length pat) < length s - i"
proof -
  assume f: "find_sub pat (drop i s) = Some rel" and n: "pat \<noteq> []"
  from n have "0 < length pat" by simp
  moreover from find_sub_Some[OF f] have "rel + length pat \<le> length s - i" by simp
  ultimately show ?thesis by linarith
qed

function attr_from :: "string \<Rightarrow> string \<Rightarrow> nat \<Rightarrow> string option" where
  "attr_from fragment name from' =
     (if name = [] then None
      else case find_sub name (drop from' fragment) of
        None \<Rightarrow> None
      | Some rel \<Rightarrow>
          let start = from' + rel;
              after = start + length name in
          if 0 < start \<and> (let p = fragment ! (start - 1) in
               is_ascii_alphanumeric p \<or> p = CHR ''-'' \<or> p = CHR ''_'') then attr_from fragment name after
          else
            case strip_prefix ''='' (trim_start (drop after fragment)) of
              None \<Rightarrow> attr_from fragment name after
            | Some rest \<Rightarrow>
                (case trim_start rest of
                   q # value \<Rightarrow>
                     if q = CHR 0x27 \<or> q = CHR 0x22 then
                       map_option (\<lambda>e. take e value) (find_sub [q] value)
                     else attr_from fragment name after
                 | [] \<Rightarrow> attr_from fragment name after))"
  by auto
termination
  by (relation "measure (\<lambda>(f, n, i). length f - i)") (auto simp: search_advance)

declare attr_from.simps [simp del]

definition attr :: "string \<Rightarrow> string \<Rightarrow> string option" where
  "attr fragment name = attr_from fragment name 0"

text \<open>The end of the element name: white space, a slash or a closing bracket.\<close>

fun name_end :: "string \<Rightarrow> nat" where
  "name_end [] = 0"
| "name_end (c # s) =
     (if 0 < ws_prefix (c # s) \<or> c = CHR ''/'' \<or> c = CHR ''>'' then 0 else Suc (name_end s))"

record xml_scan =
  xs_cfg :: forti_config
  in_split :: bool
  split_negated :: bool

definition scan_assigned_addr :: "string \<Rightarrow> forti_config \<Rightarrow> forti_config" where
  "scan_assigned_addr rest cfg =
     (let cfg1 = (case opt_bind (attr rest ''ipv4'') parse_ipv4 of
                    Some ip \<Rightarrow> cfg\<lparr>fc_address := Some ip\<rparr> | None \<Rightarrow> cfg) in
      case opt_bind (attr rest ''prefix-len'') (parse_uint 256) of
        Some p \<Rightarrow> cfg1\<lparr>fc_netmask := Some (prefix_to_mask p)\<rparr> | None \<Rightarrow> cfg1)"

definition scan_dns :: "string \<Rightarrow> forti_config \<Rightarrow> forti_config" where
  "scan_dns rest cfg =
     (let cfg1 = (case opt_bind (attr rest ''ip'') parse_ipv4 of
                    Some a \<Rightarrow> cfg\<lparr>fc_dns := push_new a (fc_dns cfg)\<rparr> | None \<Rightarrow> cfg) in
      case attr rest ''domain'' of
        Some d \<Rightarrow> if d \<noteq> [] then cfg1\<lparr>fc_dns_suffix := Some d\<rparr> else cfg1
      | None \<Rightarrow> cfg1)"

definition scan_addr :: "bool \<Rightarrow> string \<Rightarrow> forti_config \<Rightarrow> forti_config" where
  "scan_addr negated rest cfg =
     (case opt_bind (attr rest ''ip'') parse_ipv4 of
        None \<Rightarrow> cfg
      | Some ip \<Rightarrow>
          (case (case opt_bind (attr rest ''mask'') parse_ipv4 of
                   Some m \<Rightarrow> Some (mask_to_prefix m)
                 | None \<Rightarrow> opt_bind (attr rest ''prefix-len'') (parse_uint 256)) of
             None \<Rightarrow> cfg
           | Some plen \<Rightarrow>
               if negated then cfg\<lparr>fc_exclude_routes := fc_exclude_routes cfg @ [(ip, plen)]\<rparr>
               else cfg\<lparr>fc_routes := fc_routes cfg @ [(ip, plen)]\<rparr>))"

definition scan_fragment :: "string \<Rightarrow> xml_scan \<Rightarrow> xml_scan" where
  "scan_fragment frag0 st =
     (let frag = trim_start frag0;
          name = take (name_end frag) frag;
          rest = drop (name_end frag) frag;
          cfg = xs_cfg st in
      if name = ''sslvpn-tunnel'' then st\<lparr>xs_cfg := cfg\<lparr>fc_version := attr rest ''ver''\<rparr>\<rparr>
      else if name = ''tunnel-method'' then
        (case attr rest ''value'' of
           Some v \<Rightarrow> st\<lparr>xs_cfg := cfg\<lparr>fc_tunnel_methods := fc_tunnel_methods cfg @ [v]\<rparr>\<rparr> | None \<Rightarrow> st)
      else if name = ''idle-timeout'' then
        st\<lparr>xs_cfg := cfg\<lparr>fc_idle_timeout := opt_bind (attr rest ''val'') (parse_uint (2 ^ 32))\<rparr>\<rparr>
      else if name = ''auth-timeout'' then
        st\<lparr>xs_cfg := cfg\<lparr>fc_auth_timeout := opt_bind (attr rest ''val'') (parse_uint (2 ^ 32))\<rparr>\<rparr>
      else if name = ''assigned-addr'' then st\<lparr>xs_cfg := scan_assigned_addr rest cfg\<rparr>
      else if name = ''dns'' then st\<lparr>xs_cfg := scan_dns rest cfg\<rparr>
      else if name = ''split-tunnel-info'' then
        st\<lparr>in_split := True,
           split_negated := (attr rest ''negate'' = Some ''1'' \<or> attr rest ''negate'' = Some ''true'')\<rparr>
      else if name = ''/split-tunnel-info'' then st\<lparr>in_split := False, split_negated := False\<rparr>
      else if name = ''addr'' \<and> in_split st then st\<lparr>xs_cfg := scan_addr (split_negated st) rest cfg\<rparr>
      else st)"

definition parse_config_xml :: "string \<Rightarrow> forti_config result" where
  "parse_config_xml body =
     Inr (xs_cfg (fold scan_fragment (split_on (CHR ''<'') body)
       \<lparr>xs_cfg = forti_config_default, in_split = False, split_negated = False\<rparr>))"

text \<open>The warm-up requests may fail; only the fetch of the configuration counts.\<close>

definition warm_up :: "http_session \<Rightarrow> string \<Rightarrow> string \<Rightarrow> unit outcome \<times> http_session" where
  "warm_up hs path ck =
     (case session_request hs ''GET'' path (Some ck) None of
        (Returned _, hs1) \<Rightarrow> (Returned (Inr ()), hs1)
      | (Panicked, hs1) \<Rightarrow> (Panicked, hs1)
      | (Hangs, hs1) \<Rightarrow> (Hangs, hs1))"

definition fetch_config_on :: "http_session \<Rightarrow> string \<Rightarrow> forti_config outcome \<times> http_session" where
  "fetch_config_on hs svpncookie =
     (let ck = ''SVPNCOOKIE='' @ svpncookie;
          (w1, hs1) = warm_up hs ''/remote/index'' ck in
      case w1 of
        Returned _ \<Rightarrow>
          (let (w2, hs2) = warm_up hs1 ''/remote/fortisslvpn'' ck in
           case w2 of
             Returned _ \<Rightarrow>
               (let (r, hs3) = session_request hs2 ''GET'' ''/remote/fortisslvpn_xml'' (Some ck) None in
                (outcome_then r (\<lambda>resp.
                   if 400 \<le> resp_status resp then
                     Returned (Inl (Protocol (''FortiGate config fetch failed (HTTP '' @ show_nat (resp_status resp) @ '')'')))
                   else Returned (parse_config_xml (body_str resp))), hs3))
           | Panicked \<Rightarrow> (Panicked, hs2)
           | Hangs \<Rightarrow> (Hangs, hs2))
      | Panicked \<Rightarrow> (Panicked, hs1)
      | Hangs \<Rightarrow> (Hangs, hs1))"

definition fetch_config :: "string \<Rightarrow> network \<Rightarrow> string \<Rightarrow> forti_config outcome" where
  "fetch_config host n svpncookie = fst (fetch_config_on (http_session_new host n) svpncookie)"

section \<open>Masks and the keepalive\<close>

lemma prefix_to_mask_bits: "prefix_to_mask p = ipv4_of_bits (prefix_bits (min p 32))"
  by (simp add: prefix_to_mask_def prefix_bits_def Let_def)

text \<open>
  The netmask of a prefix length has that many ones, all of them leading, so
  that converting it back gives the prefix length (32 for anything larger).
\<close>

theorem mask_prefix_roundtrip:
  "mask_to_prefix (prefix_to_mask p) = min p 32
   \<and> (\<forall>n. bit (ipv4_bits (prefix_to_mask p)) n = (32 - min p 32 \<le> n \<and> n < 32))"
  by (simp add: mask_to_prefix_def prefix_to_mask_bits bit_prefix_bits)

text \<open>
  The keepalive period lies between 5 and 60 seconds, and it leaves room for
  two lost probes within the idle timeout of the gateway as soon as that timeout
  is at least 15 seconds.  For an idle timeout below 5 seconds the period exceeds
  the timeout.
\<close>

theorem keepalive_bounds:
  "5 \<le> keepalive_secs cfg \<and> keepalive_secs cfg \<le> 60
   \<and> (case fc_idle_timeout cfg of
        None \<Rightarrow> keepalive_secs cfg = 30
      | Some t \<Rightarrow> if 15 \<le> t then 3 * keepalive_secs cfg \<le> t
                  else if 0 < t \<and> t < 5 then t < keepalive_secs cfg
                  else keepalive_secs cfg = (if t = 0 then 30 else 5))"
  by (auto simp: keepalive_secs_def DEFAULT_KEEPALIVE_SECS_def max_def min_def split: option.splits)

section \<open>The scan\<close>

lemma name_end_slash: "name_end (CHR ''/'' # s) = 0"
  by simp

text \<open>
  The closing tag of the split-tunnel block is never recognised.  The name of
  an element ends at the first slash, and the name of a closing tag starts with
  one: its name is empty, and the fragment leaves the scan in the state it was
  in, still inside the block and still negated.
\<close>

theorem closing_tag_ignored: "scan_fragment (''/split-tunnel-info'' @ s) st = st"
proof -
  have "trim_start (''/split-tunnel-info'' @ s) = ''/split-tunnel-info'' @ s"
    unfolding trim_start_def
    by (rule drop_while_prefix_id, rule ws_prefix_0_if_ascii) (simp add: ascii_ws_def)
  then show ?thesis by (simp add: scan_fragment_def Let_def)
qed

text \<open>What every fragment keeps.\<close>

definition scan_inv :: "forti_config \<Rightarrow> bool" where
  "scan_inv cfg =
     (distinct (fc_dns cfg)
      \<and> (case fc_netmask cfg of None \<Rightarrow> True | Some m \<Rightarrow> m = prefix_to_mask (mask_to_prefix m))
      \<and> list_all (\<lambda>(a, p). p < 256) (fc_routes cfg @ fc_exclude_routes cfg))"

lemma prefix_to_mask_canonical: "prefix_to_mask p = prefix_to_mask (mask_to_prefix (prefix_to_mask p))"
proof -
  have "mask_to_prefix (prefix_to_mask p) = min p 32" using mask_to_prefix_def prefix_to_mask_bits by simp
  then show ?thesis by (simp add: prefix_to_mask_bits)
qed

lemma scan_addr_inv: "scan_inv cfg \<Longrightarrow> scan_inv (scan_addr neg rest cfg)"
proof -
  assume inv: "scan_inv cfg"
  have "mask_to_prefix m < 256" for m
    using count_ones_le[of "ipv4_bits m"] by (simp add: mask_to_prefix_def)
  moreover have "n < 256" if "parse_uint 256 s = Some n" for s n
    using that by (rule parse_uint_bound) simp
  ultimately show ?thesis
    using inv by (auto simp: scan_addr_def scan_inv_def opt_bind_def split: option.splits)
qed

lemma scan_fragment_inv: "scan_inv (xs_cfg st) \<Longrightarrow> scan_inv (xs_cfg (scan_fragment frag st))"
proof -
  assume inv: "scan_inv (xs_cfg st)"
  have "scan_inv (scan_assigned_addr r (xs_cfg st))" for r
    using inv prefix_to_mask_canonical
    by (auto simp: scan_assigned_addr_def scan_inv_def Let_def split: option.splits)
  moreover have "scan_inv (scan_dns r (xs_cfg st))" for r
    using inv by (auto simp: scan_dns_def scan_inv_def Let_def split: option.splits)
  moreover have "scan_inv (scan_addr n r (xs_cfg st))" for n r
    using inv by (rule scan_addr_inv)
  ultimately show ?thesis
    using inv by (simp add: scan_fragment_def Let_def split: option.splits) (simp add: scan_inv_def)
qed

text \<open>
  Parsing the configuration never fails; the DNS servers it finds are distinct,
  and a netmask it finds is contiguous.  A route's prefix length is only known to
  fit a byte: the \<open>prefix-len\<close> of an address is not bounded by 32.
\<close>

theorem parse_config_xml_inv:
  "case parse_config_xml body of Inl _ \<Rightarrow> False | Inr cfg \<Rightarrow> scan_inv cfg"
proof -
  have "scan_inv (xs_cfg (fold scan_fragment frags st))" if "scan_inv (xs_cfg st)" for frags st
    using that by (induction frags arbitrary: st) (auto intro: scan_fragment_inv)
  then show ?thesis by (simp add: parse_config_xml_def scan_inv_def forti_config_default_def)
qed

section \<open>Session parameters\<close>

lemma fold_push_new_append:
  "distinct (xs @ ys) \<Longrightarrow> fold push_new ys xs = xs @ ys"
  by (induction ys arbitrary: xs) (auto simp: push_new_def)

lemma fold_push_new_prefix: "\<exists>zs. fold push_new ys xs = xs @ zs"
proof (induction ys arbitrary: xs)
  case (Cons y ys)
  show ?case
  proof (cases "y \<in> set xs")
    case False
    then show ?thesis using Cons[of "xs @ [y]"] by (auto simp: push_new_def)
  qed (use Cons[of xs] in \<open>auto simp: push_new_def\<close>)
qed simp

text \<open>
  What PPP negotiated wins over the XML: the address and the MTU are those of
  the PPP session; the resolvers of IPCP come first, in their order, followed by
  those of the XML that are new; none is repeated and none is lost.
\<close>

theorem session_params_ppp_wins:
  assumes "distinct (ppp_dns p)"
  shows "sp_address (to_session_params cfg (Some p)) = ppp_address p
    \<and> sp_mtu (to_session_params cfg (Some p)) = ppp_mtu p
    \<and> distinct (sp_dns (to_session_params cfg (Some p)))
    \<and> set (sp_dns (to_session_params cfg (Some p))) = set (ppp_dns p) \<union> set (fc_dns cfg)
    \<and> take (length (ppp_dns p)) (sp_dns (to_session_params cfg (Some p))) = ppp_dns p"
proof -
  have "fold push_new (ppp_dns p @ fc_dns cfg) [] = fold push_new (fc_dns cfg) (ppp_dns p)"
    using fold_push_new_append[of "[]" "ppp_dns p"] assms by simp
  then show ?thesis
    using fold_push_new_prefix[of "fc_dns cfg" "ppp_dns p"] assms
    by (auto simp: to_session_params_def Let_def)
qed

theorem session_params_ppp_wins_witness:
  "sp_dns (to_session_params (forti_config_default\<lparr>fc_dns := [Ipv4 8 8 8 8, Ipv4 1 1 1 1]\<rparr>)
      (Some \<lparr>ppp_address = Ipv4 10 0 0 2, ppp_peer = None, ppp_dns = [Ipv4 1 1 1 1], ppp_mtu = 1354, ppp_magic = 1\<rparr>))
     = [Ipv4 1 1 1 1, Ipv4 8 8 8 8]"
  using session_params_ppp_wins[of "\<lparr>ppp_address = Ipv4 10 0 0 2, ppp_peer = None, ppp_dns = [Ipv4 1 1 1 1],
      ppp_mtu = 1354, ppp_magic = 1\<rparr>" "forti_config_default\<lparr>fc_dns := [Ipv4 8 8 8 8, Ipv4 1 1 1 1]\<rparr>"]
  by (simp add: to_session_params_def push_new_def forti_config_default_def)

end
