(* ===== verification/Client.thy ===== *)
theory Client
  imports Forward Cp_Auth Anyconnect_Auth Forti_Auth Forti_Config
begin

text \<open>
  The client (\<open>client.rs\<close>, with \<open>fortigate/session.rs\<close>): one connection attempt
  for each protocol, the pipeline they share, and the loop that reconnects.

  An attempt acts on a state of the system (the routing table \<open>'os\<close>, the
  connections of the network, the events sent, what was torn down).  What
  surrounds it is an \<open>attempt_env\<close>: how opening the device ends, what happens while
  the tunnel runs, when the user asks to stop.  \<open>Hangs\<close> means that the attempt
  waits for ever in that environment.
\<close>

datatype client_event =
    Ev_Connecting
  | Ev_Established
  | Ev_Reconnecting nat
  | Ev_Disconnected
  | Ev_Permanent_Error string

section \<open>Backoff\<close>

definition BASE_DELAY_MS :: nat where "BASE_DELAY_MS = 1000"
definition MAX_DELAY_MS :: nat where "MAX_DELAY_MS = 60000"
definition MIN_SUSTAINED_SESSION :: nat where "MIN_SUSTAINED_SESSION = 30000"

definition u64_max :: nat where "u64_max = 2 ^ 64 - 1"

definition backoff_base_ms :: "nat \<Rightarrow> nat" where
  "backoff_base_ms attempt =
     (let factor = min (2 ^ attempt) u64_max in
      min (min (BASE_DELAY_MS * factor) u64_max) MAX_DELAY_MS)"

text \<open>
  The jitter: the nanoseconds of the clock give a fraction of \<open>0.75\<close> to \<open>1.25\<close>.
  The source computes in \<open>f64\<close>; here the product is exact and rounded down once.
\<close>

definition backoff_delay :: "nat \<Rightarrow> nat \<Rightarrow> nat" where
  "backoff_delay attempt nanos = backoff_base_ms attempt * (1500000000 + nanos) div 2000000000"

section \<open>Trust\<close>

definition cert_trust_of :: "config \<Rightarrow> cert_trust" where
  "cert_trust_of cfg =
     (case cfg_cert_sha256 cfg of
        Some pin \<Rightarrow> Pinned pin
      | None \<Rightarrow> if cfg_insecure cfg then Insecure else Webpki)"

section \<open>The pipeline\<close>

record attempt_env =
  ae_open_tun :: "session_params \<Rightarrow> unit result"
  ae_if_index :: "nat result"
  ae_route_handle :: "string option"
  ae_wakes :: "nat \<Rightarrow> wake list"
  ae_tls_script :: "io_error option list"
  ae_tun_script :: "io_error option list"
  ae_systime :: "(nat \<times> nat) option"
  ae_shutdown_before :: bool
  ae_shutdown_after :: bool
  ae_shutdown_backoff :: bool
  ae_lasted :: nat
  ae_jitter_nanos :: nat

record 'os sys =
  sys_os :: 'os
  sys_net :: network
  sys_events :: "client_event list"
  sys_established :: bool
  sys_teardown :: "teardown list"

definition emit :: "client_event \<Rightarrow> 'os sys \<Rightarrow> 'os sys" where
  "emit ev c = c\<lparr>sys_events := sys_events c @ [ev]\<rparr>"

text \<open>
  \<open>run_pipeline\<close>.  Dropping the device closes it; the timer of the forwarding loop
  runs at the interval of the session, 30 seconds when it has none.
\<close>

definition run_pipeline ::
  "'os route_op \<Rightarrow> 'os route_op \<Rightarrow> attempt_env \<Rightarrow> session_params \<Rightarrow> (ipv4 \<times> nat) list \<Rightarrow> framer \<Rightarrow> bytes
     \<Rightarrow> 'os sys \<Rightarrow> unit outcome \<times> 'os sys" where
  "run_pipeline radd rdel env params routes fr prime c =
     (case ae_open_tun env params of
        Inl e \<Rightarrow> (Returned (Inl e), c)
      | Inr _ \<Rightarrow>
          (case ae_if_index env of
             Inl e \<Rightarrow> (Returned (Inl e), c\<lparr>sys_teardown := sys_teardown c @ [Close_Tun]\<rparr>)
           | Inr ifindex \<Rightarrow>
               (case install_routes radd rdel (ae_route_handle env) ifindex routes (sys_os c) of
                  (Inl e, os1) \<Rightarrow>
                    (Returned (Inl e), c\<lparr>sys_os := os1, sys_teardown := sys_teardown c @ [Close_Tun]\<rparr>)
                | (Inr guard, os1) \<Rightarrow>
                    let keepalive_secs = unwrap_or 30 (sp_keepalive params);
                        c1 = emit Ev_Established (c\<lparr>sys_os := os1, sys_established := True\<rparr>) in
                    (case run_forwarding rdel (sp_mtu params) fr prime guard
                            (ae_wakes env (keepalive_interval keepalive_secs)) (ae_tls_script env) (ae_tun_script env) os1 of
                       (None, _, _, _) \<Rightarrow> (Hangs, c1)
                     | (Some r, _, os2, td) \<Rightarrow>
                         (Returned r, c1\<lparr>sys_os := os2, sys_teardown := sys_teardown c1 @ td\<rparr>)))))"

section \<open>The protocols\<close>

text \<open>A fresh TLS connection, used by \<open>k\<close>; the clock of the network follows that of the stream.\<close>

definition with_stream :: "'os sys \<Rightarrow> (stream \<Rightarrow> 'a outcome \<times> stream) \<Rightarrow> 'a outcome \<times> 'os sys" where
  "with_stream c k =
     (case dial (sys_net c) of
        (Returned (Inr s), n) \<Rightarrow>
          (case k s of (r, s') \<Rightarrow> (r, c\<lparr>sys_net := n\<lparr>net_clock := max (net_clock n) (clock s')\<rparr>\<rparr>))
      | (Returned (Inl e), n) \<Rightarrow> (Returned (Inl e), c\<lparr>sys_net := n\<rparr>)
      | (Panicked, n) \<Rightarrow> (Panicked, c\<lparr>sys_net := n\<rparr>)
      | (Hangs, n) \<Rightarrow> (Hangs, c\<lparr>sys_net := n\<rparr>))"

text \<open>Sequencing on the system state.\<close>

definition sys_then :: "'a outcome \<times> 'os sys \<Rightarrow> ('a \<Rightarrow> 'os sys \<Rightarrow> 'b outcome \<times> 'os sys) \<Rightarrow> 'b outcome \<times> 'os sys" where
  "sys_then r k =
     (case r of
        (Returned (Inr a), c) \<Rightarrow> k a c
      | (Returned (Inl e), c) \<Rightarrow> (Returned (Inl e), c)
      | (Panicked, c) \<Rightarrow> (Panicked, c)
      | (Hangs, c) \<Rightarrow> (Hangs, c))"

definition anyconnect_handshake :: "config \<Rightarrow> string \<Rightarrow> stream \<Rightarrow> session_params outcome \<times> stream" where
  "anyconnect_handshake cfg password s =
     (case authenticate s (cfg_host cfg) (cfg_username cfg) password of
        (Returned (Inr ck), s1) \<Rightarrow> cstp_connect s1 (cfg_host cfg) ck
      | (Returned (Inl e), s1) \<Rightarrow> (Returned (Inl e), s1)
      | (Panicked, s1) \<Rightarrow> (Panicked, s1)
      | (Hangs, s1) \<Rightarrow> (Hangs, s1))"

definition connect_anyconnect ::
  "'os route_op \<Rightarrow> 'os route_op \<Rightarrow> config \<Rightarrow> string \<Rightarrow> attempt_env \<Rightarrow> 'os sys \<Rightarrow> unit outcome \<times> 'os sys" where
  "connect_anyconnect radd rdel cfg password env c =
     sys_then (with_stream c (anyconnect_handshake cfg password)) (\<lambda>params c1.
       run_pipeline radd rdel env params vpn_routes Cstp_Framer [] c1)"

definition connect_checkpoint_tunnel ::
  "'os route_op \<Rightarrow> 'os route_op \<Rightarrow> string \<Rightarrow> attempt_env \<Rightarrow> 'os sys \<Rightarrow> unit outcome \<times> 'os sys" where
  "connect_checkpoint_tunnel radd rdel ck env c =
     sys_then
       (with_stream c (\<lambda>s. case establish_session ck hello_opts_default s of (r, s') \<Rightarrow> (Returned r, s')))
       (\<lambda>session c1.
          let routes = (if cps_routes session = [] then vpn_routes else cps_routes session) in
          run_pipeline radd rdel env (cps_to_session_params session) routes Slim_Framer [] c1)"

text \<open>The session is signed out after the tunnel, whatever its result; a failing sign-out is only logged.\<close>

definition connect_checkpoint ::
  "'os route_op \<Rightarrow> 'os route_op \<Rightarrow> config \<Rightarrow> string \<Rightarrow> attempt_env \<Rightarrow> 'os sys \<Rightarrow> unit outcome \<times> 'os sys" where
  "connect_checkpoint radd rdel cfg password env c =
     (case authenticate_checkpoint (sys_net c) (cfg_host cfg) (cfg_username cfg) password of
        (r, n) \<Rightarrow>
          sys_then (r, c\<lparr>sys_net := n\<rparr>) (\<lambda>ccc c1.
            case active_key_deobfuscated ccc of
              Inl e \<Rightarrow> (Returned (Inl e), c1)
            | Inr ck \<Rightarrow>
                (case connect_checkpoint_tunnel radd rdel ck env c1 of
                   (Returned result, c2) \<Rightarrow>
                     if cs_session_id ccc = [] then (Returned result, c2)
                     else (case signout_checkpoint (sys_net c2) (cfg_host cfg) (cs_session_id ccc) of
                             (Returned _, n2) \<Rightarrow> (Returned result, c2\<lparr>sys_net := n2\<rparr>)
                           | (Panicked, n2) \<Rightarrow> (Panicked, c2\<lparr>sys_net := n2\<rparr>)
                           | (Hangs, n2) \<Rightarrow> (Hangs, c2\<lparr>sys_net := n2\<rparr>))
                 | (Panicked, c2) \<Rightarrow> (Panicked, c2)
                 | (Hangs, c2) \<Rightarrow> (Hangs, c2))))"

definition build_tunnel_request :: "string \<Rightarrow> string" where
  "build_tunnel_request ck =
     ''GET /remote/sslvpn-tunnel HTTP/1.1'' @ CRLF
     @ ''Host: sslvpn'' @ CRLF
     @ ''User-Agent: '' @ USER_AGENT_TUNNEL @ CRLF
     @ ''Cookie: SVPNCOOKIE='' @ ck @ CRLF
     @ CRLF"

definition open_tunnel ::
  "(nat \<times> nat) option \<Rightarrow> string \<Rightarrow> stream \<Rightarrow> (ppp_session \<times> bytes) outcome \<times> stream" where
  "open_tunnel systime ck s =
     (case write_flush (bytes_of_str (build_tunnel_request ck)) s of
        (Inl e, s1) \<Rightarrow> (Returned (Inl e), s1)
      | (Inr _, s1) \<Rightarrow> (case negotiate systime s1 [] of (r, s2) \<Rightarrow> (Returned r, s2)))"

text \<open>The login and the configuration over one HTTP session.\<close>

definition fortigate_login :: "config \<Rightarrow> string \<Rightarrow> 'os sys \<Rightarrow> (string \<times> forti_config) outcome \<times> 'os sys" where
  "fortigate_login cfg password c =
     (case authenticate_on (http_session_new (cfg_host cfg) (sys_net c)) (cfg_username cfg) password (cfg_realm cfg) of
        (Returned (Inr ck), hs1) \<Rightarrow>
          (case fetch_config_on hs1 ck of
             (r, hs2) \<Rightarrow> (outcome_then r (\<lambda>fc. Returned (Inr (ck, fc))), c\<lparr>sys_net := hs_net hs2\<rparr>))
      | (Returned (Inl e), hs1) \<Rightarrow> (Returned (Inl e), c\<lparr>sys_net := hs_net hs1\<rparr>)
      | (Panicked, hs1) \<Rightarrow> (Panicked, c\<lparr>sys_net := hs_net hs1\<rparr>)
      | (Hangs, hs1) \<Rightarrow> (Hangs, c\<lparr>sys_net := hs_net hs1\<rparr>))"

definition connect_fortigate ::
  "'os route_op \<Rightarrow> 'os route_op \<Rightarrow> config \<Rightarrow> string \<Rightarrow> attempt_env \<Rightarrow> 'os sys \<Rightarrow> unit outcome \<times> 'os sys" where
  "connect_fortigate radd rdel cfg password env c =
     sys_then (fortigate_login cfg password c) (\<lambda>(ck, fc) c1.
       sys_then (with_stream c1 (open_tunnel (ae_systime env) ck)) (\<lambda>(ppp, prime) c2.
         let routes = (if fc_routes fc = [] then vpn_routes else fc_routes fc) in
         run_pipeline radd rdel env (to_session_params fc (Some ppp)) routes
           (forti_framer_new (ppp_magic ppp)) prime c2))"

definition connect ::
  "'os route_op \<Rightarrow> 'os route_op \<Rightarrow> config \<Rightarrow> string \<Rightarrow> attempt_env \<Rightarrow> 'os sys \<Rightarrow> unit outcome \<times> 'os sys" where
  "connect radd rdel cfg password env c =
     (case cfg_protocol cfg of
        AnyConnect \<Rightarrow> connect_anyconnect radd rdel cfg password env c
      | Checkpoint \<Rightarrow> connect_checkpoint radd rdel cfg password env c
      | FortiGate \<Rightarrow> connect_fortigate radd rdel cfg password env c)"

section \<open>The reconnect loop\<close>

text \<open>
  One turn of the loop for each environment; with none left the loop is still
  running.  \<open>attempt\<close> is the \<open>u32\<close> counter.
\<close>

fun supervise ::
  "(attempt_env \<Rightarrow> 'os sys \<Rightarrow> unit outcome \<times> 'os sys) \<Rightarrow> nat \<Rightarrow> attempt_env list \<Rightarrow> 'os sys \<Rightarrow> unit outcome \<times> 'os sys" where
  "supervise conn attempt [] c = (Hangs, c)"
| "supervise conn attempt (env # envs) c =
     (if ae_shutdown_before env then (Returned (Inr ()), emit Ev_Disconnected c)
      else case conn env (emit Ev_Connecting (c\<lparr>sys_established := False\<rparr>)) of
        (Returned (Inr _), c1) \<Rightarrow> (Returned (Inr ()), emit Ev_Disconnected c1)
      | (Returned (Inl e), c1) \<Rightarrow>
          if is_permanent e then (Returned (Inl e), emit (Ev_Permanent_Error (show_error e)) c1)
          else
            let attempt1 = (if sys_established c1 \<and> MIN_SUSTAINED_SESSION \<le> ae_lasted env then 0 else attempt) in
            if ae_shutdown_after env then (Returned (Inr ()), emit Ev_Disconnected c1)
            else
              let c2 = emit (Ev_Reconnecting (backoff_delay attempt1 (ae_jitter_nanos env))) c1 in
              if ae_shutdown_backoff env then (Returned (Inr ()), emit Ev_Disconnected c2)
              else supervise conn (min (attempt1 + 1) (2 ^ 32 - 1)) envs c2
      | (Panicked, c1) \<Rightarrow> (Panicked, c1)
      | (Hangs, c1) \<Rightarrow> (Hangs, c1))"

definition run_client_supervised ::
  "'os route_op \<Rightarrow> 'os route_op \<Rightarrow> config \<Rightarrow> string \<Rightarrow> attempt_env list \<Rightarrow> 'os sys \<Rightarrow> unit outcome \<times> 'os sys" where
  "run_client_supervised radd rdel cfg password envs c =
     supervise (connect radd rdel cfg password) 0 envs c"

end
