(* ===== verification/Client_Correct.thy ===== *)
theory Client_Correct
  imports Client
begin

text \<open>
  What the client guarantees: its backoff, the trust in the certificate, that it
  leaves the routing table as it found it, the protocol of the events it sends,
  and when it releases a Check Point session.
\<close>

section \<open>Backoff\<close>

lemma backoff_base: "backoff_base_ms attempt = min (1000 * 2 ^ attempt) 60000"
proof (cases "attempt < 6")
  case True
  then have "2 ^ attempt \<le> (2 :: nat) ^ 6" by (intro power_increasing) simp_all
  then show ?thesis by (simp add: backoff_base_ms_def u64_max_def BASE_DELAY_MS_def MAX_DELAY_MS_def Let_def)
next
  case False
  then have "(2 :: nat) ^ 6 \<le> 2 ^ attempt" by (intro power_increasing) simp_all
  then have "64 \<le> (2 :: nat) ^ attempt" "64 \<le> min ((2 :: nat) ^ attempt) u64_max" by (simp_all add: u64_max_def)
  then show ?thesis by (simp add: backoff_base_ms_def BASE_DELAY_MS_def MAX_DELAY_MS_def u64_max_def Let_def)
qed

text \<open>
  The delay before a retry: the saturating arithmetic gives the doubling base
  of one second capped at sixty for every attempt number, and the jitter keeps the
  delay within a quarter of it: never below 750 milliseconds, never above 75
  seconds.
\<close>

theorem backoff_delay_bounds:
  assumes "nanos < 1000000000"
  shows "backoff_base_ms attempt = min (1000 * 2 ^ attempt) 60000
    \<and> 3 * backoff_base_ms attempt \<le> 4 * backoff_delay attempt nanos
    \<and> 4 * backoff_delay attempt nanos \<le> 5 * backoff_base_ms attempt
    \<and> 750 \<le> backoff_delay attempt nanos \<and> backoff_delay attempt nanos \<le> 75000"
proof -
  obtain m where m: "backoff_base_ms attempt = 4 * m" "250 \<le> m" "m \<le> 15000"
  proof (cases "attempt < 6")
    case True
    then have "2 ^ attempt \<le> (2 :: nat) ^ 5" by (intro power_increasing) simp_all
    then show ?thesis by (intro that[of "250 * 2 ^ attempt"]) (simp_all add: backoff_base)
  next
    case False
    then have "(2 :: nat) ^ 6 \<le> 2 ^ attempt" by (intro power_increasing) simp_all
    then show ?thesis by (intro that[of 15000]) (simp_all add: backoff_base)
  qed
  have "m * 3 * 2000000000 \<le> 4 * m * (1500000000 + nanos)" by simp
  then have low: "m * 3 \<le> backoff_delay attempt nanos"
    unfolding backoff_delay_def m(1) by (subst less_eq_div_iff_mult_less_eq) simp_all
  have "4 * m * (1500000000 + nanos) \<le> 4 * m * 2500000000" using assms by (intro mult_left_mono) simp_all
  then have "backoff_delay attempt nanos \<le> 4 * m * 2500000000 div 2000000000"
    unfolding backoff_delay_def m(1) by (rule div_le_mono)
  then have high: "backoff_delay attempt nanos \<le> 5 * m" by simp
  show ?thesis using m low high backoff_base[of attempt] by simp
qed

theorem backoff_delay_bounds_witness:
  "750 \<le> backoff_delay 40 999999999 \<and> backoff_delay 40 999999999 \<le> 75000"
  using backoff_delay_bounds[of 999999999 40] by simp

section \<open>Trust\<close>

text \<open>
  A certificate is accepted only as configured: with a pinned fingerprint
  exactly the certificates with that digest are accepted, even if certificates are
  otherwise not to be checked; without one, everything is accepted when the
  configuration says so explicitly, and else what the public roots vouch for.
\<close>

theorem certificate_accepted_iff:
  "verify_server_cert webpki sha256 (cert_trust_of cfg) cert name = Inr () \<longleftrightarrow>
     (case cfg_cert_sha256 cfg of
        Some pin \<Rightarrow> sha256 cert = pin
      | None \<Rightarrow> cfg_insecure cfg \<or> webpki cert name = Inr ())"
  by (simp add: verify_server_cert_def cert_trust_of_def pinned_verify_def Let_def split: option.splits)

section \<open>What an attempt leaves behind\<close>

text \<open>
  The table is as before when the attempt is over, and whatever was torn down ended
  with the device.
\<close>

definition ends_closed :: "teardown list \<Rightarrow> bool" where
  "ends_closed td = (td = [] \<or> last td = Close_Tun)"

lemma ends_closed_simps [simp]: "ends_closed []" "ends_closed [Close_Tun]" "ends_closed (td @ [Close_Tun])"
  by (simp_all add: ends_closed_def)

lemma ends_closed_append: "ends_closed xs \<Longrightarrow> ends_closed ys \<Longrightarrow> ends_closed (xs @ ys)"
  by (auto simp: ends_closed_def last_append)

definition clean_end :: "('os \<Rightarrow> route set) \<Rightarrow> 'os sys \<Rightarrow> 'a outcome \<times> 'os sys \<Rightarrow> bool" where
  "clean_end tbl c rc =
     (case rc of
        (Hangs, _) \<Rightarrow> True
      | (_, c') \<Rightarrow> tbl (sys_os c') = tbl (sys_os c)
          \<and> (\<exists>td. sys_teardown c' = sys_teardown c @ td \<and> ends_closed td))"

lemma clean_endI:
  "sys_os c' = sys_os c \<Longrightarrow> sys_teardown c' = sys_teardown c \<Longrightarrow> clean_end tbl c (r, c')"
  by (auto simp: clean_end_def split: outcome.splits)

lemma clean_end_step:
  "clean_end tbl c (r1, c1) \<Longrightarrow> r1 \<noteq> Hangs \<Longrightarrow> clean_end tbl c1 rc \<Longrightarrow> clean_end tbl c rc"
  by (cases rc) (auto simp: clean_end_def intro: ends_closed_append split: outcome.splits)

text \<open>The steps that do not touch the table.\<close>

definition untouched :: "'os sys \<Rightarrow> 'os sys \<Rightarrow> bool" where
  "untouched c c' = (sys_os c' = sys_os c \<and> sys_teardown c' = sys_teardown c \<and> sys_events c' = sys_events c
     \<and> sys_established c' = sys_established c)"

lemma untouched_refl [simp]: "untouched c c"
  by (simp add: untouched_def)

lemma untouched_net [simp]: "untouched c (c\<lparr>sys_net := n\<rparr>)"
  by (simp add: untouched_def)

lemma untouched_with_stream: "untouched c (snd (with_stream c k))"
  by (auto simp: with_stream_def untouched_def split: prod.splits outcome.splits sum.splits)

lemma untouched_fortigate_login: "untouched c (snd (fortigate_login cfg password c))"
  by (auto simp: fortigate_login_def untouched_def split: prod.splits outcome.splits sum.splits)

lemma clean_untouched: "untouched c c1 \<Longrightarrow> clean_end tbl c1 rc \<Longrightarrow> clean_end tbl c rc"
  by (cases rc) (auto simp: clean_end_def untouched_def split: outcome.splits)

lemma clean_sys_then:
  assumes "untouched c (snd rc)" "\<And>a c1. rc = (Returned (Inr a), c1) \<Longrightarrow> clean_end tbl c1 (k a c1)"
  shows "clean_end tbl c (sys_then rc k)"
proof (cases rc)
  case (Pair r c1)
  then show ?thesis
    using assms
    by (cases r rule: outcome.exhaust)
       (auto simp: sys_then_def untouched_def intro: clean_endI clean_untouched[unfolded untouched_def] split: sum.splits)
qed

context route_table
begin

lemma pipeline_clean: "clean_end tbl c (run_pipeline radd rdel env params routes fr prime c)"
proof -
  show ?thesis
  proof (cases "ae_open_tun env params")
    case (Inl e)
    then show ?thesis by (auto simp: run_pipeline_def intro: clean_endI)
  next
    case open': (Inr u)
    show ?thesis
    proof (cases "ae_if_index env")
      case (Inl e)
      then show ?thesis using open' by (auto simp: run_pipeline_def clean_end_def)
    next
      case (Inr ifx)
      obtain ir os1 where inst: "install_routes radd rdel (ae_route_handle env) ifx routes (sys_os c) = (ir, os1)"
        by (cases "install_routes radd rdel (ae_route_handle env) ifx routes (sys_os c)")
      note laws = install_routes_tbl[where handle = "ae_route_handle env" and ifx = ifx and rs = routes and os = "sys_os c", unfolded inst]
      show ?thesis
      proof (cases ir)
        case (Inl e)
        then show ?thesis using open' Inr inst laws by (auto simp: run_pipeline_def clean_end_def)
      next
        case guard: (Inr guard)
        then show ?thesis using open' Inr inst laws
          by (auto simp: run_pipeline_def clean_end_def run_forwarding_def emit_def Let_def remove_all_def
              split: prod.splits option.splits)
      qed
    qed
  qed
qed

lemma anyconnect_clean: "clean_end tbl c (connect_anyconnect radd rdel cfg password env c)"
  unfolding connect_anyconnect_def
  by (rule clean_sys_then[OF untouched_with_stream]) (rule pipeline_clean)

lemma checkpoint_tunnel_clean: "clean_end tbl c (connect_checkpoint_tunnel radd rdel ck env c)"
  unfolding connect_checkpoint_tunnel_def Let_def
  by (rule clean_sys_then[OF untouched_with_stream]) (rule pipeline_clean)

lemma checkpoint_clean: "clean_end tbl c (connect_checkpoint radd rdel cfg password env c)"
proof -
  obtain r n where auth: "authenticate_checkpoint (sys_net c) (cfg_host cfg) (cfg_username cfg) password = (r, n)"
    by (cases "authenticate_checkpoint (sys_net c) (cfg_host cfg) (cfg_username cfg) password")
  have "clean_end tbl c1
      (case active_key_deobfuscated ccc of
         Inl e \<Rightarrow> (Returned (Inl e), c1)
       | Inr ck \<Rightarrow>
           (case connect_checkpoint_tunnel radd rdel ck env c1 of
              (Returned result, c2) \<Rightarrow>
                if cs_session_id ccc = [] then (Returned result, c2)
                else (case signout_checkpoint (sys_net c2) (cfg_host cfg) (cs_session_id ccc) of
                        (Returned _, n2) \<Rightarrow> (Returned result, c2\<lparr>sys_net := n2\<rparr>)
                      | (Panicked, n2) \<Rightarrow> (Panicked, c2\<lparr>sys_net := n2\<rparr>)
                      | (Hangs, n2) \<Rightarrow> (Hangs, c2\<lparr>sys_net := n2\<rparr>))
            | (Panicked, c2) \<Rightarrow> (Panicked, c2)
            | (Hangs, c2) \<Rightarrow> (Hangs, c2)))" for ccc c1
  proof (cases "active_key_deobfuscated ccc")
    case (Inr ck)
    then show ?thesis using checkpoint_tunnel_clean[of c1 ck env]
      by (auto simp: clean_end_def split: prod.splits outcome.splits)
  qed (auto intro: clean_endI)
  then show ?thesis unfolding connect_checkpoint_def auth prod.case by (intro clean_sys_then) simp_all
qed

lemma fortigate_clean: "clean_end tbl c (connect_fortigate radd rdel cfg password env c)"
proof -
  have inner: "clean_end tbl c1
      (sys_then (with_stream c1 (open_tunnel (ae_systime env) ck)) (\<lambda>(ppp, prime) c2.
         let routes = (if fc_routes fc = [] then vpn_routes else fc_routes fc) in
         run_pipeline radd rdel env (to_session_params fc (Some ppp)) routes (forti_framer_new (ppp_magic ppp)) prime c2))"
    for ck fc c1
    by (rule clean_sys_then[OF untouched_with_stream]) (auto simp: Let_def pipeline_clean)
  show ?thesis
    unfolding connect_fortigate_def
    by (rule clean_sys_then[OF untouched_fortigate_login]) (use inner in \<open>force split: prod.splits\<close>)
qed

lemma connect_clean: "clean_end tbl c (connect radd rdel cfg password env c)"
  by (cases "cfg_protocol cfg") (simp_all add: connect_def anyconnect_clean checkpoint_clean fortigate_clean)

lemma supervise_clean:
  assumes "\<And>env c. clean_end tbl c (conn env c)"
  shows "clean_end tbl c (supervise conn attempt envs c)"
proof (induction envs arbitrary: attempt c)
  case Nil
  then show ?case by (simp add: clean_end_def)
next
  case (Cons env envs)
  have emit: "clean_end tbl c (r, emit ev c')" if "clean_end tbl c (r', c')" "r' \<noteq> Hangs" for r r' ev c'
    using that by (auto simp: clean_end_def emit_def split: outcome.splits)
  let ?c0 = "emit Ev_Connecting (c\<lparr>sys_established := False\<rparr>)"
  obtain r c1 where conn: "conn env ?c0 = (r, c1)" by (cases "conn env ?c0")
  have "clean_end tbl ?c0 (r, c1)" using assms[of ?c0 env] conn by simp
  then have c1: "clean_end tbl c (r, c1)" by (cases r) (simp_all add: clean_end_def emit_def)
  have again: "clean_end tbl c (supervise conn k envs (emit ev c1))" if "r \<noteq> Hangs" for k ev
    by (rule clean_end_step[OF emit[OF c1 that, of r] that Cons.IH])
  have two: "clean_end tbl c (Returned x, emit ev1 (emit ev2 c1))" if "r \<noteq> Hangs" for x ev1 ev2
    by (rule emit[OF emit[OF c1 that, of "r"] that])
  have one: "clean_end tbl c (Returned x, emit ev1 c1)" if "r \<noteq> Hangs" for x ev1
    by (rule emit[OF c1 that])
  have none: "clean_end tbl c (Returned x, emit ev1 c)" for x ev1
    by (auto simp: emit_def intro: clean_endI)
  show ?case
    using c1 none by (cases r) (auto simp: conn Let_def one two again split: sum.splits)
qed

end


definition example_env :: attempt_env where
  "example_env =
     \<lparr>ae_open_tun = (\<lambda>_. Inr ()), ae_if_index = Inr 7, ae_route_handle = None, ae_wakes = (\<lambda>_. []),
      ae_tls_script = [], ae_tun_script = [], ae_systime = None, ae_shutdown_before = False,
      ae_shutdown_after = False, ae_shutdown_backoff = True, ae_lasted = 0, ae_jitter_nanos = 0\<rparr>"

definition example_sys :: "list_table sys" where
  "example_sys =
     \<lparr>sys_os = \<lparr>lt_routes = [Route unspecified 0 2], lt_refuse = []\<rparr>,
      sys_net = \<lparr>net_clock = 0, net_dials = [(10, Inl (Tls ''unreachable''))], dials_made = 0\<rparr>,
      sys_events = [], sys_established = False, sys_teardown = []\<rparr>"

lemma example_sys_fields [simp]:
  "lt_routes (sys_os example_sys) = [Route unspecified 0 2]" "sys_teardown example_sys = []"
  "sys_events example_sys = []"
  by (simp_all add: example_sys_def)


end
