(* ===== verification/Client_Events.thy ===== *)
theory Client_Events
  imports Client_Correct
begin

text \<open>
  The order of the events that the client sends to its supervisor, the delays
  between its attempts, and the release of Check Point sessions.
\<close>

section \<open>The protocol of the events\<close>

datatype client_state = Idle | Trying | Up | Waiting | Finished

fun client_step :: "client_state \<Rightarrow> client_event \<Rightarrow> client_state option" where
  "client_step Idle Ev_Connecting = Some Trying"
| "client_step Waiting Ev_Connecting = Some Trying"
| "client_step Trying Ev_Established = Some Up"
| "client_step Trying (Ev_Reconnecting _) = Some Waiting"
| "client_step Up (Ev_Reconnecting _) = Some Waiting"
| "client_step Finished _ = None"
| "client_step _ Ev_Disconnected = Some Finished"
| "client_step Trying (Ev_Permanent_Error _) = Some Finished"
| "client_step Up (Ev_Permanent_Error _) = Some Finished"
| "client_step _ _ = None"

fun client_steps :: "client_state \<Rightarrow> client_event list \<Rightarrow> client_state option" where
  "client_steps q [] = Some q"
| "client_steps q (e # es) = (case client_step q e of None \<Rightarrow> None | Some q' \<Rightarrow> client_steps q' es)"

lemma client_steps_append:
  "client_steps q (xs @ ys) = opt_bind (client_steps q xs) (\<lambda>q'. client_steps q' ys)"
  by (induction xs arbitrary: q) (auto simp: opt_bind_def split: option.splits)

text \<open>An attempt reports at most that the tunnel is up, and keeps the flag in step.\<close>

definition reports_up :: "'os sys \<Rightarrow> 'a outcome \<times> 'os sys \<Rightarrow> bool" where
  "reports_up c rc =
     (sys_events (snd rc) = sys_events c @ (if sys_established (snd rc) then [Ev_Established] else []))"

lemma reports_up_untouched: "untouched c c1 \<Longrightarrow> reports_up c1 rc \<Longrightarrow> reports_up c rc"
  by (simp add: reports_up_def untouched_def)

lemma reports_up_same: "untouched c c1 \<Longrightarrow> \<not> sys_established c \<Longrightarrow> reports_up c (r, c1)"
  by (simp add: reports_up_def untouched_def)

lemma reports_up_sys_then:
  assumes "untouched c (snd rc)" "\<not> sys_established c"
    "\<And>a c1. \<not> sys_established c1 \<Longrightarrow> reports_up c1 (k a c1)"
  shows "reports_up c (sys_then rc k)"
proof (cases rc)
  case (Pair r c1)
  then have c1: "untouched c c1" "\<not> sys_established c1" using assms(1,2) by (simp_all add: untouched_def)
  have "reports_up c (k a c1)" for a by (rule reports_up_untouched[OF c1(1) assms(3)[OF c1(2)]])
  then show ?thesis
    using Pair reports_up_same[OF c1(1) assms(2)]
    by (cases r) (auto simp: sys_then_def split: sum.splits)
qed

lemma pipeline_reports: "\<not> sys_established c \<Longrightarrow> reports_up c (run_pipeline radd rdel env params routes fr prime c)"
  by (simp add: run_pipeline_def reports_up_def emit_def Let_def split: sum.splits prod.splits option.splits)

lemma checkpoint_tunnel_reports:
  "\<not> sys_established c \<Longrightarrow> reports_up c (connect_checkpoint_tunnel radd rdel ck env c)"
  unfolding connect_checkpoint_tunnel_def Let_def
  by (rule reports_up_sys_then[OF untouched_with_stream]) (simp_all add: pipeline_reports)

lemma connect_reports:
  assumes "\<not> sys_established c"
  shows "reports_up c (connect radd rdel cfg password env c)"
proof (cases "cfg_protocol cfg")
  case AnyConnect
  then show ?thesis unfolding connect_def connect_anyconnect_def
    using assms by (simp, intro reports_up_sys_then[OF untouched_with_stream]) (simp_all add: pipeline_reports)
next
  case FortiGate
  have inner: "reports_up c1
      (sys_then (with_stream c1 (open_tunnel (ae_systime env) ck)) (\<lambda>(ppp, prime) c2.
         let routes = (if fc_routes fc = [] then vpn_routes else fc_routes fc) in
         run_pipeline radd rdel env (to_session_params fc (Some ppp)) routes (forti_framer_new (ppp_magic ppp)) prime c2))"
    if "\<not> sys_established c1" for ck fc c1
    using that by (intro reports_up_sys_then[OF untouched_with_stream]) (auto simp: Let_def pipeline_reports)
  show ?thesis using FortiGate assms unfolding connect_def connect_fortigate_def
    by (simp, intro reports_up_sys_then[OF untouched_fortigate_login]) (use inner in \<open>force split: prod.splits\<close>)+
next
  case Checkpoint
  obtain r n where auth: "authenticate_checkpoint (sys_net c) (cfg_host cfg) (cfg_username cfg) password = (r, n)"
    by (cases "authenticate_checkpoint (sys_net c) (cfg_host cfg) (cfg_username cfg) password")
  have tunnel: "reports_up c1
      (case active_key_deobfuscated ccc of
         Inl e \<Rightarrow> (Returned (Inl e), c1)
       | Inr ck \<Rightarrow>
           (case connect_checkpoint_tunnel radd rdel ck env c1 of
              (Returned result, c2) \<Rightarrow>
                if cs_session_id ccc = [] then (Returned result, c2)
                else (case signout_checkpoint (sys_net c2) (cfg_host cfg) (cs_session_id ccc) of
                        (Returned _, n2) \<Rightarrow> (Returned result, c2\<lparr>sys_net := n2\<rparr>)
                      | (Panicked, n2) \<Rightarrow> (Panicked, c2\<lparr>sys_net := n2\<rparr>)
                      | (Hangs, n2) \<Rightarrow> (Hangs, c2\<lparr>sys_net := n2\<rparr>))
            | (Panicked, c2) \<Rightarrow> (Panicked, c2)
            | (Hangs, c2) \<Rightarrow> (Hangs, c2)))" if "\<not> sys_established c1" for ccc c1
  proof (cases "active_key_deobfuscated ccc")
    case (Inr ck)
    then show ?thesis using checkpoint_tunnel_reports[OF that, of radd rdel ck env]
      by (auto simp: reports_up_def split: prod.splits outcome.splits)
  qed (use that in \<open>simp add: reports_up_def\<close>)
  show ?thesis
    unfolding connect_def connect_checkpoint_def Checkpoint protocol.case auth prod.case
    by (rule reports_up_sys_then) (use assms tunnel in simp_all)
qed

text \<open>The loop, for any attempt that reports as above.\<close>

definition protocol_ok :: "client_state \<Rightarrow> 'os sys \<Rightarrow> unit outcome \<times> 'os sys \<Rightarrow> bool" where
  "protocol_ok q c rc =
     (\<exists>evs. sys_events (snd rc) = sys_events c @ evs
        \<and> (case fst rc of
             Returned (Inr _) \<Rightarrow> client_steps q evs = Some Finished \<and> last evs = Ev_Disconnected
           | Returned (Inl e) \<Rightarrow> client_steps q evs = Some Finished \<and> last evs = Ev_Permanent_Error (show_error e)
               \<and> is_permanent e
           | _ \<Rightarrow> client_steps q evs \<noteq> None \<and> client_steps q evs \<noteq> Some Finished))"

lemma protocol_ok_prefix:
  assumes "sys_events c1 = sys_events c @ xs" "client_steps q xs = Some q1" "q1 \<noteq> Finished" "protocol_ok q1 c1 rc"
  shows "protocol_ok q c rc"
proof -
  obtain evs where evs: "sys_events (snd rc) = sys_events c1 @ evs"
    "case fst rc of
       Returned (Inr _) \<Rightarrow> client_steps q1 evs = Some Finished \<and> last evs = Ev_Disconnected
     | Returned (Inl e) \<Rightarrow> client_steps q1 evs = Some Finished \<and> last evs = Ev_Permanent_Error (show_error e)
         \<and> is_permanent e
     | _ \<Rightarrow> client_steps q1 evs \<noteq> None \<and> client_steps q1 evs \<noteq> Some Finished"
    using assms(4) unfolding protocol_ok_def by blast
  have "evs \<noteq> []" if "client_steps q1 evs = Some Finished" using that assms(3) by auto
  then have "last (xs @ evs) = last evs" if "client_steps q1 evs = Some Finished" using that by simp
  then show ?thesis unfolding protocol_ok_def
    using evs assms(1,2)
    by (intro exI[of _ "xs @ evs"]) (auto simp: client_steps_append split: outcome.splits sum.splits)
qed

lemma protocol_ok_emit:
  "client_step q ev = Some Finished \<Longrightarrow> ev = Ev_Disconnected \<Longrightarrow> protocol_ok q c (Returned (Inr u), emit ev c)"
  "client_step q ev = Some Finished \<Longrightarrow> ev = Ev_Permanent_Error (show_error e) \<Longrightarrow> is_permanent e \<Longrightarrow>
     protocol_ok q c (Returned (Inl e), emit ev c)"
  by (auto simp: protocol_ok_def emit_def)

lemma supervise_protocol:
  assumes "\<And>env c. \<not> sys_established c \<Longrightarrow> reports_up c (conn env c)"
  shows "q = Idle \<or> q = Waiting \<Longrightarrow> protocol_ok q c (supervise conn attempt envs c)"
proof (induction envs arbitrary: q attempt c)
  case Nil
  then show ?case by (auto simp: protocol_ok_def)
next
  case (Cons env envs)
  let ?c0 = "emit Ev_Connecting (c\<lparr>sys_established := False\<rparr>)"
  obtain r c1 where conn: "conn env ?c0 = (r, c1)" by (cases "conn env ?c0")
  define q1 where "q1 = (if sys_established c1 then Up else Trying)"
  let ?xs = "Ev_Connecting # (if sys_established c1 then [Ev_Established] else [])"
  have "reports_up ?c0 (r, c1)" using assms[of ?c0 env] conn by (simp add: emit_def)
  then have c1: "sys_events c1 = sys_events c @ ?xs" "client_steps q ?xs = Some q1"
    using Cons.prems by (auto simp: reports_up_def emit_def q1_def)
  have q1: "q1 \<noteq> Finished" by (simp add: q1_def)
  note step = protocol_ok_prefix[OF c1 q1]
  have stops: "client_step q1 Ev_Disconnected = Some Finished" "client_step q1 (Ev_Permanent_Error m) = Some Finished"
    "client_step q1 (Ev_Reconnecting d) = Some Waiting" for m d
    by (simp_all add: q1_def)
  have first: "client_step q Ev_Disconnected = Some Finished" using Cons.prems by auto
  have wait: "protocol_ok q c rc" if "protocol_ok Waiting (emit (Ev_Reconnecting d) c1) rc" for rc d
    by (rule step, rule protocol_ok_prefix[OF _ _ _ that, of _ "[Ev_Reconnecting d]"]) (simp_all add: emit_def stops)
  have stuck: "protocol_ok q c (Panicked, c1)" "protocol_ok q c (Hangs, c1)"
    by (rule step, use q1 in \<open>simp add: protocol_ok_def\<close>)+
  show ?case
  proof (cases "ae_shutdown_before env")
    case True
    then show ?thesis using protocol_ok_emit(1)[OF first refl] by simp
  next
    case before: False
    show ?thesis
    proof (cases r)
      case (Returned x)
      show ?thesis
      proof (cases x)
        case (Inr u)
        then show ?thesis using before Returned step[OF protocol_ok_emit(1)[OF stops(1) refl]] by (simp add: conn)
      next
        case (Inl e)
        show ?thesis
        proof (cases "is_permanent e")
          case True
          then show ?thesis using before Returned Inl step[OF protocol_ok_emit(2)[OF stops(2) refl True]] by (simp add: conn)
        next
          case False
          have d: "client_step Waiting Ev_Disconnected = Some Finished" by simp
          show ?thesis
            using before Returned Inl False step[OF protocol_ok_emit(1)[OF stops(1) refl]]
              wait[OF protocol_ok_emit(1)[OF d refl]] wait[OF Cons.IH[of Waiting]]
            by (simp add: conn Let_def)
        qed
      qed
    qed (use before stuck in \<open>simp_all add: conn\<close>)
  qed
qed

lemma client_protocol_ok: "protocol_ok Idle c (run_client_supervised radd rdel cfg password envs c)"
  unfolding run_client_supervised_def by (rule supervise_protocol) (simp_all add: connect_reports)

text \<open>
  C8: the supervisor sees a well-formed story.  The events follow the state
  machine: attempts begin with \<open>Connecting\<close>, the tunnel comes up at most once per
  attempt, a wait is announced between attempts; when the client returns the last
  event is \<open>Disconnected\<close> if it returned \<open>Ok\<close>, and the permanent error with its
  text if it returned an error, which is never a transient one; and neither occurs
  before.
\<close>

theorem client_events_protocol:
  "\<exists>evs. sys_events (snd (run_client_supervised radd rdel cfg password envs c)) = sys_events c @ evs
     \<and> (case fst (run_client_supervised radd rdel cfg password envs c) of
          Returned (Inr _) \<Rightarrow> client_steps Idle evs = Some Finished \<and> last evs = Ev_Disconnected
        | Returned (Inl e) \<Rightarrow> client_steps Idle evs = Some Finished \<and> last evs = Ev_Permanent_Error (show_error e)
            \<and> is_permanent e
        | _ \<Rightarrow> client_steps Idle evs \<noteq> None \<and> client_steps Idle evs \<noteq> Some Finished)"
  using client_protocol_ok unfolding protocol_ok_def .

section \<open>The delays\<close>

definition delays :: "client_event list \<Rightarrow> nat list" where
  "delays evs = List.map_filter (\<lambda>ev. case ev of Ev_Reconnecting d \<Rightarrow> Some d | _ \<Rightarrow> None) evs"

lemma delays_simps [simp]:
  "delays [] = []" "delays (Ev_Reconnecting d # evs) = d # delays evs" "delays (Ev_Connecting # evs) = delays evs"
  "delays (Ev_Established # evs) = delays evs" "delays (Ev_Disconnected # evs) = delays evs"
  "delays (Ev_Permanent_Error m # evs) = delays evs" "delays (xs @ ys) = delays xs @ delays ys"
  by (simp_all add: delays_def List.map_filter_def)

lemma delays_emit [simp]: "delays (sys_events (emit ev c)) = delays (sys_events c) @ delays [ev]"
  by (simp add: emit_def)

lemma supervise_delays:
  assumes conn: "\<And>env c. \<not> sys_established c \<Longrightarrow> reports_up c (conn env c)"
  shows "list_all (\<lambda>env. ae_lasted env < MIN_SUSTAINED_SESSION) envs \<Longrightarrow> attempt + length envs < 2 ^ 32 \<Longrightarrow>
    \<exists>ds. delays (sys_events (snd (supervise conn attempt envs c))) = delays (sys_events c) @ ds
      \<and> prefix ds (map (\<lambda>(k, env). backoff_delay k (ae_jitter_nanos env)) (enumerate attempt envs))"
proof (induction envs arbitrary: attempt c)
  case Nil
  then show ?case by simp
next
  case (Cons env envs)
  let ?c0 = "emit Ev_Connecting (c\<lparr>sys_established := False\<rparr>)"
  let ?d = "backoff_delay attempt (ae_jitter_nanos env)"
  obtain r c1 where r: "conn env ?c0 = (r, c1)" by (cases "conn env ?c0")
  have "reports_up ?c0 (r, c1)" using conn[of ?c0 env] r by (simp add: emit_def)
  then have c1: "delays (sys_events c1) = delays (sys_events c)" by (auto simp: reports_up_def emit_def)
  have short: "\<not> MIN_SUSTAINED_SESSION \<le> ae_lasted env" "min (Suc attempt) (2 ^ 32 - 1) = Suc attempt"
    using Cons.prems by auto
  have none: "\<exists>ds. delays (sys_events c') = delays (sys_events c) @ ds
      \<and> prefix ds (map (\<lambda>(k, env). backoff_delay k (ae_jitter_nanos env)) (enumerate attempt (env # envs)))"
    if "delays (sys_events c') = delays (sys_events c)" for c' :: "'a sys"
    using that by simp
  have wait: "\<exists>ds. delays (sys_events c') = delays (sys_events c) @ ds
      \<and> prefix ds (map (\<lambda>(k, env). backoff_delay k (ae_jitter_nanos env)) (enumerate attempt (env # envs)))"
    if "delays (sys_events c') = delays (sys_events c) @ ?d # ds"
      "prefix ds (map (\<lambda>(k, env). backoff_delay k (ae_jitter_nanos env)) (enumerate (Suc attempt) envs))" for ds and c' :: "'a sys"
    using that by (intro exI[of _ "?d # ds"]) (simp add: enumerate_eq_zip upt_rec)
  show ?case
  proof (cases "\<exists>e. r = Returned (Inl e) \<and> \<not> is_permanent e \<and> \<not> ae_shutdown_before env \<and> \<not> ae_shutdown_after env
      \<and> \<not> ae_shutdown_backoff env")
    case True
    then have "supervise conn attempt (env # envs) c = supervise conn (Suc attempt) envs (emit (Ev_Reconnecting ?d) c1)"
      using short by (auto simp: r Let_def)
    then show ?thesis
      using Cons.IH[of "Suc attempt" "emit (Ev_Reconnecting ?d) c1"] Cons.prems c1 wait by force
  next
    case False
    then show ?thesis
      using c1 short(1) none wait[of _ "[]"]
      by (cases r) (auto simp: r Let_def split: sum.splits)
  qed
qed



end
