(* ===== verification/Client_Signout.thy ===== *)
theory Client_Signout
  imports Client_Events
begin

text \<open>
  How many connections a Check Point attempt makes, which shows when the session
  is released on the gateway and when it is not.
\<close>

section \<open>Counting connections\<close>

lemma dial_counts: "dial n = (r, n') \<Longrightarrow> dials_made n' = dials_made n + 1"
  by (auto simp: dial_def Let_def split: list.splits prod.splits)

lemma clients_exchange_counts: "clients_exchange n host body = (r, n') \<Longrightarrow> dials_made n' = dials_made n + 1"
  by (auto simp: clients_exchange_def split: prod.splits outcome.splits sum.splits dest: dial_counts)

lemma authenticate_checkpoint_counts:
  "authenticate_checkpoint n host u p = (r, n') \<Longrightarrow> dials_made n' = dials_made n + 1"
  by (auto simp: authenticate_checkpoint_def split: prod.splits dest: clients_exchange_counts)

lemma signout_checkpoint_counts:
  "signout_checkpoint n host i = (r, n') \<Longrightarrow> dials_made n' = dials_made n + 1"
  by (auto simp: signout_checkpoint_def split: prod.splits dest: clients_exchange_counts)

lemma with_stream_counts: "dials_made (sys_net (snd (with_stream c k))) = dials_made (sys_net c) + 1"
  by (auto simp: with_stream_def split: prod.splits outcome.splits sum.splits dest: dial_counts)

lemma pipeline_counts: "sys_net (snd (run_pipeline radd rdel env params routes fr prime c)) = sys_net c"
  by (simp add: run_pipeline_def emit_def Let_def split: sum.splits prod.splits option.splits)

lemma tunnel_counts:
  "dials_made (sys_net (snd (connect_checkpoint_tunnel radd rdel ck env c))) = dials_made (sys_net c) + 1"
proof -
  let ?k = "\<lambda>s. case establish_session ck hello_opts_default s of (r, s') \<Rightarrow> (Returned r, s')"
  obtain r c1 where w: "with_stream c ?k = (r, c1)" by (cases "with_stream c ?k")
  then have "dials_made (sys_net c1) = dials_made (sys_net c) + 1" using with_stream_counts[of c ?k] by simp
  then show ?thesis
    unfolding connect_checkpoint_tunnel_def w
    by (cases r) (simp_all add: sys_then_def Let_def pipeline_counts split: sum.splits)
qed


section \<open>An example\<close>

definition example_response :: ccc where
  "example_response = Node (Some ''CCCserverResponse'')
     [(''ResponseHeader'', Node None [(''return_code'', Atom ''600''), (''session_id'', Atom ''s1'')]),
      (''ResponseData'', Node None [(''active_key'', Atom ''abc'')])]"

definition example_login :: network where
  "example_login =
     \<lparr>net_clock = 0,
      net_dials = [(0, Inr (silent_after [(0, Data (bytes_of_str (CRLF @ CRLF @ to_wire example_response))), (0, Data [])]))],
      dials_made = 0\<rparr>"

lemma example_response_parsed: "ccc_parse (to_wire example_response) = Inr example_response"
  by (rule ccc_parse_written)
     (simp_all add: example_response_def document_ok_def token_eval to_wire_def MAX_DEPTH_def MAX_INPUT_LEN_def)

lemma trim_nul_ws_parens: "trim_nul_ws (CHR ''('' # t @ [CHR '')'']) = CHR ''('' # t @ [CHR '')'']"
proof -
  have "ws_prefix (CHR ''('' # u) = 0" "ws_suffix_rev (CHR '')'' # u) = 0" for u
    by (rule ws_prefix_0_if_ascii ws_suffix_rev_0_if_ascii, simp add: ascii_ws_def)+
  then show ?thesis
    by (simp add: trim_nul_ws_def drop_while_prefix_id nul_ws_prefix_def nul_ws_suffix_rev_def)
qed

lemma example_body: "ccc_body (bytes_of_str (CRLF @ CRLF @ to_wire example_response)) = to_wire example_response"
proof -
  obtain t where t: "to_wire example_response = CHR ''('' # t @ [CHR '')'']"
    by (simp add: example_response_def to_wire_def)
  have "utf8_lossy (bytes_of_str (CRLF @ CRLF @ to_wire example_response)) = CRLF @ CRLF @ to_wire example_response"
    by (rule utf8_lossy_ascii) (simp add: example_response_def to_wire_def CRLF_def)
  then show ?thesis
    unfolding t ccc_body_def by (simp add: Let_def CRLF_def trim_nul_ws_parens)
qed

lemma example_session:
  "parse_ccc_response (to_wire example_response)
     = Inr \<lparr>cs_session_id = ''s1'', cs_active_key = ''abc'', cs_tcpt_port = 443\<rparr>"
proof -
  have "parse_uint (2 ^ 32) ''600'' = Some 600"
    by (simp add: parse_uint_def parse_radix_def digit_val.simps Let_def)
  then show ?thesis
    unfolding parse_ccc_response_def example_response_parsed
    by (simp add: example_response_def get_atom_def DEFAULT_TCPT_PORT_def)
qed

lemma example_login_succeeds:
  "\<exists>n. authenticate_checkpoint example_login ''h'' ''u'' ''p''
     = (Returned (Inr \<lparr>cs_session_id = ''s1'', cs_active_key = ''abc'', cs_tcpt_port = 443\<rparr>), n)"
proof -
  let ?b = "bytes_of_str (CRLF @ CRLF @ to_wire example_response)"
  have len: "length ?b < 1000" by (simp add: example_response_def to_wire_def CRLF_def)
  have "?b \<noteq> []" by (simp add: CRLF_def)
  then have body: "fst (read_http_body s) = Returned (Inr (to_wire example_response))"
    if "inbox s = [(0, Data ?b), (0, Data [])]" for s
    using read_http_body_loop_all[of "[?b]" "[]" s "Data []"] len example_body that
    by (simp add: read_http_body_def CP_AUTH_RESPONSE_MAX_def del: bytes_of_str_simps)
  obtain s n where d: "dial example_login = (Returned (Inr s), n)" "inbox s = [(0, Data ?b), (0, Data [])]" "write_script s = []"
    by (simp add: dial_def example_login_def silent_after_def)
  let ?q = "http_post_clients ''h'' (build_userpass_request ''u'' ''p'' (Suc 0))"
  obtain s1 where w: "write_flush (bytes_of_str ?q) s = (Inr (), s1)" "inbox s1 = inbox s"
    using d(3) by (simp add: write_flush_def)
  obtain s2 where "read_http_body s1 = (Returned (Inr (to_wire example_response)), s2)"
    using body[of s1] w(2) d(2) by (cases "read_http_body s1") simp
  then show ?thesis
    by (simp add: authenticate_checkpoint_def clients_exchange_def d(1) w(1) example_session)
qed


end
