(* ===== verification/Forward_Correct.thy ===== *)
theory Forward_Correct
  imports Forward
begin

text \<open>
  What the forwarding loop guarantees: how it can end, that a silent peer is
  detected, that the packets of either direction arrive complete and in order.
\<close>

section \<open>Exits\<close>

lemma fr_decode_error: "fr_try_decode fr b = (Inl e, b') \<Longrightarrow> \<not> is_permanent e"
proof -
  have cstp: "\<not> is_permanent e" if "try_decode_cstp b = (Inl e, b')" for b e b'
    using that by (cases b rule: cstp_frame_cases)
      (auto simp: try_decode_cstp_short try_decode_cstp_Cons Let_def cstp_from_u8_def split: if_splits)
  have slim: "\<not> is_permanent e" if "try_decode_slim b = (Inl e, b')" for b e b'
    using that by (cases b rule: slim_frame_cases)
      (auto simp: try_decode_slim_short try_decode_slim_Cons Let_def slim_packet_of_def res
        dest!: ccc_parse_error split: if_splits)
  have forti: "\<not> is_permanent e" if "try_decode_frame b = (Inl e, b')" for b e b'
    using that by (cases b rule: forti_frame_cases)
      (auto simp: try_decode_frame_short try_decode_frame_Cons Let_def split: if_splits)
  have ppp: "\<not> is_permanent e" if "try_decode_ppp b = (Inl e, b')" for b e b'
    using that forti by (auto simp: try_decode_ppp_def split: prod.splits sum.splits option.splits)
  have map: "\<exists>b'. dec b = (Inl e, b')" if "map_decoder g dec b = (Inl e, b')" for g b b' e and dec :: "'x decoder"
    using that by (auto simp: map_decoder_def split: prod.splits sum.splits option.splits)
  show "fr_try_decode fr b = (Inl e, b') \<Longrightarrow> \<not> is_permanent e"
    by (cases fr) (auto simp: cstp_try_decode_def slim_try_decode_def forti_try_decode_def
        dest!: map cstp slim ppp)
qed

lemma drain_loop_exit: "drain_loop st = (Some r, st') \<Longrightarrow> \<exists>e. r = Inl e \<and> \<not> is_permanent e"
proof (induction st rule: drain_loop.induct)
  case (1 st)
  have ev: "\<exists>e. r = Inl e \<and> \<not> is_permanent e" if "handle_event ev s = (Some r, s')" for ev s s'
    using that by (auto simp: handle_event_def or_break_def split: frame_event.splits prod.splits option.splits)
  show ?case
  proof (cases "fw_inbound st" rule: fr.decode_cases[where fr = "fw_framer st"])
    case (frame f b')
    then show ?thesis
      using 1 ev by (auto simp: drain_loop.simps[of st] split: prod.splits option.splits)
  qed (use "1.prems" fr_decode_error in \<open>auto simp: drain_loop.simps[of st]\<close>)
qed

lemma or_break_exit:
  "or_break w k = (Some r, st') \<Longrightarrow> (\<And>st. k st = (Some r, st') \<Longrightarrow> \<exists>e. r = Inl e \<and> \<not> is_permanent e) \<Longrightarrow>
     \<exists>e. r = Inl e \<and> \<not> is_permanent e"
  by (auto simp: or_break_def split: prod.splits option.splits)

lemma arm_exits:
  "tick_arm st = (Some r, st') \<Longrightarrow> \<exists>e. r = Inl e \<and> \<not> is_permanent e"
  "tun_arm mtu reads st = (Some r, st') \<Longrightarrow> \<exists>e. r = Inl e \<and> \<not> is_permanent e"
  "tls_arm ev st = (Some r, st') \<Longrightarrow> \<exists>e. r = Inl e \<and> \<not> is_permanent e"
  by (auto simp: tick_arm_def tun_arm_def tls_arm_def Let_def peer_unresponsive_def
      split: prod.splits if_splits tun_result.splits option.splits read_event.splits
      elim!: or_break_exit dest: drain_loop_exit)

lemma select_exit:
  "select mtu w st = (r, st') \<Longrightarrow>
   (case r of
     Some (Inr _) \<Rightarrow> w_shutdown w
   | Some (Inl e) \<Rightarrow> \<not> w_shutdown w \<and> \<not> is_permanent e
   | None \<Rightarrow> \<not> w_shutdown w)"
  by (cases r) (auto simp: select_def shutdown_arm_def split: if_splits option.splits dest!: arm_exits)

text \<open>
  C6: how the loop ends.  It returns \<open>Ok\<close> only when the shutdown signal was there,
  and it is never still running after a wake with the signal; every other exit (a
  failed read or write, a closed device or stream, a malformed frame, a disconnect
  from the server, a silent peer) is an error that the supervisor treats as
  transient.
\<close>

theorem forward_exits:
  "case fst (forward_loop mtu ws st) of
     Some (Inr _) \<Rightarrow> list_ex w_shutdown ws
   | Some (Inl e) \<Rightarrow> \<not> is_permanent e
   | None \<Rightarrow> \<not> list_ex w_shutdown ws"
proof (induction ws arbitrary: st)
  case (Cons w ws)
  show ?case
  proof (cases "select mtu w st")
    case (Pair r st1)
    then show ?thesis using select_exit[OF Pair] Cons.IH[of st1] by (cases r) (simp_all split: sum.splits option.splits)
  qed
qed simp

section \<open>Liveness\<close>

definition quiet :: "wake \<Rightarrow> bool" where
  "quiet w = (\<not> w_shutdown w \<and> w_tun w = None \<and> w_tls w = None)"

lemma keepalive_not_empty: "fst (fr_encode_keepalive fr) \<noteq> []"
  by (cases fr) (simp_all add: cstp_encode_keepalive_def write_header_def CSTP_MAGIC_def slim_encode_keepalive_def
      encode_control_def echo_request_def encode_ppp_def encode_ppp_append_def to_be16_def to_be32_def Let_def)

lemma tick_arm_quiet:
  assumes "fw_tls_script st = []" "fw_missed st < 3"
  shows "if fw_missed st = 2 then fst (tick_arm st) = Some (Inl peer_unresponsive)
    else \<exists>st'. tick_arm st = (None, st') \<and> fw_tls_script st' = [] \<and> fw_missed st' = fw_missed st + 1"
  using assms keepalive_not_empty[of "fw_framer st"]
  by (cases "fr_encode_keepalive (fw_framer st)")
     (auto simp: tick_arm_def tls_write_def or_break_def Let_def MAX_MISSED_KEEPALIVES_def)

lemma forward_quiet:
  "list_all quiet ws \<Longrightarrow> fw_tls_script st = [] \<Longrightarrow> fw_missed st < 3 \<Longrightarrow>
   fst (forward_loop mtu ws st) =
     (if 3 \<le> fw_missed st + length (filter w_tick ws) then Some (Inl peer_unresponsive) else None)"
proof (induction ws arbitrary: st)
  case (Cons w ws)
  show ?case
  proof (cases "w_tick w")
    case True
    then have sel: "select mtu w st = tick_arm st" using Cons.prems by (simp add: select_def quiet_def)
    show ?thesis
    proof (cases "fw_missed st = 2")
      case dead: True
      then show ?thesis using tick_arm_quiet[OF Cons.prems(2,3)] True
        by (auto simp: sel split: prod.splits option.splits)
    next
      case False
      then obtain st' where st': "tick_arm st = (None, st')" "fw_tls_script st' = []" "fw_missed st' = fw_missed st + 1"
        using tick_arm_quiet[OF Cons.prems(2,3)] by auto
      then show ?thesis using Cons.IH[of st'] Cons.prems False True by (simp add: sel)
    qed
  next
    case False
    then show ?thesis using Cons by (simp add: select_def quiet_def)
  qed
qed simp

text \<open>
  C7: a silent peer is detected.  While nothing arrives and no packet is sent, the
  loop goes on through two keepalives and gives up, with a transient error, at the
  third, whatever the protocol; FortiGate is no exception.
\<close>

theorem silent_peer_detected:
  assumes "list_all quiet ws"
  shows "fst (forward_loop mtu ws (fwd_init fr prime [] tun_script)) =
    (if 3 \<le> length (filter w_tick ws) then Some (Inl peer_unresponsive) else None)"
  using forward_quiet[OF assms, where st = "fwd_init fr prime [] tun_script" and mtu = mtu] by (simp add: fwd_init_def)

definition tick_wake :: wake where
  "tick_wake = \<lparr>w_shutdown = False, w_tick = True, w_tun = None, w_tls = None\<rparr>"

theorem silent_peer_detected_witness:
  "fst (forward_loop 1400 [tick_wake, tick_wake, tick_wake] (fwd_init (forti_framer_new 5) [] [] []))
     = Some (Inl peer_unresponsive)
   \<and> quiet tick_wake"
  using silent_peer_detected[of "[tick_wake, tick_wake, tick_wake]" 1400 "forti_framer_new 5" "[]" "[]"]
  by (simp add: quiet_def tick_wake_def)

section \<open>From the gateway to the device\<close>

definition payloads :: "frame_event list \<Rightarrow> bytes list" where
  "payloads evs = List.map_filter (\<lambda>ev. case ev of Ev_Data p \<Rightarrow> Some p | _ \<Rightarrow> None) evs"

lemma payloads_simps [simp]:
  "payloads [] = []" "payloads (Ev_Data p # evs) = p # payloads evs" "payloads (Ev_Reply b # evs) = payloads evs"
  "payloads (Ev_Ignore # evs) = payloads evs" "payloads (Ev_Disconnect r # evs) = payloads evs"
  "payloads (xs @ ys) = payloads xs @ payloads ys"
  by (simp_all add: payloads_def List.map_filter_def)

lemma payloads_Cons: "payloads (ev # evs) = payloads [ev] @ payloads evs"
  by (cases ev) simp_all

lemma payloads_data [simp]: "payloads (map Ev_Data ps) = ps"
  by (induction ps) simp_all

lemma handle_event_out:
  "handle_event ev st = (None, st') \<Longrightarrow> fw_tun_out st' = fw_tun_out st @ payloads [ev]"
  by (auto simp: handle_event_def or_break_def split: frame_event.splits prod.splits option.splits
      dest: tls_write_keeps tun_write_keeps)

lemma drain_loop_running:
  "drain_loop st = (None, st') \<Longrightarrow>
   \<exists>evs. drain (fr_try_decode (fw_framer st)) (fw_inbound st) = Some (evs, Inr (fw_inbound st'))
     \<and> fw_tun_out st' = fw_tun_out st @ payloads evs \<and> fw_framer st' = fw_framer st"
proof (induction st rule: drain_loop.induct)
  case (1 st)
  show ?case
  proof (cases "fw_inbound st" rule: fr.decode_cases[where fr = "fw_framer st"])
    case more
    have "drain_loop st = (None, st)"
      by (subst drain_loop.simps) (simp add: more)
    then show ?thesis using "1.prems" by (auto simp: fr.drain_more[OF more])
  next
    case (frame f b')
    then obtain st2 where st2: "handle_event f (st\<lparr>fw_inbound := b', fw_missed := 0\<rparr>) = (None, st2)"
      "drain_loop st2 = (None, st')"
      using "1.prems" by (auto simp: drain_loop.simps[of st] split: prod.splits option.splits)
    have keep: "fw_inbound st2 = b'" "fw_framer st2 = fw_framer st"
      using handle_event_keeps[OF st2(1)] by simp_all
    from "1.IH"[OF frame(1)[symmetric] refl refl st2(1)[symmetric] refl st2(2)]
    obtain evs where evs: "drain (fr_try_decode (fw_framer st2)) (fw_inbound st2) = Some (evs, Inr (fw_inbound st'))"
      "fw_tun_out st' = fw_tun_out st2 @ payloads evs" "fw_framer st' = fw_framer st2" by blast
    have "drain (fr_try_decode (fw_framer st)) (fw_inbound st) = Some (f # evs, Inr (fw_inbound st'))"
      using fr.drain_frame[OF frame(1)] evs(1) by (simp add: keep)
    moreover have "fw_tun_out st' = fw_tun_out st @ payloads (f # evs)"
      unfolding payloads_Cons[of f evs] evs(2) handle_event_out[OF st2(1)] by simp
    ultimately show ?thesis using evs(3) keep(2) by (intro exI[of _ "f # evs"] conjI) simp_all
  next
    case (error e b')
    have "drain_loop st = (Some (Inl e), st\<lparr>fw_inbound := b'\<rparr>)"
      by (subst drain_loop.simps) (simp add: error)
    then show ?thesis using "1.prems" by simp
  qed
qed

text \<open>The read that a wake serves.\<close>

definition served_read :: "wake \<Rightarrow> bytes list" where
  "served_read w =
     (if w_shutdown w \<or> w_tick w \<or> w_tun w \<noteq> None then []
      else case w_tls w of Some (Data d) \<Rightarrow> [d] | _ \<Rightarrow> [])"

definition served_reads :: "wake list \<Rightarrow> bytes list" where
  "served_reads ws = concat (map served_read ws)"

lemma or_break_None:
  "or_break w k = (None, st') \<Longrightarrow> \<exists>st. w = (None, st) \<and> k st = (None, st')"
  by (auto simp: or_break_def split: prod.splits option.splits)

lemma tick_arm_running:
  assumes "tick_arm st = (None, st')"
  shows "fr_try_decode (fw_framer st') = fr_try_decode (fw_framer st)
    \<and> fw_tun_out st' = fw_tun_out st \<and> fw_inbound st' = fw_inbound st"
proof -
  obtain frame fr' where k: "fr_encode_keepalive (fw_framer st) = (frame, fr')"
    by (cases "fr_encode_keepalive (fw_framer st)")
  then have "fr_try_decode fr' = fr_try_decode (fw_framer st)" by (cases "fw_framer st") (auto simp: Let_def)
  then show ?thesis using assms k
    by (auto simp: tick_arm_def Let_def split: if_splits dest!: or_break_None tls_write_keeps)
qed

lemma tun_arm_running:
  "tun_arm mtu reads st = (None, st') \<Longrightarrow> fw_framer st' = fw_framer st
    \<and> fw_tun_out st' = fw_tun_out st \<and> fw_inbound st' = fw_inbound st"
  by (auto simp: tun_arm_def Let_def split: prod.splits tun_result.splits if_splits option.splits
      dest!: or_break_None tls_write_keeps)

lemma select_running:
  assumes "select mtu w st = (None, st')"
  shows "fr_try_decode (fw_framer st') = fr_try_decode (fw_framer st) \<and>
    (case served_read w of
       [] \<Rightarrow> fw_tun_out st' = fw_tun_out st \<and> fw_inbound st' = fw_inbound st
     | d # _ \<Rightarrow> \<exists>evs. drain (fr_try_decode (fw_framer st)) (fw_inbound st @ d) = Some (evs, Inr (fw_inbound st'))
         \<and> fw_tun_out st' = fw_tun_out st @ payloads evs)"
proof -
  have ns: "\<not> w_shutdown w" using assms by (auto simp: select_def shutdown_arm_def split: if_splits)
  consider (tick) "w_tick w" | (tun) reads where "\<not> w_tick w" "w_tun w = Some reads"
    | (tls) d where "\<not> w_tick w" "w_tun w = None" "w_tls w = Some (Data d)"
    | (idle) "\<not> w_tick w" "w_tun w = None" "w_tls w = None"
    | (fail) e where "\<not> w_tick w" "w_tun w = None" "w_tls w = Some (Read_Fail e)"
    by (metis not_None_eq read_event.exhaust)
  then show ?thesis
  proof cases
    case tick
    then show ?thesis using assms ns tick_arm_running by (simp add: select_def served_read_def)
  next
    case tun
    then show ?thesis using assms ns tun_arm_running[of mtu reads st st'] by (simp add: select_def served_read_def)
  next
    case tls
    then show ?thesis using assms ns drain_loop_running[of "st\<lparr>fw_inbound := fw_inbound st @ d\<rparr>" st']
      by (auto simp: select_def tls_arm_def served_read_def split: if_splits)
  next
    case idle
    then show ?thesis using assms ns by (simp add: select_def served_read_def)
  next
    case fail
    then show ?thesis using assms ns by (simp add: select_def tls_arm_def)
  qed
qed

lemma forward_loop_inbound:
  "forward_loop mtu ws st = (None, st') \<Longrightarrow>
   \<exists>evs. feed (fr_try_decode (fw_framer st)) (fw_inbound st) (served_reads ws) = Some (evs, Inr (fw_inbound st'))
     \<and> fw_tun_out st' = fw_tun_out st @ payloads evs"
proof (induction ws arbitrary: st)
  case Nil
  then show ?case by (simp add: served_reads_def)
next
  case (Cons w ws)
  then obtain st1 where st1: "select mtu w st = (None, st1)" "forward_loop mtu ws st1 = (None, st')"
    by (auto split: prod.splits option.splits)
  from Cons.IH[OF st1(2)] obtain evs where
    evs: "feed (fr_try_decode (fw_framer st1)) (fw_inbound st1) (served_reads ws) = Some (evs, Inr (fw_inbound st'))"
    "fw_tun_out st' = fw_tun_out st1 @ payloads evs" by blast
  note sel = select_running[OF st1(1)]
  show ?case
  proof (cases "served_read w")
    case Nil
    then show ?thesis using sel evs by (simp add: served_reads_def)
  next
    case (Cons d r)
    then have r: "r = []" by (auto simp: served_read_def split: if_splits option.splits read_event.splits)
    then show ?thesis using sel evs Cons by (auto simp: served_reads_def)
  qed
qed

text \<open>
  C4: what reaches the device.  While the loop runs, whatever else is interleaved,
  the packets written to the TUN device are exactly the data frames of the byte
  stream from the gateway, the bytes carried over from the negotiation first, in
  order, none lost and none twice; until the first read of the stream nothing is
  written, even when the carried bytes hold complete frames.
\<close>

theorem inbound_delivered:
  "case forward_loop mtu ws (fwd_init fr prime tls_script tun_script) of
     (None, st') \<Rightarrow>
       (if served_reads ws = [] then fw_tun_out st' = [] \<and> fw_inbound st' = prime
        else \<exists>evs. drain (fr_try_decode fr) (prime @ concat (served_reads ws)) = Some (evs, Inr (fw_inbound st'))
           \<and> fw_tun_out st' = payloads evs)
   | (Some _, _) \<Rightarrow> True"
proof (cases "forward_loop mtu ws (fwd_init fr prime tls_script tun_script)")
  case (Pair r st')
  show ?thesis
  proof (cases r)
    case None
    from forward_loop_inbound[OF Pair[unfolded None]]
    obtain evs where "feed (fr_try_decode fr) prime (served_reads ws) = Some (evs, Inr (fw_inbound st'))"
      "fw_tun_out st' = payloads evs" by (auto simp: fwd_init_def)
    then have "\<exists>evs. drain (fr_try_decode fr) (prime @ concat (served_reads ws)) = Some (evs, Inr (fw_inbound st'))
        \<and> fw_tun_out st' = payloads evs" if "served_reads ws \<noteq> []"
      using fr.feed_chunks[OF that, of fr prime] by auto
    moreover have "fw_tun_out st' = [] \<and> fw_inbound st' = prime" if "served_reads ws = []"
      using forward_loop_inbound[OF Pair[unfolded None]] that by (auto simp: fwd_init_def)
    ultimately show ?thesis using Pair None by simp
  next
    case (Some a)
    then show ?thesis using Pair by simp
  qed
qed

section \<open>From the device to the gateway\<close>

definition packet_ok :: "framer \<Rightarrow> 16 word \<Rightarrow> bytes \<Rightarrow> bool" where
  "packet_ok fr mtu p = (p \<noteq> [] \<and> length p \<le> unat mtu + 4 \<and> fr_payload_ok fr p)"

text \<open>A wake that serves the packets \<open>p # ps\<close> of the device.\<close>

definition tun_wake :: "bytes list \<Rightarrow> wake" where
  "tun_wake ps = \<lparr>w_shutdown = False, w_tick = False, w_tun = Some (Tun_Data (hd ps), map Tun_Data (tl ps)), w_tls = None\<rparr>"

lemma collect_packets:
  "list_all (packet_ok fr mtu) ps \<Longrightarrow> length ps \<le> k \<Longrightarrow>
   collect fr (unat mtu + 4) k (map Tun_Data ps) out = (fold (fr_encode_data_append fr) ps out, False, None)"
proof (induction ps arbitrary: k out)
  case Nil
  then show ?case by (cases k) simp_all
next
  case (Cons p ps)
  then obtain k' where "k = Suc k'" by (cases k) auto
  with Cons show ?case by (simp add: packet_ok_def)
qed

lemma forward_tun_wakes:
  assumes "list_all (\<lambda>ps. ps \<noteq> [] \<and> length ps \<le> MAX_TX_BATCH \<and> list_all (packet_ok fr mtu) ps) batches"
    and "fw_framer st = fr" "fw_tls_script st = []"
  shows "forward_loop mtu (map tun_wake batches) st =
    (None, st\<lparr>fw_tls_out := fw_tls_out st @ map (\<lambda>ps. fold (fr_encode_data_append fr) ps []) batches\<rparr>)"
  using assms
proof (induction batches arbitrary: st)
  case (Cons ps batches)
  then obtain p qs where ps: "ps = p # qs" by (cases ps) auto
  let ?out = "fold (fr_encode_data_append fr) ps []"
  have p: "packet_ok fr mtu p" "list_all (packet_ok fr mtu) qs" "length qs \<le> MAX_TX_BATCH - 1"
    using Cons.prems ps by auto
  have "select mtu (tun_wake ps) st = (None, st\<lparr>fw_tls_out := fw_tls_out st @ [?out]\<rparr>)"
    using Cons.prems p collect_packets[OF p(2,3)]
    by (simp add: ps select_def tun_wake_def tun_arm_def Let_def packet_ok_def or_break_def tls_write_def)
  then show ?case
    using Cons.IH[of "st\<lparr>fw_tls_out := fw_tls_out st @ [?out]\<rparr>"] Cons.prems by simp
qed simp



end
