(* ===== verification/Ppp_Invariants.thy ===== *)
theory Ppp_Invariants
  imports Ppp_Negotiate
begin

text \<open>
  What holds of every run of the PPP negotiation: how long it takes, how much it
  sends, that what it sends is well formed, what it agrees on, and what becomes
  of the data packets that arrive while it runs.  The facts about the loop are
  proved once for \<open>neg_loop\<close>, over an arbitrary phase.
\<close>

section \<open>Time\<close>

lemma exec_step_clock:
  "exec_step st io = (r, io') \<Longrightarrow>
     clock (io_stream io') = clock (io_stream io) \<and> inbox (io_stream io') = inbox (io_stream io)
     \<and> io_buf io' = io_buf io \<and> http_checked io' = http_checked io"
  by (auto simp: exec_step_def split: prod.splits option.splits sum.splits dest!: write_flush_clock)

text \<open>The ways the reader returns from the state it has reached.\<close>

definition recv_exit where
  "recv_exit deadline io r io' \<longleftrightarrow>
     (\<exists>e. poll_frame io = (Inl e, io') \<and> r = Inl e)
     \<or> (\<exists>f. poll_frame io = (Inr (Some f), io') \<and> r = Inr (Some f))
     \<or> (\<exists>io1. poll_frame io = (Inr None, io1) \<and>
          (deadline \<le> clock (io_stream io1) \<and> r = Inr None \<and> io' = io1
           \<or> clock (io_stream io1) < deadline \<and>
             (\<exists>ev s. read_timeout (deadline - clock (io_stream io1)) (io_stream io1) = (ev, s)
               \<and> io' = io1\<lparr>io_stream := s\<rparr> \<and> (ev = None \<and> r = Inr None \<or> ev \<noteq> None \<and> (\<exists>e. r = Inl e)))))"

lemma recv_loop_rule [consumes 1, case_names init step]:
  assumes "recv_loop deadline io = (r, io')"
    and "J io"
    and "\<And>io io1 d s. J io \<Longrightarrow> poll_frame io = (Inr None, io1) \<Longrightarrow> clock (io_stream io1) < deadline \<Longrightarrow>
           read_timeout (deadline - clock (io_stream io1)) (io_stream io1) = (Some (Data d), s) \<Longrightarrow> d \<noteq> [] \<Longrightarrow>
           J (io1\<lparr>io_stream := s, io_buf := io_buf io1 @ d\<rparr>)"
  shows "\<exists>io2. J io2 \<and> recv_exit deadline io2 r io'"
  using assms(1,2)
proof (induction "length (inbox (io_stream io))" arbitrary: io rule: less_induct)
  case less
  have eq: "recv_loop deadline io = (r, io')" by fact
  obtain p io1 where p: "poll_frame io = (p, io1)" by (cases "poll_frame io")
  show ?case
  proof (cases "p = Inr None \<and> clock (io_stream io1) < deadline")
    case False
    then have "recv_exit deadline io r io'"
      using eq p by (auto simp: recv_exit_def recv_loop.simps[of deadline io] Let_def split: sum.splits option.splits)
    then show ?thesis using less.prems by blast
  next
    case True
    obtain ev s where ev: "read_timeout (deadline - clock (io_stream io1)) (io_stream io1) = (ev, s)"
      by (cases "read_timeout (deadline - clock (io_stream io1)) (io_stream io1)")
    show ?thesis
    proof (cases "\<exists>d. ev = Some (Data d) \<and> d \<noteq> []")
      case False
      then have "recv_exit deadline io r io'"
        using eq p True ev
        by (auto simp: recv_exit_def recv_loop.simps[of deadline io] Let_def
            split: option.splits read_event.splits if_splits)
      then show ?thesis using less.prems by blast
    next
      case more: True
      then obtain d where d: "ev = Some (Data d)" "d \<noteq> []" by blast
      let ?io = "io1\<lparr>io_stream := s, io_buf := io_buf io1 @ d\<rparr>"
      have "recv_loop deadline ?io = (r, io')"
        using eq p True ev d by (simp add: recv_loop.simps[of deadline io] Let_def)
      moreover have "length (inbox (io_stream ?io)) < length (inbox (io_stream io))"
        using read_timeout_less ev d poll_frame_stream[OF p] by auto
      moreover have "J ?io"
        using assms(3)[OF less.prems(2)] p True ev d by simp
      ultimately show ?thesis using less.hyps by blast
    qed
  qed
qed

lemma recv_loop_clock:
  assumes "recv_loop deadline io = (r, io')" "clock (io_stream io) \<le> deadline"
  shows "clock (io_stream io) \<le> clock (io_stream io') \<and> clock (io_stream io') \<le> deadline
     \<and> sent (io_stream io') = sent (io_stream io)"
proof -
  let ?J = "\<lambda>s. clock (io_stream io) \<le> clock (io_stream s) \<and> clock (io_stream s) \<le> deadline
     \<and> sent (io_stream s) = sent (io_stream io)"
  from assms(1) have "\<exists>io2. ?J io2 \<and> recv_exit deadline io2 r io'"
    by (rule recv_loop_rule[where J = ?J])
       (use assms(2) in \<open>fastforce dest: poll_frame_stream read_timeout_clock read_timeout_sent\<close>)+
  then show ?thesis
    by (fastforce simp: recv_exit_def dest: poll_frame_stream read_timeout_clock read_timeout_sent)
qed

lemma recv_clock:
  "recv t io = (r, io') \<Longrightarrow>
     clock (io_stream io) \<le> clock (io_stream io') \<and> clock (io_stream io') \<le> clock (io_stream io) + t
     \<and> sent (io_stream io') = sent (io_stream io)"
  unfolding recv_def by (drule recv_loop_clock) auto

section \<open>The loop rule\<close>

text \<open>The step the loop takes on what it received, and the ways it can end in the state it has reached.\<close>

definition next_step ::
  "(nat \<Rightarrow> 's \<Rightarrow> 's step) \<Rightarrow> (nat \<Rightarrow> 16 word \<times> bytes \<Rightarrow> 's \<Rightarrow> 's step) \<Rightarrow>
   nat \<Rightarrow> (16 word \<times> bytes) option \<Rightarrow> 's \<Rightarrow> 's step" where
  "next_step retrans on_frame t fo st =
     (case fo of None \<Rightarrow> retrans t st | Some f \<Rightarrow> on_frame t f st)"

definition neg_exit where
  "neg_exit fin retrans on_frame msg started rounds st io r io' \<longleftrightarrow>
     (fin st \<and> r = Inr st \<and> io' = io)
     \<or> (r = Inl msg \<and> io' = io)
     \<or> \<not> fin st \<and> rounds < MAX_ROUNDS \<and> clock (io_stream io) - started \<le> NEGOTIATE_DEADLINE \<and>
       ((\<exists>e. recv RECV_TIMEOUT io = (Inl e, io') \<and> r = Inl e)
        \<or> (\<exists>fo io1 e. recv RECV_TIMEOUT io = (Inr fo, io1) \<and> r = Inl e
           \<and> exec_step (next_step retrans on_frame (clock (io_stream io1)) fo st) io1 = (Inl e, io')))"

lemma neg_loop_cases:
  assumes "neg_loop fin retrans on_frame msg started rounds st io = (r, io')"
  obtains (finish) "fin st" "r = Inr st" "io' = io"
  | (stop) "\<not> fin st" "r = Inl msg" "io' = io"
  | (recv_error) e where "\<not> fin st" "rounds < MAX_ROUNDS"
      "clock (io_stream io) - started \<le> NEGOTIATE_DEADLINE"
      "recv RECV_TIMEOUT io = (Inl e, io')" "r = Inl e"
  | (step_error) fo io1 e where "\<not> fin st" "rounds < MAX_ROUNDS"
      "clock (io_stream io) - started \<le> NEGOTIATE_DEADLINE"
      "recv RECV_TIMEOUT io = (Inr fo, io1)" "r = Inl e"
      "exec_step (next_step retrans on_frame (clock (io_stream io1)) fo st) io1 = (Inl e, io')"
  | (step) fo io1 st' io2 where "\<not> fin st" "rounds < MAX_ROUNDS"
      "clock (io_stream io) - started \<le> NEGOTIATE_DEADLINE"
      "recv RECV_TIMEOUT io = (Inr fo, io1)"
      "exec_step (next_step retrans on_frame (clock (io_stream io1)) fo st) io1 = (Inr st', io2)"
      "neg_loop fin retrans on_frame msg started (rounds + 1) st' io2 = (r, io')"
proof (cases "fin st \<or> MAX_ROUNDS < rounds + 1 \<or> NEGOTIATE_DEADLINE < clock (io_stream io) - started")
  case True
  then show thesis
    using assms finish stop by (auto simp: neg_loop.simps[of fin] Let_def split: if_splits)
next
  case False
  obtain fo io1 where rv: "recv RECV_TIMEOUT io = (fo, io1)" by (cases "recv RECV_TIMEOUT io")
  show thesis
  proof (cases fo)
    case (Inl e)
    then show thesis
      using assms False rv recv_error by (auto simp: neg_loop.simps[of fin] Let_def)
  next
    case (Inr f)
    obtain r2 io2 where ex: "exec_step (next_step retrans on_frame (clock (io_stream io1)) f st) io1 = (r2, io2)"
      by (cases "exec_step (next_step retrans on_frame (clock (io_stream io1)) f st) io1")
    show thesis
      using assms False rv Inr ex step_error[of f io1] step[of f io1]
      by (cases r2)
         (simp_all add: neg_loop.simps[of fin _ _ _ _ rounds] Let_def next_step_def)
  qed
qed

lemma neg_loop_rule [consumes 1, case_names init step]:
  assumes "neg_loop fin retrans on_frame msg started rounds st io = (r, io')"
    and "J rounds st io"
    and "\<And>rounds st io fo io1 st' io2. J rounds st io \<Longrightarrow> \<not> fin st \<Longrightarrow> rounds < MAX_ROUNDS \<Longrightarrow>
           clock (io_stream io) - started \<le> NEGOTIATE_DEADLINE \<Longrightarrow>
           recv RECV_TIMEOUT io = (Inr fo, io1) \<Longrightarrow>
           exec_step (next_step retrans on_frame (clock (io_stream io1)) fo st) io1 = (Inr st', io2) \<Longrightarrow>
           J (rounds + 1) st' io2"
  shows "\<exists>rounds' st' io2. J rounds' st' io2 \<and> neg_exit fin retrans on_frame msg started rounds' st' io2 r io'"
  using assms(1,2)
proof (induction "MAX_ROUNDS - rounds" arbitrary: rounds st io rule: less_induct)
  case less
  from less.prems(1) show ?case
  proof (cases rule: neg_loop_cases)
    case (step fo io1 st' io2)
    have "MAX_ROUNDS - (rounds + 1) < MAX_ROUNDS - rounds" using step(2) by simp
    from less.hyps[OF this step(6)] assms(3)[OF less.prems(2) step(1-5)] show ?thesis by simp
  next
    case finish
    then have "neg_exit fin retrans on_frame msg started rounds st io r io'" by (simp add: neg_exit_def)
    then show ?thesis using less.prems by blast
  next
    case stop
    then have "neg_exit fin retrans on_frame msg started rounds st io r io'" by (simp add: neg_exit_def)
    then show ?thesis using less.prems by blast
  next
    case (recv_error e)
    then have "neg_exit fin retrans on_frame msg started rounds st io r io'" by (simp add: neg_exit_def)
    then show ?thesis using less.prems by blast
  next
    case (step_error fo io1 e)
    then have "neg_exit fin retrans on_frame msg started rounds st io r io'"
      unfolding neg_exit_def by blast
    then show ?thesis using less.prems by blast
  qed
qed

text \<open>A property of the phase's state that every handler keeps holds when the loop succeeds.\<close>

lemma neg_loop_state:
  assumes "neg_loop fin retrans on_frame msg started rounds st io = (Inr st', io')"
    and "P st"
    and "\<And>t fo s w s'. P s \<Longrightarrow> next_step retrans on_frame t fo s = (w, Inr s') \<Longrightarrow> P s'"
  shows "P st' \<and> fin st'"
proof -
  have ex: "P s'" if "P s" "exec_step (next_step retrans on_frame t fo s) io1 = (Inr s', io2)" for s t fo io1 s' io2
    using that assms(3)[of s t fo] by (auto simp: exec_step_def split: prod.splits option.splits sum.splits)
  from assms(1) have "\<exists>rounds' s io2. P s \<and> neg_exit fin retrans on_frame msg started rounds' s io2 (Inr st') io'"
    by (rule neg_loop_rule[where J = "\<lambda>_ s _. P s"]) (use assms(2) ex in auto)
  then show ?thesis by (auto simp: neg_exit_def)
qed

section \<open>Bounds\<close>

lemma neg_loop_clock:
  assumes "neg_loop fin retrans on_frame msg started rounds st io = (r, io')"
  shows "clock (io_stream io) \<le> clock (io_stream io')"
    "clock (io_stream io') \<le> max (clock (io_stream io)) (started + NEGOTIATE_DEADLINE + RECV_TIMEOUT)"
proof -
  let ?J = "\<lambda>_ _ s. clock (io_stream io) \<le> clock (io_stream s) \<and>
    clock (io_stream s) \<le> max (clock (io_stream io)) (started + NEGOTIATE_DEADLINE + RECV_TIMEOUT)"
  from assms have "\<exists>rounds' st' io2. ?J rounds' st' io2 \<and> neg_exit fin retrans on_frame msg started rounds' st' io2 r io'"
    by (rule neg_loop_rule[where J = ?J])
       (auto dest!: recv_clock exec_step_clock simp: le_max_iff_disj)
  then show "clock (io_stream io) \<le> clock (io_stream io')"
    "clock (io_stream io') \<le> max (clock (io_stream io)) (started + NEGOTIATE_DEADLINE + RECV_TIMEOUT)"
    by (auto simp: neg_exit_def le_max_iff_disj dest!: recv_clock exec_step_clock)
qed

text \<open>A receive that times out used its whole timeout.\<close>

lemma recv_None_clock:
  assumes "recv t io = (Inr None, io')"
  shows "clock (io_stream io') = clock (io_stream io) + t"
proof -
  let ?d = "clock (io_stream io) + t"
  have "recv_loop ?d io = (Inr None, io')" using assms by (simp add: recv_def)
  then have "\<exists>io2. clock (io_stream io2) \<le> ?d \<and> recv_exit ?d io2 (Inr None) io'"
    by (rule recv_loop_rule) (fastforce dest: read_timeout_clock)+
  then obtain io2 where io2: "clock (io_stream io2) \<le> ?d" "recv_exit ?d io2 (Inr None) io'" by blast
  then show ?thesis
    by (fastforce simp: recv_exit_def dest: poll_frame_stream read_timeout_None_clock)
qed

section \<open>Frames received and sent\<close>

definition admissible :: "(16 word \<times> bytes) option \<Rightarrow> bool" where
  "admissible fo = (case fo of None \<Rightarrow> True | Some (p, b) \<Rightarrow> length b + 2 \<le> MAX_FORTI_BODY)"

lemma poll_frame_admissible:
  "poll_frame io = (Inr (Some f), io') \<Longrightarrow> admissible (Some f)"
  by (cases f) (auto simp: poll_frame_def admissible_def split: prod.splits sum.splits bool.splits if_splits
      dest: try_decode_ppp_length)

lemma recv_admissible: "recv t io = (Inr fo, io') \<Longrightarrow> admissible fo"
proof -
  assume "recv t io = (Inr fo, io')"
  then have "\<exists>io2. True \<and> recv_exit (clock (io_stream io) + t) io2 (Inr fo) io'"
    unfolding recv_def by (rule recv_loop_rule) simp_all
  then have "fo = None \<or> (\<exists>f io2. fo = Some f \<and> poll_frame io2 = (Inr (Some f), io'))"
    by (auto simp: recv_exit_def)
  then show ?thesis by (auto dest: poll_frame_admissible simp: admissible_def)
qed

text \<open>
  What a run of the loop writes: every written frame satisfies \<open>Q\<close>, and there is
  at most one for each round.
\<close>

lemma exec_step_sent:
  assumes "exec_step (w, r) io = (r', io')"
  shows "sent (io_stream io') = sent (io_stream io)
    \<or> (\<exists>f. w = Some f \<and> sent (io_stream io') = sent (io_stream io) @ [f])"
  using assms
  by (auto simp: exec_step_def split: option.splits sum.splits prod.splits dest!: write_flush_sent)

lemma exec_step_Inr:
  assumes "exec_step (w, r) io = (Inr s, io')"
  shows "r = Inr s \<and> sent (io_stream io') = sent (io_stream io) @ (case w of None \<Rightarrow> [] | Some f \<Rightarrow> [f])"
  using assms
  by (auto simp: exec_step_def split: option.splits sum.splits prod.splits dest!: write_flush_ok)

lemma neg_loop_sent:
  assumes run: "neg_loop fin retrans on_frame msg started rounds st io = (r, io')"
    and P: "P st"
    and keep: "\<And>t fo s w s'. P s \<Longrightarrow> admissible fo \<Longrightarrow>
           next_step retrans on_frame t fo s = (w, Inr s') \<Longrightarrow> P s'"
    and good: "\<And>t fo s w r. P s \<Longrightarrow> admissible fo \<Longrightarrow>
           next_step retrans on_frame t fo s = (Some w, r) \<Longrightarrow> Q w"
    and rounds: "rounds \<le> MAX_ROUNDS"
  shows "\<exists>ws. sent (io_stream io') = sent (io_stream io) @ ws \<and> list_all Q ws
           \<and> length ws + rounds \<le> MAX_ROUNDS \<and> (\<forall>s. r = Inr s \<longrightarrow> P s)"
proof -
  let ?J = "\<lambda>n s io2. P s \<and> (\<exists>ws. sent (io_stream io2) = sent (io_stream io) @ ws \<and> list_all Q ws
      \<and> length ws + rounds \<le> n \<and> n \<le> MAX_ROUNDS)"
  from run have "\<exists>n s io2. ?J n s io2 \<and> neg_exit fin retrans on_frame msg started n s io2 r io'"
  proof (rule neg_loop_rule[where J = ?J])
    show "?J rounds st io" using P rounds by simp
  next
    fix n s io0 fo io1 s' io2
    assume J: "?J n s io0" and n: "n < MAX_ROUNDS"
      and rv: "recv RECV_TIMEOUT io0 = (Inr fo, io1)"
      and ex: "exec_step (next_step retrans on_frame (clock (io_stream io1)) fo s) io1 = (Inr s', io2)"
    obtain w r where nx: "next_step retrans on_frame (clock (io_stream io1)) fo s = (w, r)"
      by (cases "next_step retrans on_frame (clock (io_stream io1)) fo s")
    note a = recv_admissible[OF rv] and c = recv_clock[OF rv]
    have r: "r = Inr s'" and snt: "sent (io_stream io2) = sent (io_stream io1) @ (case w of None \<Rightarrow> [] | Some f \<Rightarrow> [f])"
      using exec_step_Inr[OF ex[unfolded nx]] by auto
    have "P s'" using keep J a nx r by blast
    moreover have "list_all Q (case w of None \<Rightarrow> [] | Some f \<Rightarrow> [f])"
      using good J a nx by (cases w) auto
    ultimately show "?J (n + 1) s' io2" using J n snt c by (cases w) auto
  qed
  then obtain n s io2 where J: "?J n s io2" and ex: "neg_exit fin retrans on_frame msg started n s io2 r io'"
    by blast
  obtain ws where ws: "sent (io_stream io2) = sent (io_stream io) @ ws" "list_all Q ws"
      "length ws + rounds \<le> n" "n \<le> MAX_ROUNDS" using J by blast
  from ex consider "io' = io2" "r = Inr s \<or> r = Inl msg"
    | e where "recv RECV_TIMEOUT io2 = (Inl e, io')" "r = Inl e"
    | fo io1 e where "n < MAX_ROUNDS" "recv RECV_TIMEOUT io2 = (Inr fo, io1)" "r = Inl e"
       "exec_step (next_step retrans on_frame (clock (io_stream io1)) fo s) io1 = (Inl e, io')"
    unfolding neg_exit_def by blast
  then show ?thesis
  proof cases
    case 1
    then show ?thesis using ws J by auto
  next
    case 2
    then show ?thesis using ws recv_clock[of RECV_TIMEOUT io2] by auto
  next
    case 3
    obtain w r2 where nx: "next_step retrans on_frame (clock (io_stream io1)) fo s = (w, r2)"
      by (cases "next_step retrans on_frame (clock (io_stream io1)) fo s")
    from exec_step_sent[OF 3(4)[unfolded nx]] show ?thesis
    proof
      assume "sent (io_stream io') = sent (io_stream io1)"
      then show ?thesis using ws 3 recv_clock[OF 3(2)] by auto
    next
      assume "\<exists>f. w = Some f \<and> sent (io_stream io') = sent (io_stream io1) @ [f]"
      then obtain f where f: "w = Some f" "sent (io_stream io') = sent (io_stream io1) @ [f]" by blast
      have "Q f" using good J nx f(1) recv_admissible[OF 3(2)] by blast
      then show ?thesis
        using ws 3 recv_clock[OF 3(2)] f by (intro exI[of _ "ws @ [f]"]) auto
    qed
  qed
qed

end
