(* ===== verification/Ppp_Correct.thy ===== *)
theory Ppp_Correct
  imports Ppp_Invariants
begin

text \<open>
  The two phases of the negotiation as instances of the loop facts, and the
  theorems about \<open>negotiate\<close>: what it sends is well formed, what it returns is a
  usable link, and it keeps the data packets that arrive early.
\<close>

section \<open>Well-formed control frames\<close>

text \<open>
  A control frame whose three length fields (envelope, body, control packet)
  tell the truth about the frame.
\<close>

definition ppp_wf :: "bytes \<Rightarrow> bool" where
  "ppp_wf w =
     (12 \<le> length w \<and> unat (from_be16 (w ! 0) (w ! 1)) = length w
      \<and> from_be16 (w ! 2) (w ! 3) = FORTI_MAGIC
      \<and> unat (from_be16 (w ! 4) (w ! 5)) + 6 = length w
      \<and> (case parse_cp (drop 8 w) of Inr p \<Rightarrow> length (cp_data p) + 12 = length w | Inl _ \<Rightarrow> False))"

lemma ppp_wf_encode:
  assumes "length dat + 12 < 65536"
  shows "ppp_wf (encode_ppp proto (build_cp c i dat))"
  using assms parse_build_cp[of dat c i "[]"]
  by (simp add: ppp_wf_def encode_ppp_as_frame forti_header_def to_be16_def build_cp_def
      FORTI_HEADER_LEN_def)

lemma length_build_options: "length (build_options opts) \<le> 255 * length opts"
  by (induction opts) auto

lemma length_build_options_filter:
  "length (build_options (filter P (parse_options b))) \<le> length b"
proof (induction b rule: parse_options.induct)
  case (1 t' l rest)
  then show ?case
    by (auto simp: min_def split: if_splits)
qed auto

lemma distinct_bytes_length: "distinct (xs :: byte list) \<Longrightarrow> length xs \<le> 256"
proof -
  assume "distinct xs"
  then have "length xs = card (set xs)" by (simp add: distinct_card)
  also have "\<dots> \<le> card (UNIV :: byte set)" by (rule card_mono) simp_all
  also have "\<dots> = 256" by (simp add: card_word)
  finally show ?thesis .
qed

lemma conf_req_wf:
  assumes "distinct (map fst opts)"
  shows "ppp_wf (conf_req proto i opts)"
proof -
  have "length opts \<le> 256" using distinct_bytes_length[OF assms] by simp
  then have "length (build_options opts) \<le> 65280" using length_build_options[of opts] by simp
  then show ?thesis unfolding conf_req_def by (intro ppp_wf_encode) simp
qed

lemma parse_cp_small:
  "parse_cp payload = Inr p \<Longrightarrow> length payload + 2 \<le> MAX_FORTI_BODY \<Longrightarrow> length (cp_data p) \<le> 16384"
  by (drule parse_cp_data_length) (simp add: MAX_FORTI_BODY_def)

lemma echo_reply_wf: "length (cp_data p) \<le> 16384 \<Longrightarrow> ppp_wf (echo_reply m p)"
  unfolding echo_reply_def Let_def by (rule ppp_wf_encode) auto

section \<open>Option lists\<close>

lemma map_fst_assign_option [simp]: "map fst (assign_option t v opts) = map fst opts"
  by (induction opts) auto

lemma map_fst_nak [simp]:
  "map fst (fold (\<lambda>(t, v). assign_option t v) naks opts) = map fst opts"
  by (induction naks arbitrary: opts) auto

lemma map_fst_reject [simp]:
  "map fst (reject_options rej opts) = filter (\<lambda>t. t \<notin> set (map fst rej)) (map fst opts)"
  unfolding reject_options_def by (induction opts) force+

lemma distinct_set_or_push:
  "distinct (map fst opts) \<Longrightarrow> distinct (map fst (set_or_push_option t v opts))"
  by auto

lemma distinct_push_all:
  "distinct (map fst opts) \<Longrightarrow> distinct (map fst (fold (\<lambda>(t, v). set_or_push_option t v) naks opts))"
  by (induction naks arbitrary: opts) (auto simp del: set_or_push_option.simps simp: distinct_set_or_push)

section \<open>The phases\<close>

definition lcp_opts_ok :: "cp_option list \<Rightarrow> bool" where
  "lcp_opts_ok opts = (distinct (map fst opts) \<and> set (map fst opts) \<subseteq> {LCP_OPT_MRU, LCP_OPT_MAGIC})"

definition ipcp_opts_ok :: "cp_option list \<Rightarrow> bool" where
  "ipcp_opts_ok opts = distinct (map fst opts)"

definition addresses_ok :: "ipv4 option \<times> ipv4 list \<Rightarrow> bool" where
  "addresses_ok acc =
     (fst acc \<noteq> Some unspecified \<and> distinct (snd acc) \<and> unspecified \<notin> set (snd acc))"

definition lcp_inv :: "lcp \<Rightarrow> bool" where
  "lcp_inv st = lcp_opts_ok (lcp_opts st)"

definition ipcp_inv :: "ipcp \<Rightarrow> bool" where
  "ipcp_inv st = (ipcp_opts_ok (ipcp_opts st) \<and> addresses_ok (ip_address st, ip_dns st))"

lemma lcp_inv_init: "lcp_inv (lcp_init magic t)"
  by (simp add: lcp_inv_def lcp_opts_ok_def lcp_init_def ppp_opts)

lemma ipcp_inv_init: "ipcp_inv (ipcp_init t early)"
  by (simp add: ipcp_inv_def ipcp_opts_ok_def ipcp_init_def ppp_opts addresses_ok_def)

lemma lcp_opts_ok_nak [simp]:
  "lcp_opts_ok opts \<Longrightarrow> lcp_opts_ok (fold (\<lambda>(t, v). assign_option t v) naks opts)"
  by (simp add: lcp_opts_ok_def flip: set_map)

lemma lcp_opts_ok_reject [simp]: "lcp_opts_ok opts \<Longrightarrow> lcp_opts_ok (reject_options rej opts)"
  unfolding lcp_opts_ok_def by (simp del: set_map) blast

lemma ipcp_opts_ok_nak [simp]:
  "ipcp_opts_ok opts \<Longrightarrow> ipcp_opts_ok (fold (\<lambda>(t, v). set_or_push_option t v) naks opts)"
  by (simp add: ipcp_opts_ok_def distinct_push_all)

lemma ipcp_opts_ok_reject [simp]: "ipcp_opts_ok opts \<Longrightarrow> ipcp_opts_ok (reject_options rej opts)"
  by (simp add: ipcp_opts_ok_def)

lemma conf_req_ok [simp]:
  "lcp_opts_ok opts \<Longrightarrow> ppp_wf (conf_req p i opts)" "ipcp_opts_ok opts \<Longrightarrow> ppp_wf (conf_req p i opts)"
  by (auto simp: lcp_opts_ok_def ipcp_opts_ok_def intro: conf_req_wf)

lemma harvest_option_ok: "addresses_ok acc \<Longrightarrow> addresses_ok (harvest_option tv acc)"
  by (cases acc; cases tv)
     (auto simp: harvest_option_def addresses_ok_def is_unspecified_def split: option.splits)

lemma harvest_ipcp_ok: "addresses_ok acc \<Longrightarrow> addresses_ok (harvest_ipcp opts acc)"
  unfolding harvest_ipcp_def
  by (induction opts arbitrary: acc) (simp_all add: harvest_option_ok)

lemma small_packets_wf:
  assumes "length dat \<le> 16384"
  shows "ppp_wf (encode_ppp p (build_cp c i dat))" "ppp_wf (encode_ppp p (build_cp c i []))"
    "ppp_wf (encode_ppp p (build_cp c i (build_options (filter P (parse_options dat)))))"
  using assms length_build_options_filter[of P dat] by (auto intro!: ppp_wf_encode)

text \<open>One handler step: the invariant is kept, and what is written is well formed.\<close>

definition step_ok :: "('s \<Rightarrow> bool) \<Rightarrow> 's step \<Rightarrow> bool" where
  "step_ok I st =
     ((case snd st of Inr s \<Rightarrow> I s | Inl _ \<Rightarrow> True) \<and> (case fst st of Some f \<Rightarrow> ppp_wf f | None \<Rightarrow> True))"

lemma step_ok_simps [simp]:
  "step_ok I (w, Inr s) \<longleftrightarrow> I s \<and> step_ok I (w, Inl undefined)"
  "step_ok I (Some f, Inl e) \<longleftrightarrow> ppp_wf f" "step_ok I (None, Inl e)"
  by (auto simp: step_ok_def split: option.splits)

lemma lcp_packet_ok:
  assumes "lcp_inv st" "length (cp_data pkt) \<le> 16384"
  shows "step_ok lcp_inv (lcp_on_packet magic now pkt st)"
  using assms
  by (auto simp: lcp_on_packet_def Let_def lcp_inv_def small_packets_wf echo_reply_wf split: option.splits)

lemma admissible_small:
  "admissible (Some (p, payload)) \<Longrightarrow> parse_cp payload = Inr pkt \<Longrightarrow> length (cp_data pkt) \<le> 16384"
  by (simp add: admissible_def parse_cp_small)

lemma lcp_step_ok:
  assumes "lcp_inv st" "admissible fo"
  shows "step_ok lcp_inv (next_step lcp_retransmit (lcp_on_frame magic) now fo st)"
proof (cases fo)
  case None
  then show ?thesis using assms(1) by (simp add: next_step_def lcp_retransmit_def lcp_inv_def)
next
  case (Some f)
  obtain p payload where f: "f = (p, payload)" by (cases f)
  have "step_ok lcp_inv (lcp_on_packet magic now pkt st)" if "parse_cp payload = Inr pkt" for pkt
    using lcp_packet_ok assms admissible_small that by (simp add: Some f)
  moreover have "lcp_inv (st\<lparr>lcp_early := b\<rparr>)" for b using assms(1) by (simp add: lcp_inv_def)
  ultimately show ?thesis
    using assms(1) by (simp add: Some f next_step_def lcp_on_frame_def split: sum.splits)
qed

lemma ipcp_packet_ok:
  assumes "ipcp_inv st" "length (cp_data pkt) \<le> 16384"
  shows "step_ok ipcp_inv (ipcp_on_packet now pkt st)"
proof -
  obtain a d where h: "harvest_ipcp (parse_options (cp_data pkt)) (ip_address st, ip_dns st) = (a, d)"
    by (cases "harvest_ipcp (parse_options (cp_data pkt)) (ip_address st, ip_dns st)")
  have "addresses_ok (a, d)"
    using harvest_ipcp_ok[of "(ip_address st, ip_dns st)" "parse_options (cp_data pkt)"] assms(1) h
    by (simp add: ipcp_inv_def)
  then show ?thesis
    using assms by (auto simp: ipcp_on_packet_def Let_def h ipcp_inv_def small_packets_wf)
qed

lemma ipcp_lcp_packet_ok:
  "ipcp_inv st \<Longrightarrow> length (cp_data pkt) \<le> 16384 \<Longrightarrow> step_ok ipcp_inv (ipcp_on_lcp_packet magic pkt st)"
  by (simp add: ipcp_on_lcp_packet_def small_packets_wf echo_reply_wf)

lemma ipcp_step_ok:
  assumes "ipcp_inv st" "admissible fo"
  shows "step_ok ipcp_inv (next_step ipcp_retransmit (ipcp_on_frame magic) now fo st)"
proof (cases fo)
  case None
  then show ?thesis using assms(1) by (simp add: next_step_def ipcp_retransmit_def ipcp_inv_def)
next
  case (Some f)
  obtain p payload where f: "f = (p, payload)" by (cases f)
  have "step_ok ipcp_inv (ipcp_on_lcp_packet magic pkt st)" "step_ok ipcp_inv (ipcp_on_packet now pkt st)"
    if "parse_cp payload = Inr pkt" for pkt
    using ipcp_lcp_packet_ok ipcp_packet_ok assms admissible_small that by (simp_all add: Some f)
  moreover have "ipcp_inv (st\<lparr>ip_early := b\<rparr>)" for b using assms(1) by (simp add: ipcp_inv_def)
  ultimately show ?thesis
    using assms(1) by (simp add: Some f next_step_def ipcp_on_frame_def split: sum.splits)
qed

section \<open>The phases as runs of the loop\<close>

lemma phase_run:
  assumes run: "neg_loop fin retrans on_frame msg started 0 st io = (r, io')"
    and "I st" and ok: "\<And>t fo s. I s \<Longrightarrow> admissible fo \<Longrightarrow> step_ok I (next_step retrans on_frame t fo s)"
  shows "\<exists>ws. sent (io_stream io') = sent (io_stream io) @ ws \<and> list_all ppp_wf ws
           \<and> length ws \<le> MAX_ROUNDS \<and> (\<forall>s. r = Inr s \<longrightarrow> I s)"
proof -
  have "\<exists>ws. sent (io_stream io') = sent (io_stream io) @ ws \<and> list_all ppp_wf ws
           \<and> length ws + 0 \<le> MAX_ROUNDS \<and> (\<forall>s. r = Inr s \<longrightarrow> I s)"
  proof (rule neg_loop_sent[OF run])
    show "I st" by fact
    fix t fo s w s' r
    assume s: "I s" "admissible fo"
    show "next_step retrans on_frame t fo s = (w, Inr s') \<Longrightarrow> I s'"
      using ok[OF s, of t] by (auto simp: step_ok_def)
    fix f
    show "next_step retrans on_frame t fo s = (Some f, r) \<Longrightarrow> ppp_wf f"
      using ok[OF s, of t] by (auto simp: step_ok_def)
  qed simp
  then show ?thesis by simp
qed

text \<open>A phase: the first Configure-Request, then the loop.\<close>

lemma phase_facts:
  assumes run: "(case exec_step (Some f0, Inr st) io of (Inl e, io1) \<Rightarrow> (Inl e, io1)
      | (Inr st, io1) \<Rightarrow> neg_loop fin retrans on_frame msg started 0 st io1) = (r, io')"
    and "I st" "ppp_wf f0"
    and ok: "\<And>t fo s. I s \<Longrightarrow> admissible fo \<Longrightarrow> step_ok I (next_step retrans on_frame t fo s)"
  shows "\<exists>ws. sent (io_stream io') = sent (io_stream io) @ ws \<and> list_all ppp_wf ws
           \<and> length ws \<le> MAX_ROUNDS + 1 \<and> (\<forall>s. r = Inr s \<longrightarrow> I s)"
    and "clock (io_stream io) \<le> clock (io_stream io')
      \<and> clock (io_stream io') \<le> max (clock (io_stream io)) (started + NEGOTIATE_DEADLINE + RECV_TIMEOUT)"
proof -
  obtain r1 io1 where ex: "exec_step (Some f0, Inr st) io = (r1, io1)"
    by (cases "exec_step (Some f0, Inr st) io")
  note c = exec_step_clock[OF ex]
  have "(\<exists>ws. sent (io_stream io') = sent (io_stream io) @ ws \<and> list_all ppp_wf ws
           \<and> length ws \<le> MAX_ROUNDS + 1 \<and> (\<forall>s. r = Inr s \<longrightarrow> I s)) \<and>
        clock (io_stream io) \<le> clock (io_stream io')
        \<and> clock (io_stream io') \<le> max (clock (io_stream io)) (started + NEGOTIATE_DEADLINE + RECV_TIMEOUT)"
  proof (cases r1)
    case (Inl e)
    with run ex have "r = Inl e" "io' = io1" by auto
    moreover have "list_all ppp_wf [f0]" using assms(3) by simp
    ultimately show ?thesis using exec_step_sent[OF ex] c by fastforce
  next
    case (Inr st1)
    with exec_step_Inr[of "Some f0" "Inr st" io st1 io1] ex
    have st1: "st1 = st" "sent (io_stream io1) = sent (io_stream io) @ [f0]" by auto
    have loop: "neg_loop fin retrans on_frame msg started 0 st io1 = (r, io')"
      using run ex Inr st1 by simp
    obtain ws where "sent (io_stream io') = sent (io_stream io1) @ ws" "list_all ppp_wf ws"
        "length ws \<le> MAX_ROUNDS" "\<forall>s. r = Inr s \<longrightarrow> I s"
      using phase_run[where I = I, OF loop assms(2) ok] by blast
    then show ?thesis
      using st1 assms(3) neg_loop_clock[OF loop] c by (intro conjI exI[of _ "f0 # ws"]) auto
  qed
  then show "\<exists>ws. sent (io_stream io') = sent (io_stream io) @ ws \<and> list_all ppp_wf ws
           \<and> length ws \<le> MAX_ROUNDS + 1 \<and> (\<forall>s. r = Inr s \<longrightarrow> I s)"
    "clock (io_stream io) \<le> clock (io_stream io')
      \<and> clock (io_stream io') \<le> max (clock (io_stream io)) (started + NEGOTIATE_DEADLINE + RECV_TIMEOUT)"
    by blast+
qed

lemma init_conf_req_wf:
  "ppp_wf (conf_req PPP_LCP (lcp_id (lcp_init m t)) (lcp_opts (lcp_init m t)))"
  "ppp_wf (conf_req PPP_IPCP (ipcp_id (ipcp_init t early)) (ipcp_opts (ipcp_init t early)))"
  using lcp_inv_init[of m t] ipcp_inv_init[of t early] by (simp_all add: lcp_inv_def ipcp_inv_def)

lemma lcp_phase_facts:
  assumes "lcp_phase magic started io = (r, io')"
  shows "\<exists>ws. sent (io_stream io') = sent (io_stream io) @ ws \<and> list_all ppp_wf ws
           \<and> length ws \<le> MAX_ROUNDS + 1 \<and> (\<forall>s. r = Inr s \<longrightarrow> lcp_inv s)"
    and "clock (io_stream io) \<le> clock (io_stream io')
      \<and> clock (io_stream io') \<le> max (clock (io_stream io)) (started + NEGOTIATE_DEADLINE + RECV_TIMEOUT)"
  by (rule phase_facts[where I = lcp_inv, OF assms [unfolded lcp_phase_def Let_def]
        lcp_inv_init init_conf_req_wf(1) lcp_step_ok], assumption+)+

lemma ipcp_phase_facts:
  assumes "ipcp_phase magic started early io = (r, io')"
  shows "\<exists>ws. sent (io_stream io') = sent (io_stream io) @ ws \<and> list_all ppp_wf ws
           \<and> length ws \<le> MAX_ROUNDS + 1 \<and> (\<forall>s. r = Inr s \<longrightarrow> ipcp_inv s)"
    and "clock (io_stream io) \<le> clock (io_stream io')
      \<and> clock (io_stream io') \<le> max (clock (io_stream io)) (started + NEGOTIATE_DEADLINE + RECV_TIMEOUT)"
  by (rule phase_facts[where I = ipcp_inv, OF assms [unfolded ipcp_phase_def Let_def]
        ipcp_inv_init init_conf_req_wf(2) ipcp_step_ok], assumption+)+

lemma negotiate_io_cases:
  assumes "negotiate_io magic io = (r, io')"
  obtains (lcp_error) e where "lcp_phase magic (clock (io_stream io)) io = (Inl e, io')" "r = Inl e"
  | (ipcp_error) e lcp io1 where "lcp_phase magic (clock (io_stream io)) io = (Inr lcp, io1)"
      "ipcp_phase magic (clock (io_stream io)) (lcp_early lcp) io1 = (Inl e, io')" "r = Inl e"
  | (no_address) lcp io1 ip where "lcp_phase magic (clock (io_stream io)) io = (Inr lcp, io1)"
      "ipcp_phase magic (clock (io_stream io)) (lcp_early lcp) io1 = (Inr ip, io')"
      "ip_address ip = None"
      "r = Inl (Protocol ''IPCP completed without assigning an IPv4 address'')"
  | (ok) lcp io1 ip a io2 where "lcp_phase magic (clock (io_stream io)) io = (Inr lcp, io1)"
      "ipcp_phase magic (clock (io_stream io)) (lcp_early lcp) io1 = (Inr ip, io2)"
      "ip_address ip = Some a" "io' = io2\<lparr>io_buf := []\<rparr>"
      "r = Inr (\<lparr>ppp_address = a, ppp_peer = ip_peer ip, ppp_dns = ip_dns ip,
                 ppp_mtu = lcp_mru lcp, ppp_magic = magic\<rparr>, ip_early ip @ io_buf io2)"
  using assms unfolding negotiate_io_def Let_def
  by (auto split: prod.splits sum.splits option.splits)

text \<open>
  C14: the PPP negotiation always returns, at most 35 seconds after it started (its
  own deadline of 30 seconds and one more receive timeout), whatever the gateway
  sends or keeps to itself; it writes at most 82 frames, and every one of them is
  a control frame whose length fields describe it truthfully, so that no length
  is ever truncated by the casts to 16 bits.
\<close>

theorem negotiate_bounded:
  "case negotiate t s prime of (r, s') \<Rightarrow>
     clock s \<le> clock s' \<and> clock s' \<le> clock s + 35000
     \<and> (\<exists>ws. sent s' = sent s @ ws \<and> length ws \<le> 82 \<and> list_all ppp_wf ws)"
proof -
  let ?io = "\<lparr>io_stream = s, io_buf = prime, http_checked = False\<rparr>"
  obtain r s' where ng: "negotiate t s prime = (r, s')" by (cases "negotiate t s prime")
  obtain io' where run: "negotiate_io (gen_magic t) ?io = (r, io')" and s': "s' = io_stream io'"
    using ng by (auto simp: negotiate_def split: prod.splits)
  let ?thesis' = "clock s \<le> clock s' \<and> clock s' \<le> clock s + 35000
     \<and> (\<exists>ws. sent s' = sent s @ ws \<and> length ws \<le> 82 \<and> list_all ppp_wf ws)"
  have both: ?thesis' if l: "lcp_phase (gen_magic t) (clock s) ?io = (Inr lcp, io1)"
    and i: "ipcp_phase (gen_magic t) (clock s) (lcp_early lcp) io1 = (r2, io2)" and "s' = io_stream io2"
    for lcp io1 r2 io2
    using lcp_phase_facts[OF l] ipcp_phase_facts[OF i] that(3)
    by (fastforce simp: neg_consts)
  from run have ?thesis'
  proof (cases rule: negotiate_io_cases)
    case (lcp_error e)
    then show ?thesis using lcp_phase_facts[OF lcp_error(1)] s' by (fastforce simp: neg_consts)
  qed (use both s' in auto)
  then show ?thesis using ng by simp
qed

lemma encode_ppp_Cons:
  "\<exists>a b c d. encode_ppp p w = a # b # 0x50 # 0x50 # c # d # to_be16 p @ w"
  by (simp add: encode_ppp_as_frame forti_header_def to_be16_def FORTI_MAGIC_def)

text \<open>Framed data is never taken for an HTTP prologue.\<close>

lemma strip_http_prologue_frame [simp]:
  "strip_http_prologue (encode_ppp p w @ rest) = (Inr True, encode_ppp p w @ rest)"
proof -
  obtain a b c d where e: "encode_ppp p w = a # b # 0x50 # 0x50 # c # d # to_be16 p @ w"
    using encode_ppp_Cons by blast
  have "byte_of_char CHR ''T'' \<noteq> 0x50" by (simp add: byte_of_char_def)
  then show ?thesis by (simp add: strip_http_prologue_def e)
qed

section \<open>A complete handshake\<close>

text \<open>
  A gateway that has already sent all its frames, two of them data: the run
  evaluates to the session it asked for.
\<close>

definition handshake :: bytes where
  "handshake =
     encode_ppp PPP_LCP (build_cp CODE_CONF_REQ 1 []) @ encode_ppp PPP_LCP (build_cp CODE_CONF_ACK 1 [])
     @ encode_ppp PPP_IPV4 [0x45, 1] @ encode_ppp PPP_IPCP (build_cp CODE_CONF_REQ 1 [])
     @ encode_ppp PPP_IPCP (build_cp CODE_CONF_ACK 1 [3, 6, 10, 0, 0, 2]) @ encode_ppp PPP_IPV4 [0x45, 2]"

definition quiet_stream :: stream where
  "quiet_stream = \<lparr>clock = 0, inbox = [], write_script = [], sent = []\<rparr>"

lemma recv_buffered:
  assumes "p \<noteq> 0xFF03" "length w + 2 \<le> MAX_FORTI_BODY"
  shows "recv t \<lparr>io_stream = s, io_buf = encode_ppp p w @ rest, http_checked = c\<rparr>
    = (Inr (Some (p, w)), \<lparr>io_stream = s, io_buf = rest, http_checked = True\<rparr>)"
  using assms by (simp add: recv_def recv_loop.simps poll_frame_def decode_encode_ppp)

lemma write_flush_quiet:
  "write_script s = [] \<Longrightarrow> write_flush b s = (Inr (), s\<lparr>sent := sent s @ [b]\<rparr>)"
  by (simp add: write_flush_def)

lemma proto_neq:
  "PPP_LCP \<noteq> 0xFF03" "PPP_IPCP \<noteq> 0xFF03" "PPP_IPV4 \<noteq> 0xFF03"
  "PPP_LCP \<noteq> PPP_IPV4" "PPP_LCP \<noteq> PPP_PAP" "PPP_LCP \<noteq> PPP_CHAP"
  "PPP_IPCP \<noteq> PPP_IPV4" "PPP_IPCP \<noteq> PPP_PAP" "PPP_IPCP \<noteq> PPP_CHAP" "PPP_IPCP \<noteq> PPP_LCP"
  by (simp_all add: ppp_protos)

lemma length_cp [simp]: "length (build_cp c i d) = length d + 4"
  by (simp add: build_cp_def)

lemmas negotiate_run = negotiate_def negotiate_io_def lcp_phase_def ipcp_phase_def exec_step_def
  lcp_init_def ipcp_init_def write_flush_quiet neg_loop.simps recv_buffered neg_consts
  MAX_FORTI_BODY_def proto_neq lcp_on_frame_def ipcp_on_frame_def
  parse_build_cp[of _ _ _ "[]", simplified] lcp_on_packet_def ipcp_on_packet_def
  ack_mru_def stage_early_def encode_ppp_append_eq peer_address_def harvest_ipcp_def
  harvest_option_def ppp_opts opt_ipv4_def is_unspecified_def unspecified_def gen_magic_def DEFAULT_MRU_def

lemma negotiate_handshake:
  "fst (negotiate None quiet_stream handshake) =
     Inr (\<lparr>ppp_address = Ipv4 10 0 0 2, ppp_peer = None, ppp_dns = [], ppp_mtu = 1354,
           ppp_magic = 0x59454C4D\<rparr>, encode_ppp PPP_IPV4 [0x45, 1] @ encode_ppp PPP_IPV4 [0x45, 2])"
  by (simp add: negotiate_run quiet_stream_def handshake_def Let_def CODE_CONF_REQ_def CODE_CONF_ACK_def)

text \<open>
  C15: a session that the negotiation returns has an assigned address that is not
  0.0.0.0, DNS servers without repetition and without 0.0.0.0, and a magic number
  that is not zero.
\<close>

theorem negotiate_session:
  assumes "negotiate t s prime = (Inr (sess, prime_out), s')"
  shows "ppp_address sess \<noteq> unspecified \<and> distinct (ppp_dns sess) \<and> unspecified \<notin> set (ppp_dns sess)
    \<and> ppp_magic sess \<noteq> 0"
proof -
  obtain io' where "negotiate_io (gen_magic t) \<lparr>io_stream = s, io_buf = prime, http_checked = False\<rparr>
      = (Inr (sess, prime_out), io')"
    using assms by (auto simp: negotiate_def split: prod.splits)
  then show ?thesis
  proof (cases rule: negotiate_io_cases)
    case (ok lcp io1 ip a io2)
    then have "ipcp_inv ip" using ipcp_phase_facts(1)[OF ok(2)] by blast
    then show ?thesis using ok gen_magic_nonzero by (simp add: ipcp_inv_def addresses_ok_def)
  qed auto
qed

theorem negotiate_session_witness:
  "\<exists>sess out s'. negotiate None quiet_stream handshake = (Inr (sess, out), s') \<and> ppp_address sess \<noteq> unspecified"
proof -
  obtain s' where "negotiate None quiet_stream handshake =
     (Inr (\<lparr>ppp_address = Ipv4 10 0 0 2, ppp_peer = None, ppp_dns = [], ppp_mtu = 1354,
           ppp_magic = 0x59454C4D\<rparr>, encode_ppp PPP_IPV4 [0x45, 1] @ encode_ppp PPP_IPV4 [0x45, 2]), s')"
    using negotiate_handshake by (metis prod.collapse)
  from negotiate_session[OF this] this show ?thesis by blast
qed

end
