(* ===== verification/Ppp_Early.thy ===== *)
theory Ppp_Early
  imports Ppp_Correct
begin

text \<open>
  What becomes of the byte stream during the negotiation.  \<open>frame_stream\<close> is
  everything the reader has not consumed yet: its buffer and all that the peer
  is going to send, less the HTTP prologue while that has not been dealt with.
  Each received frame is the first frame of \<open>frame_stream\<close>; so the frames handled
  during the negotiation and the bytes handed to the forwarding loop together
  are the stream, and no data packet is lost.
\<close>

text \<open>The bytes the peer sends before the first read error.\<close>

fun inbox_data :: "(nat \<times> read_event) list \<Rightarrow> bytes" where
  "inbox_data [] = []"
| "inbox_data ((_, Data d) # evs) = d @ inbox_data evs"
| "inbox_data ((_, Read_Fail _) # evs) = []"

definition pending :: "ppp_io \<Rightarrow> bytes" where
  "pending io = io_buf io @ inbox_data (inbox (io_stream io))"

definition frame_stream :: "ppp_io \<Rightarrow> bytes" where
  "frame_stream io =
     (if http_checked io then pending io else snd (strip_http_prologue (pending io)))"

lemma strip_http_prologue_append:
  assumes "strip_http_prologue b = (Inr True, b')"
  shows "strip_http_prologue (b @ c) = (Inr True, b' @ c)"
proof -
  let ?http = "bytes_of_str ''HTTP/''"
  have len: "5 \<le> length b" using assms by (auto simp: strip_http_prologue_def split: if_splits)
  have pre: "prefix ?http (b @ c) \<longleftrightarrow> prefix ?http b"
    using len prefix_length_prefix[of ?http "b @ c" b] by auto
  show ?thesis
  proof (cases "prefix ?http b")
    case False
    then show ?thesis using assms len pre by (simp add: strip_http_prologue_def del: bytes_of_str_simps)
  next
    case True
    then obtain p where p: "find_sub (bytes_of_str (CRLF @ CRLF)) b = Some p"
      using assms len by (auto simp: strip_http_prologue_def simp del: bytes_of_str_simps split: option.splits if_splits)
    have "p + 4 \<le> length b" using find_sub_Some[OF p] by (simp add: CRLF_def)
    then show ?thesis
      using assms len pre True find_sub_append[OF p, of c] p
      by (auto simp: strip_http_prologue_def Let_def simp del: bytes_of_str_simps split: if_splits)
  qed
qed

lemma strip_http_prologue_keeps:
  "strip_http_prologue b = (r, b') \<Longrightarrow> r \<noteq> Inr True \<Longrightarrow> b' = b"
  by (auto simp: strip_http_prologue_def Let_def split: if_splits option.splits)

lemma poll_frame_None:
  assumes "poll_frame io = (Inr None, io')"
  shows "frame_stream io' = frame_stream io \<and> (http_checked io \<longrightarrow> http_checked io')"
proof (cases "http_checked io")
  case True
  then show ?thesis
    using assms by (auto simp: poll_frame_def frame_stream_def pending_def split: prod.splits dest!: ppp.need_more_keeps)
next
  case False
  obtain r b where sb: "strip_http_prologue (io_buf io) = (r, b)" by (cases "strip_http_prologue (io_buf io)")
  show ?thesis
    using assms False sb strip_http_prologue_append[of "io_buf io" b] strip_http_prologue_keeps[OF sb]
    by (auto simp: poll_frame_def frame_stream_def pending_def split: prod.splits sum.splits bool.splits
        dest!: ppp.need_more_keeps)
qed

lemma poll_frame_Some:
  assumes "poll_frame io = (Inr (Some f), io')"
  shows "try_decode_ppp (frame_stream io) = (Inr (Some f), frame_stream io') \<and> http_checked io'"
proof (cases "http_checked io")
  case True
  then show ?thesis
    using assms by (auto simp: poll_frame_def frame_stream_def pending_def split: prod.splits intro: ppp.frame_stable)
next
  case False
  obtain r b where sb: "strip_http_prologue (io_buf io) = (r, b)" by (cases "strip_http_prologue (io_buf io)")
  show ?thesis
    using assms False sb strip_http_prologue_append[of "io_buf io" b]
    by (auto simp: poll_frame_def frame_stream_def pending_def split: prod.splits sum.splits bool.splits
        intro: ppp.frame_stable)
qed

lemma read_timeout_data:
  "read_timeout left s = (Some (Data d), s') \<Longrightarrow> inbox_data (inbox s) = d @ inbox_data (inbox s')"
  by (auto simp: read_timeout_def split: list.splits if_splits)

lemma read_timeout_None_inbox: "read_timeout left s = (None, s') \<Longrightarrow> inbox s' = inbox s"
  by (auto simp: read_timeout_def split: list.splits if_splits)

lemma frame_stream_read:
  assumes "read_timeout left (io_stream io) = (Some (Data d), s)"
  shows "frame_stream (io\<lparr>io_stream := s, io_buf := io_buf io @ d\<rparr>) = frame_stream io"
  using read_timeout_data[OF assms] by (simp add: frame_stream_def pending_def)

lemma recv_stream:
  assumes "recv t io = (Inr fo, io')"
  shows "(case fo of None \<Rightarrow> frame_stream io' = frame_stream io
          | Some f \<Rightarrow> try_decode_ppp (frame_stream io) = (Inr (Some f), frame_stream io') \<and> http_checked io')
    \<and> (http_checked io \<longrightarrow> http_checked io')"
proof -
  let ?d = "clock (io_stream io) + t"
  let ?J = "\<lambda>io2. frame_stream io2 = frame_stream io \<and> (http_checked io \<longrightarrow> http_checked io2)"
  have "recv_loop ?d io = (Inr fo, io')" using assms by (simp add: recv_def)
  then have "\<exists>io2. ?J io2 \<and> recv_exit ?d io2 (Inr fo) io'"
    by (rule recv_loop_rule) (auto dest!: poll_frame_None simp: frame_stream_read)
  then obtain io2 where J: "?J io2" and ex: "recv_exit ?d io2 (Inr fo) io'" by blast
  from ex consider f where "poll_frame io2 = (Inr (Some f), io')" "fo = Some f"
    | "poll_frame io2 = (Inr None, io')" "fo = None"
    | io1 s l where "poll_frame io2 = (Inr None, io1)" "read_timeout l (io_stream io1) = (None, s)"
        "io' = io1\<lparr>io_stream := s\<rparr>" "fo = None"
    unfolding recv_exit_def by auto
  then show ?thesis
  proof cases
    case (3 io1 s l)
    then have "frame_stream io' = frame_stream io1"
      using read_timeout_None_inbox[of l "io_stream io1" s] by (simp add: frame_stream_def pending_def)
    then show ?thesis using 3 J poll_frame_None by fastforce
  qed (use J poll_frame_Some poll_frame_None in fastforce)+
qed

lemma exec_step_stream:
  "exec_step st io = (r, io') \<Longrightarrow> frame_stream io' = frame_stream io \<and> http_checked io' = http_checked io"
  by (drule exec_step_clock) (simp add: frame_stream_def pending_def)

section \<open>Decoded prefixes\<close>

inductive decodes :: "bytes \<Rightarrow> (16 word \<times> bytes) list \<Rightarrow> bytes \<Rightarrow> bool" where
  decodes_Nil: "decodes w [] w"
| decodes_snoc: "decodes w fs w' \<Longrightarrow> try_decode_ppp w' = (Inr (Some f), w'') \<Longrightarrow> decodes w (fs @ [f]) w''"

lemma decodes_drain:
  "decodes w fs w' \<Longrightarrow>
     drain try_decode_ppp w = map_option (\<lambda>(gs, r). (fs @ gs, r)) (drain try_decode_ppp w')"
proof (induction rule: decodes.induct)
  case (decodes_Nil w)
  then show ?case by (simp add: case_prod_eta option.map_id flip: id_def)
next
  case (decodes_snoc w fs w' f w'')
  then show ?case by (simp add: ppp.drain_frame option.map_comp o_def split_def)
qed

lemma decodes_trans: "decodes w' gs w'' \<Longrightarrow> decodes w fs w' \<Longrightarrow> decodes w (fs @ gs) w''"
proof (induction rule: decodes.induct)
  case (decodes_snoc w' gs w1 f w'')
  then have "decodes w ((fs @ gs) @ [f]) w''" by (intro decodes.decodes_snoc)
  then show ?case by simp
qed simp

definition staged :: "(16 word \<times> bytes) list \<Rightarrow> bytes" where
  "staged fs = concat (map (\<lambda>(p, b). encode_ppp p b) (filter (\<lambda>(p, b). p = PPP_IPV4) fs))"

lemma staged_append [simp]: "staged (fs @ gs) = staged fs @ staged gs"
  by (simp add: staged_def)

lemma staged_Nil [simp]: "staged [] = []"
  by (simp add: staged_def)

lemma neg_loop_stream:
  assumes run: "neg_loop fin retrans on_frame msg started rounds st io = (Inr st', io')"
    and early: "\<And>t fo s w s'. next_step retrans on_frame t fo s = (w, Inr s') \<Longrightarrow>
       early s' = early s @ staged (case fo of None \<Rightarrow> [] | Some f \<Rightarrow> [f])"
  shows "\<exists>fs. decodes (frame_stream io) fs (frame_stream io') \<and> early st' = early st @ staged fs
    \<and> (http_checked io \<longrightarrow> http_checked io')"
proof -
  let ?J = "\<lambda>_ s io2. \<exists>fs. decodes (frame_stream io) fs (frame_stream io2) \<and> early s = early st @ staged fs
    \<and> (http_checked io \<longrightarrow> http_checked io2)"
  from run have "\<exists>n s io2. ?J n s io2 \<and> neg_exit fin retrans on_frame msg started n s io2 (Inr st') io'"
  proof (rule neg_loop_rule[where J = ?J])
    show "?J rounds st io" using decodes_Nil by force
  next
    fix n :: nat and s io0 fo io1 s' io2
    assume J: "?J n s io0" and rv: "recv RECV_TIMEOUT io0 = (Inr fo, io1)"
      and ex: "exec_step (next_step retrans on_frame (clock (io_stream io1)) fo s) io1 = (Inr s', io2)"
    obtain w r where nx: "next_step retrans on_frame (clock (io_stream io1)) fo s = (w, r)"
      by (cases "next_step retrans on_frame (clock (io_stream io1)) fo s")
    have "r = Inr s'" using exec_step_Inr[OF ex[unfolded nx]] by simp
    then have e: "early s' = early s @ staged (case fo of None \<Rightarrow> [] | Some f \<Rightarrow> [f])"
      using early nx by blast
    obtain fs where fs: "decodes (frame_stream io) fs (frame_stream io0)" "early s = early st @ staged fs"
      "http_checked io \<longrightarrow> http_checked io0" using J by blast
    note rs = recv_stream[OF rv] and es = exec_step_stream[OF ex]
    show "?J (n + 1) s' io2"
    proof (cases fo)
      case None
      then show ?thesis using fs rs es e by (intro exI[of _ fs]) auto
    next
      case (Some f)
      then have "decodes (frame_stream io) (fs @ [f]) (frame_stream io2)"
        using fs(1) rs es by (auto intro: decodes_snoc)
      then show ?thesis using fs rs es e Some by (intro exI[of _ "fs @ [f]"]) auto
    qed
  qed
  then show ?thesis by (auto simp: neg_exit_def)
qed

lemma neg_loop_checked:
  assumes run: "neg_loop fin retrans on_frame msg started rounds st io = (Inr st', io')"
    and "\<not> fin st"
    and keep: "\<And>t s w s'. next_step retrans on_frame t None s = (w, Inr s') \<Longrightarrow> \<not> fin s \<Longrightarrow> \<not> fin s'"
  shows "http_checked io'"
proof -
  let ?J = "\<lambda>_ s io2. http_checked io2 \<or> \<not> fin s"
  from run have "\<exists>n s io2. ?J n s io2 \<and> neg_exit fin retrans on_frame msg started n s io2 (Inr st') io'"
  proof (rule neg_loop_rule[where J = ?J])
    show "?J rounds st io" using assms(2) by blast
  next
    fix n :: nat and s io0 fo io1 s' io2
    assume rv: "recv RECV_TIMEOUT io0 = (Inr fo, io1)" and nf: "\<not> fin s"
      and ex: "exec_step (next_step retrans on_frame (clock (io_stream io1)) fo s) io1 = (Inr s', io2)"
    obtain w r where nx: "next_step retrans on_frame (clock (io_stream io1)) fo s = (w, r)"
      by (cases "next_step retrans on_frame (clock (io_stream io1)) fo s")
    have "r = Inr s'" using exec_step_Inr[OF ex[unfolded nx]] by simp
    then show "?J (n + 1) s' io2"
      using recv_stream[OF rv] exec_step_stream[OF ex] keep[of "clock (io_stream io1)" s w s'] nx nf
      by (cases fo) auto
  qed
  then show ?thesis by (auto simp: neg_exit_def)
qed

section \<open>The phases\<close>

lemma stage_early_staged: "stage_early e payload = e @ staged [(PPP_IPV4, payload)]"
  by (simp add: stage_early_def staged_def encode_ppp_append_eq)

lemma staged_control [simp]: "p \<noteq> PPP_IPV4 \<Longrightarrow> staged [(p, b)] = []"
  by (simp add: staged_def)

lemma lcp_packet_early:
  "lcp_on_packet magic t pkt s = (w, Inr s') \<Longrightarrow> lcp_early s' = lcp_early s"
  by (auto simp: lcp_on_packet_def Let_def split: if_splits option.splits)

lemma lcp_step_early:
  "next_step lcp_retransmit (lcp_on_frame magic) t fo s = (w, Inr s') \<Longrightarrow>
     lcp_early s' = lcp_early s @ staged (case fo of None \<Rightarrow> [] | Some f \<Rightarrow> [f])"
  by (auto simp: next_step_def lcp_retransmit_def lcp_on_frame_def stage_early_staged
      split: option.splits if_splits sum.splits prod.splits dest: lcp_packet_early)

lemma lcp_retransmit_unfinished:
  "next_step lcp_retransmit (lcp_on_frame magic) t None s = (w, Inr s') \<Longrightarrow>
     \<not> (ours_acked s \<and> theirs_acked s) \<Longrightarrow> \<not> (ours_acked s' \<and> theirs_acked s')"
  by (auto simp: next_step_def lcp_retransmit_def split: if_splits)

lemma ipcp_packet_early:
  "ipcp_on_packet t pkt s = (w, Inr s') \<Longrightarrow> ip_early s' = ip_early s"
  "ipcp_on_lcp_packet magic pkt s = (w, Inr s') \<Longrightarrow> ip_early s' = ip_early s"
  by (auto simp: ipcp_on_packet_def ipcp_on_lcp_packet_def Let_def split: if_splits prod.splits)

lemma ipcp_step_early:
  "next_step ipcp_retransmit (ipcp_on_frame magic) t fo s = (w, Inr s') \<Longrightarrow>
     ip_early s' = ip_early s @ staged (case fo of None \<Rightarrow> [] | Some f \<Rightarrow> [f])"
  by (auto simp: next_step_def ipcp_retransmit_def ipcp_on_frame_def stage_early_staged
      split: option.splits if_splits sum.splits prod.splits dest: ipcp_packet_early)

lemma lcp_phase_stream:
  assumes "lcp_phase magic started io = (Inr st, io')"
  shows "\<exists>fs. decodes (frame_stream io) fs (frame_stream io') \<and> lcp_early st = staged fs \<and> http_checked io'"
proof -
  let ?st = "lcp_init magic (clock (io_stream io))"
  obtain st1 io1 where ex: "exec_step (Some (conf_req PPP_LCP (lcp_id ?st) (lcp_opts ?st)), Inr ?st) io = (Inr st1, io1)"
    and loop: "neg_loop (\<lambda>st. ours_acked st \<and> theirs_acked st) lcp_retransmit (lcp_on_frame magic)
            (Protocol ''LCP negotiation did not converge'') started 0 st1 io1 = (Inr st, io')"
    using assms by (auto simp: lcp_phase_def Let_def split: prod.splits sum.splits)
  have st1: "st1 = ?st" using exec_step_Inr[OF ex] by simp
  obtain fs where "decodes (frame_stream io1) fs (frame_stream io')" "lcp_early st = lcp_early st1 @ staged fs"
    using neg_loop_stream[where early = lcp_early, OF loop] lcp_step_early by metis
  moreover have "http_checked io'"
    by (rule neg_loop_checked[OF loop]) (use st1 lcp_retransmit_unfinished in \<open>auto simp: lcp_init_def\<close>)
  ultimately show ?thesis using exec_step_stream[OF ex] st1 by (auto simp: lcp_init_def)
qed

lemma ipcp_phase_stream:
  assumes "ipcp_phase magic started early io = (Inr st, io')"
  shows "\<exists>fs. decodes (frame_stream io) fs (frame_stream io') \<and> ip_early st = early @ staged fs
    \<and> (http_checked io \<longrightarrow> http_checked io')"
proof -
  let ?st = "ipcp_init (clock (io_stream io)) early"
  obtain st1 io1 where ex: "exec_step (Some (conf_req PPP_IPCP (ipcp_id ?st) (ipcp_opts ?st)), Inr ?st) io = (Inr st1, io1)"
    and loop: "neg_loop (\<lambda>st. ip_ours st \<and> ip_theirs st) ipcp_retransmit (ipcp_on_frame magic)
            (Protocol ''IPCP negotiation did not converge'') started 0 st1 io1 = (Inr st, io')"
    using assms by (auto simp: ipcp_phase_def Let_def split: prod.splits sum.splits)
  have st1: "st1 = ?st" using exec_step_Inr[OF ex] by simp
  obtain fs where "decodes (frame_stream io1) fs (frame_stream io')" "ip_early st = ip_early st1 @ staged fs"
      "http_checked io1 \<longrightarrow> http_checked io'"
    using neg_loop_stream[where early = ip_early, OF loop] ipcp_step_early by metis
  then show ?thesis using exec_step_stream[OF ex] st1 by (auto simp: ipcp_init_def)
qed

lemma decodes_small:
  "decodes w fs w' \<Longrightarrow> list_all (\<lambda>(p, b). length b + 2 \<le> MAX_FORTI_BODY) fs"
  by (induction rule: decodes.induct) (auto dest: try_decode_ppp_length)

text \<open>
  C16: no data packet that arrives during the negotiation is lost, repeated or
  reordered.  Let \<open>fs @ gs\<close> be the frames in everything the gateway sends (after
  an HTTP prologue, if there is one), where the negotiation handled \<open>fs\<close>: then
  the buffer handed to the forwarding loop, followed by what is still to be
  read, decodes to the IPv4 frames of \<open>fs\<close>, then to all of \<open>gs\<close>, and ends alike.
\<close>

theorem negotiate_keeps_early_data:
  assumes "negotiate t s prime = (Inr (sess, prime_out), s')"
  shows "\<exists>fs gs r.
      drain try_decode_ppp (snd (strip_http_prologue (prime @ inbox_data (inbox s)))) = Some (fs @ gs, r)
    \<and> drain try_decode_ppp (prime_out @ inbox_data (inbox s'))
        = Some (filter (\<lambda>(p, b). p = PPP_IPV4) fs @ gs, r)"
proof -
  let ?io = "\<lparr>io_stream = s, io_buf = prime, http_checked = False\<rparr>"
  obtain io' where run: "negotiate_io (gen_magic t) ?io = (Inr (sess, prime_out), io')" and s': "s' = io_stream io'"
    using assms by (auto simp: negotiate_def split: prod.splits)
  from run show ?thesis
  proof (cases rule: negotiate_io_cases)
    case (ok lcp io1 ip a io2)
    obtain fs1 where fs1: "decodes (frame_stream ?io) fs1 (frame_stream io1)" "lcp_early lcp = staged fs1" "http_checked io1"
      using lcp_phase_stream[OF ok(1)] by auto
    obtain fs2 where fs2: "decodes (frame_stream io1) fs2 (frame_stream io2)"
      "ip_early ip = lcp_early lcp @ staged fs2" "http_checked io2"
      using ipcp_phase_stream[OF ok(2)] fs1(3) by auto
    define fs where "fs = fs1 @ fs2"
    define w where "w = frame_stream io2"
    have d: "decodes (frame_stream ?io) fs w"
      unfolding fs_def w_def using decodes_trans[OF fs2(1) fs1(1)] .
    have out: "prime_out @ inbox_data (inbox s') = staged fs @ w"
      using ok fs1 fs2 s' by (simp add: fs_def w_def frame_stream_def pending_def)
    obtain gs r where g: "drain try_decode_ppp w = Some (gs, r)" using ppp.drain_total by blast
    let ?ip = "filter (\<lambda>(p, b). p = PPP_IPV4) fs"
    have ok4: "list_all (\<lambda>(p, b). p \<noteq> 0xFF03 \<and> length b + 2 \<le> MAX_FORTI_BODY) ?ip"
      using decodes_small[OF d] by (auto simp: list_all_iff PPP_IPV4_def)
    have "drain try_decode_ppp (staged fs @ w) = Some (?ip @ gs, r)"
      using ppp.drain_encoded[OF ok4, of w] g by (simp add: staged_def)
    moreover have "frame_stream ?io = snd (strip_http_prologue (prime @ inbox_data (inbox s)))"
      by (simp add: frame_stream_def pending_def)
    ultimately show ?thesis using decodes_drain[OF d] g out by auto
  qed auto
qed

theorem negotiate_keeps_early_data_witness:
  "\<exists>sess out s' fs gs r. negotiate None quiet_stream handshake = (Inr (sess, out), s')
    \<and> drain try_decode_ppp (out @ inbox_data (inbox s'))
        = Some (filter (\<lambda>(p, b). p = PPP_IPV4) fs @ gs, r)"
proof -
  obtain s' where "negotiate None quiet_stream handshake =
     (Inr (\<lparr>ppp_address = Ipv4 10 0 0 2, ppp_peer = None, ppp_dns = [], ppp_mtu = 1354,
           ppp_magic = 0x59454C4D\<rparr>, encode_ppp PPP_IPV4 [0x45, 1] @ encode_ppp PPP_IPV4 [0x45, 2]), s')"
    using negotiate_handshake by (metis prod.collapse)
  from negotiate_keeps_early_data[OF this] this show ?thesis by blast
qed

end
