(* ===== verification/Cli_Args.thy ===== *)
theory Cli_Args
  imports Errors "HOL-Library.AList" "HOL-Library.Multiset"
begin

text \<open>
  What the command line client is told (\<open>vpn-cli/src/main.rs\<close>): the dispatch of
  the command, the flags, the profile file, and how the two are merged.  A
  profile goes through a \<open>HashMap\<close>, whose iteration order is a parameter.
\<close>

section \<open>Settings\<close>

record settings =
  st_host :: "string option"
  st_port :: "16 word option"
  st_username :: "string option"
  st_password :: "string option"
  st_protocol :: "protocol option"
  st_realm :: "string option"
  st_insecure :: "bool option"
  st_servercert :: "string option"
  st_verbose :: bool
  st_password_stdin :: bool
  st_profile_dir :: "string option"

definition settings_default :: settings where
  "settings_default =
     \<lparr>st_host = None, st_port = None, st_username = None, st_password = None, st_protocol = None,
      st_realm = None, st_insecure = None, st_servercert = None, st_verbose = False,
      st_password_stdin = False, st_profile_dir = None\<rparr>"

fun take_some :: "'a option \<Rightarrow> 'a option \<Rightarrow> 'a option" where
  "take_some (Some v) old = Some v"
| "take_some None old = old"

definition merge_over :: "settings \<Rightarrow> settings \<Rightarrow> settings" where
  "merge_over self other =
     \<lparr>st_host = take_some (st_host other) (st_host self),
      st_port = take_some (st_port other) (st_port self),
      st_username = take_some (st_username other) (st_username self),
      st_password = take_some (st_password other) (st_password self),
      st_protocol = take_some (st_protocol other) (st_protocol self),
      st_realm = take_some (st_realm other) (st_realm self),
      st_insecure = take_some (st_insecure other) (st_insecure self),
      st_servercert = take_some (st_servercert other) (st_servercert self),
      st_verbose = (st_verbose self \<or> st_verbose other),
      st_password_stdin = (st_password_stdin self \<or> st_password_stdin other),
      st_profile_dir = take_some (st_profile_dir other) (st_profile_dir self)\<rparr>"

section \<open>Values\<close>

definition parse_protocol :: "string \<Rightarrow> string + protocol" where
  "parse_protocol s =
     (let t = filter (\<lambda>c. c \<noteq> CHR ''-'' \<and> c \<noteq> CHR ''_'') (to_ascii_lowercase s) in
      if t \<in> set [''anyconnect'', ''cisco'', ''cstp''] then Inr AnyConnect
      else if t \<in> set [''checkpoint'', ''snx''] then Inr Checkpoint
      else if t \<in> set [''fortigate'', ''fortinet'', ''forticlient'', ''forti''] then Inr FortiGate
      else Inl (''unknown protocol '' @ debug_str t @ ''; expected anyconnect, checkpoint, or fortigate''))"

definition parse_bool :: "string \<Rightarrow> string + bool" where
  "parse_bool s =
     (let t = to_ascii_lowercase s in
      if t \<in> set [''1'', ''true'', ''yes'', ''on''] then Inr True
      else if t \<in> set [''0'', ''false'', ''no'', ''off''] then Inr False
      else Inl (''expected a boolean, got '' @ debug_str t))"

definition parse_port :: "string \<Rightarrow> string + 16 word" where
  "parse_port v =
     (case parse_uint 65536 v of
        Some n \<Rightarrow> Inr (as_u16 n)
      | None \<Rightarrow> Inl (''invalid port '' @ debug_str v))"

section \<open>Flags\<close>

text \<open>\<open>--flag=value\<close> is split at the first equals sign.\<close>

definition split_flag :: "string \<Rightarrow> string \<times> string option" where
  "split_flag a =
     (case split_once ''='' a of
        Some (f, v) \<Rightarrow> if prefix ''--'' f then (f, Some v) else (a, None)
      | None \<Rightarrow> (a, None))"

text \<open>The value of a flag: the inline one, or the next argument.\<close>

fun flag_value :: "string \<Rightarrow> string option \<Rightarrow> string list \<Rightarrow> string + (string \<times> string list)" where
  "flag_value name (Some v) rest = Inr (v, rest)"
| "flag_value name None [] = Inl (name @ '' needs a value'')"
| "flag_value name None (v # rest) = Inr (v, rest)"

type_synonym parsed = "settings \<times> string option"

text \<open>One turn of the loop: the parsed settings and the arguments left.\<close>

definition arg_step :: "string \<Rightarrow> string list \<Rightarrow> parsed \<Rightarrow> string + (parsed \<times> string list)" where
  "arg_step a rest acc =
     (case (split_flag a, acc) of ((flag, inline), (s, profile)) \<Rightarrow>
        let val = (\<lambda>name. flag_value name inline rest);
            set_with = (\<lambda>name f. and_then (val name) (\<lambda>(v, r). Inr ((f v, profile), r))) in
        if flag \<in> set [''-H'', ''--host''] then set_with ''--host'' (\<lambda>v. s\<lparr>st_host := Some v\<rparr>)
        else if flag \<in> set [''-p'', ''--port''] then
          and_then (val ''--port'') (\<lambda>(v, r).
            and_then (parse_port v) (\<lambda>p. Inr ((s\<lparr>st_port := Some p\<rparr>, profile), r)))
        else if flag \<in> set [''-u'', ''--user'', ''--username''] then
          set_with ''--user'' (\<lambda>v. s\<lparr>st_username := Some v\<rparr>)
        else if flag = ''--protocol'' then
          and_then (val ''--protocol'') (\<lambda>(v, r).
            and_then (parse_protocol v) (\<lambda>p. Inr ((s\<lparr>st_protocol := Some p\<rparr>, profile), r)))
        else if flag = ''--realm'' then set_with ''--realm'' (\<lambda>v. s\<lparr>st_realm := Some v\<rparr>)
        else if flag = ''--servercert'' then set_with ''--servercert'' (\<lambda>v. s\<lparr>st_servercert := Some v\<rparr>)
        else if flag = ''--profile-dir'' then set_with ''--profile-dir'' (\<lambda>v. s\<lparr>st_profile_dir := Some v\<rparr>)
        else if flag = ''--insecure'' then Inr ((s\<lparr>st_insecure := Some True\<rparr>, profile), rest)
        else if flag = ''--password-stdin'' then Inr ((s\<lparr>st_password_stdin := True\<rparr>, profile), rest)
        else if flag \<in> set [''-v'', ''--verbose''] then Inr ((s\<lparr>st_verbose := True\<rparr>, profile), rest)
        else if prefix ''-'' flag then Inl (''unknown option '' @ debug_str flag @ ''; try --help'')
        else case profile of
            Some _ \<Rightarrow> Inl (''unexpected extra argument '' @ debug_str flag)
          | None \<Rightarrow> Inr ((s, Some flag), rest))"

lemma flag_value_shorter: "flag_value name inline rest = Inr (v, r) \<Longrightarrow> length r \<le> length rest"
  by (cases "(name, inline, rest)" rule: flag_value.cases) auto

lemma arg_step_shorter: "arg_step a rest acc = Inr (acc', r) \<Longrightarrow> length r \<le> length rest"
  unfolding arg_step_def Let_def
  by (auto simp: and_then_Inr_iff split: prod.splits if_splits option.splits dest!: flag_value_shorter)

function parse_args_from :: "string list \<Rightarrow> parsed \<Rightarrow> string + parsed" where
  "parse_args_from [] acc = Inr acc"
| "parse_args_from (a # rest) acc =
     (case arg_step a rest acc of Inl e \<Rightarrow> Inl e | Inr (acc', r) \<Rightarrow> parse_args_from r acc')"
  by pat_completeness auto
termination
  by (relation "measure (length \<circ> fst)") (auto dest: arg_step_shorter)

definition parse_args :: "string list \<Rightarrow> string + parsed" where
  "parse_args args = parse_args_from args (settings_default, None)"

text \<open>The command that \<open>run\<close> dispatches to.\<close>

datatype cli_command = Usage | Version | Connect "string list" | Profiles "string list" | Probe "string list"

definition cli_run :: "string list \<Rightarrow> string + cli_command" where
  "cli_run args =
     (if args = [] \<or> list_ex (\<lambda>a. a = ''-h'' \<or> a = ''--help'') args then Inr Usage
      else if list_ex (\<lambda>a. a = ''-V'' \<or> a = ''--version'') args then Inr Version
      else if hd args = ''connect'' then Inr (Connect (tl args))
      else if hd args = ''profiles'' then Inr (Profiles (tl args))
      else if hd args = ''probe'' then Inr (Probe (tl args))
      else Inl (''unknown command '' @ debug_str (hd args) @ ''; try --help''))"

end
