(* ===== verification/Cli_Profile.thy ===== *)
theory Cli_Profile
  imports Cli_Args "HOL-Library.List_Lexorder" "HOL-Library.Char_ord"
begin

text \<open>
  Profile files of the command line client (\<open>vpn-cli/src/main.rs\<close>): where they are
  looked for, which names are accepted, and the \<open>key = value\<close> format.

  The pairs of a file are collected in a \<open>HashMap\<close> and then applied in its
  iteration order, which is not specified: it is the parameter \<open>ord\<close>, of which it
  is only assumed that it returns the entries in some order.
\<close>

section \<open>The format\<close>

definition profile_line :: "nat \<Rightarrow> string \<Rightarrow> string + (string \<times> string) option" where
  "profile_line n raw =
     (let line = trim (hd (split_on (CHR ''#'') raw)) in
      if line = [] then Inr None
      else case split_once ''='' line of
          None \<Rightarrow> Inl (''line '' @ show_nat (n + 1) @ '': expected `key = value`, got '' @ debug_str line)
        | Some (k, v) \<Rightarrow> Inr (Some (to_ascii_lowercase (trim k), trim v)))"

text \<open>The entries of the map; inserting a key again replaces its value.\<close>

fun profile_lines :: "nat \<Rightarrow> string list \<Rightarrow> (string \<times> string) list \<Rightarrow> string + (string \<times> string) list" where
  "profile_lines n [] kv = Inr kv"
| "profile_lines n (raw # rest) kv =
     (case profile_line n raw of
        Inl e \<Rightarrow> Inl e
      | Inr None \<Rightarrow> profile_lines (n + 1) rest kv
      | Inr (Some (k, v)) \<Rightarrow> profile_lines (n + 1) rest (AList.update k v kv))"

definition profile_key :: "string \<times> string \<Rightarrow> settings \<Rightarrow> string + settings" where
  "profile_key kv s =
     (case kv of (k, v) \<Rightarrow>
        if k \<in> set [''host'', ''gateway''] then Inr (s\<lparr>st_host := Some v\<rparr>)
        else if k = ''port'' then and_then (parse_port v) (\<lambda>p. Inr (s\<lparr>st_port := Some p\<rparr>))
        else if k \<in> set [''username'', ''user''] then Inr (s\<lparr>st_username := Some v\<rparr>)
        else if k = ''password'' then Inr (s\<lparr>st_password := Some v\<rparr>)
        else if k = ''protocol'' then and_then (parse_protocol v) (\<lambda>p. Inr (s\<lparr>st_protocol := Some p\<rparr>))
        else if k = ''realm'' then Inr (s\<lparr>st_realm := Some v\<rparr>)
        else if k = ''insecure'' then and_then (parse_bool v) (\<lambda>b. Inr (s\<lparr>st_insecure := Some b\<rparr>))
        else if k \<in> set [''servercert'', ''cert_sha256''] then Inr (s\<lparr>st_servercert := Some v\<rparr>)
        else Inl (''unknown profile key '' @ debug_str k))"

fun profile_keys :: "(string \<times> string) list \<Rightarrow> settings \<Rightarrow> string + settings" where
  "profile_keys [] s = Inr s"
| "profile_keys (kv # kvs) s = and_then (profile_key kv s) (profile_keys kvs)"

type_synonym map_order = "(string \<times> string) list \<Rightarrow> (string \<times> string) list"

definition parse_profile :: "map_order \<Rightarrow> string \<Rightarrow> string + settings" where
  "parse_profile ord text =
     and_then (profile_lines 0 (lines text) []) (\<lambda>kv. profile_keys (ord kv) settings_default)"

section \<open>The file\<close>

text \<open>\<open>Path::join\<close> of a relative name.\<close>

definition path_join :: "string \<Rightarrow> string \<Rightarrow> string" where
  "path_join dir name = (if dir = [] \<or> last dir = CHR ''/'' then dir @ name else dir @ ''/'' @ name)"

definition name_refused :: "string \<Rightarrow> bool" where
  "name_refused name =
     (CHR ''/'' \<in> set name \<or> CHR 0x5C \<in> set name \<or> contains_sub ''..'' name)"

text \<open>\<open>read_file\<close> is \<open>read_to_string\<close>, with the text of the error.\<close>

definition load_profile :: "map_order \<Rightarrow> (string \<Rightarrow> string + string) \<Rightarrow> string \<Rightarrow> string \<Rightarrow> string + settings" where
  "load_profile ord read_file dir name =
     (if name_refused name then Inl (''invalid profile name '' @ debug_str name)
      else
        let path = path_join dir (name @ ''.conf'') in
        and_then (map_err (\<lambda>e. ''cannot read profile '' @ path @ '': '' @ e) (read_file path)) (\<lambda>text.
          map_err (\<lambda>e. path @ '': '' @ e) (parse_profile ord text)))"

text \<open>\<open>profiles\<close>: the names of the files of the directory with the extension \<open>conf\<close>, sorted.\<close>

definition conf_stem :: "string \<Rightarrow> string option" where
  "conf_stem name =
     (case strip_suffix ''.conf'' name of
        Some (c # stem) \<Rightarrow> Some (c # stem)
      | _ \<Rightarrow> None)"

definition profile_names :: "string list \<Rightarrow> string list" where
  "profile_names entries = sort (List.map_filter conf_stem entries)"

text \<open>
  The directory: the one given, else the invoking user's under \<open>sudo\<close> if it
  exists, else the default.  The home of the \<open>sudo\<close> user and the environment
  are given; \<open>is_dir\<close> is the file system.
\<close>

record cli_dirs =
  sudo_home :: "string option"
  xdg_config :: "string option"
  home :: "string option"

definition default_profile_dir :: "cli_dirs \<Rightarrow> string option" where
  "default_profile_dir d =
     map_option (\<lambda>b. path_join (path_join b ''yellow-vpn'') ''profiles'')
       (case xdg_config d of
          Some x \<Rightarrow> Some x
        | None \<Rightarrow> map_option (\<lambda>h. path_join h ''.config'') (home d))"

definition profile_dir :: "cli_dirs \<Rightarrow> (string \<Rightarrow> bool) \<Rightarrow> string option \<Rightarrow> string option" where
  "profile_dir d is_dir override =
     (case override of
        Some dir \<Rightarrow> Some dir
      | None \<Rightarrow>
          (case sudo_home d of
             Some h \<Rightarrow>
               let p = path_join (path_join (path_join h ''.config'') ''yellow-vpn'') ''profiles'' in
               if is_dir p then Some p else default_profile_dir d
           | None \<Rightarrow> default_profile_dir d))"

section \<open>The order of the map\<close>

text \<open>The two names of a setting.\<close>

definition aliases :: "(string \<times> string) list" where
  "aliases = [(''host'', ''gateway''), (''username'', ''user''), (''servercert'', ''cert_sha256'')]"

definition no_alias_clash :: "string set \<Rightarrow> bool" where
  "no_alias_clash K = list_all (\<lambda>(a, b). \<not> (a \<in> K \<and> b \<in> K)) aliases"

text \<open>What a set of entries says, setting by setting.\<close>

definition key_ok :: "string \<times> string \<Rightarrow> bool" where
  "key_ok kv = is_ok (profile_key kv settings_default)"

fun ok_value :: "'e + 'a \<Rightarrow> 'a option" where
  "ok_value (Inr v) = Some v"
| "ok_value (Inl e) = None"

definition apply_entries :: "(string \<Rightarrow> string option) \<Rightarrow> settings \<Rightarrow> settings" where
  "apply_entries m s =
     \<lparr>st_host = take_some (take_some (m ''host'') (m ''gateway'')) (st_host s),
      st_port = take_some (opt_bind (m ''port'') (\<lambda>v. ok_value (parse_port v))) (st_port s),
      st_username = take_some (take_some (m ''username'') (m ''user'')) (st_username s),
      st_password = take_some (m ''password'') (st_password s),
      st_protocol = take_some (opt_bind (m ''protocol'') (\<lambda>v. ok_value (parse_protocol v))) (st_protocol s),
      st_realm = take_some (m ''realm'') (st_realm s),
      st_insecure = take_some (opt_bind (m ''insecure'') (\<lambda>v. ok_value (parse_bool v))) (st_insecure s),
      st_servercert = take_some (take_some (m ''servercert'') (m ''cert_sha256'')) (st_servercert s),
      st_verbose = st_verbose s, st_password_stdin = st_password_stdin s, st_profile_dir = st_profile_dir s\<rparr>"

lemma take_some_None [simp]: "take_some x None = x"
  by (cases x) auto

lemma apply_entries_empty: "apply_entries Map.empty s = s"
  by (simp add: apply_entries_def)

lemma known_keys:
  assumes "profile_key (k, v) s = Inr t"
  shows "k \<in> set [''host'', ''gateway'', ''port'', ''username'', ''user'', ''password'', ''protocol'', ''realm'',
    ''insecure'', ''servercert'', ''cert_sha256'']"
  using assms unfolding profile_key_def prod.case by (auto split: if_splits)


lemma key_ok_start: "is_ok (profile_key kv s) = key_ok kv"
  by (cases kv) (simp add: key_ok_def profile_key_def is_ok_def and_then_Inl_iff split: sum.splits)

lemma no_alias_clash_simps:
  "no_alias_clash K \<longleftrightarrow> \<not> (''host'' \<in> K \<and> ''gateway'' \<in> K) \<and> \<not> (''username'' \<in> K \<and> ''user'' \<in> K)
     \<and> \<not> (''servercert'' \<in> K \<and> ''cert_sha256'' \<in> K)"
  by (simp add: no_alias_clash_def aliases_def)

lemma profile_key_entry:
  assumes "profile_key (k, v) s = Inr t" "m k = None" "no_alias_clash (insert k (dom m))"
  shows "apply_entries m t = apply_entries (m(k \<mapsto> v)) s"
proof -
  have other: "k = ''host'' \<Longrightarrow> m ''gateway'' = None" "k = ''gateway'' \<Longrightarrow> m ''host'' = None"
    "k = ''username'' \<Longrightarrow> m ''user'' = None" "k = ''user'' \<Longrightarrow> m ''username'' = None"
    "k = ''servercert'' \<Longrightarrow> m ''cert_sha256'' = None" "k = ''cert_sha256'' \<Longrightarrow> m ''servercert'' = None"
    using assms(3) by (auto simp: no_alias_clash_simps domIff)
  show ?thesis
    using known_keys[OF assms(1), simplified list.set] other assms(1,2)
    by (elim insertE emptyE; hypsubst)
       (simp_all add: profile_key_def apply_entries_def and_then_Inr_iff, safe, simp_all)
qed

lemma profile_keys_entries:
  "distinct (map fst kvs) \<Longrightarrow> no_alias_clash (fst ` set kvs) \<Longrightarrow>
   profile_keys kvs s = Inr t \<longleftrightarrow> list_all key_ok kvs \<and> t = apply_entries (map_of kvs) s"
proof (induction kvs arbitrary: s)
  case Nil
  then show ?case by (auto simp: apply_entries_empty)
next
  case (Cons kv kvs)
  obtain k v where kv: "kv = (k, v)" by fastforce
  have fresh: "map_of kvs k = None" and clash: "no_alias_clash (insert k (dom (map_of kvs)))"
    and rest: "distinct (map fst kvs)" "no_alias_clash (fst ` set kvs)"
    using Cons.prems kv by (auto simp: map_of_eq_None_iff dom_map_of_conv_image_fst no_alias_clash_def aliases_def)
  show ?case
  proof (cases "profile_key kv s")
    case (Inl e)
    then have "\<not> key_ok kv" using key_ok_start[of kv s] by (simp add: is_ok_def)
    then show ?thesis using Inl by simp
  next
    case (Inr s1)
    then have ok: "key_ok kv" using key_ok_start[of kv s] by (simp add: is_ok_def)
    have e: "apply_entries (map_of kvs) s1 = apply_entries (map_of (kv # kvs)) s"
      using profile_key_entry[OF Inr[unfolded kv] fresh clash] by (simp add: kv)
    show ?thesis
      unfolding profile_keys.simps Inr and_then.simps Cons.IH[OF rest] list.pred_inject(2) e using ok by blast
  qed
qed

lemma profile_lines_distinct:
  "profile_lines n ls kv = Inr kv' \<Longrightarrow> distinct (map fst kv) \<Longrightarrow> distinct (map fst kv')"
  by (induction n ls kv rule: profile_lines.induct) (auto split: sum.splits option.splits simp: distinct_update)

lemma map_of_permuted:
  assumes "mset xs = mset ys" "distinct (map fst ys)"
  shows "map_of xs = map_of ys" "distinct (map fst xs)" "set xs = set ys"
proof -
  have "mset (map fst xs) = mset (map fst ys)" using assms(1) by simp
  then show d: "distinct (map fst xs)" using assms(2) by (metis distinct_count_atmost_1 mset_eq_setD count_mset)
  show s: "set xs = set ys" using assms(1) by (rule mset_eq_setD)
  show "map_of xs = map_of ys"
    using map_of_inject_set[OF d assms(2)] s by simp
qed



definition example_profile :: string where
  "example_profile = ''Host = h1 # old'' @ [LF] @ ''port=8443'' @ [LF, LF] @ ''host = h2''"


section \<open>Names\<close>

lemma conf_stem_Some: "conf_stem f = Some n \<longleftrightarrow> n \<noteq> [] \<and> f = n @ ''.conf''"
proof
  assume "conf_stem f = Some n"
  then show "n \<noteq> [] \<and> f = n @ ''.conf''"
    by (auto simp: conf_stem_def strip_suffix_def suffix_def split: if_splits option.splits list.splits)
next
  assume "n \<noteq> [] \<and> f = n @ ''.conf''"
  then show "conf_stem f = Some n" by (cases n) (simp_all add: conf_stem_def strip_suffix_def suffix_def)
qed

lemma set_map_filter: "set (List.map_filter f xs) = {y. \<exists>x \<in> set xs. f x = Some y}"
  by (induction xs) (auto simp: List.map_filter_simps split: option.splits)

text \<open>
  The names that \<open>profiles\<close> lists are those of the \<open>.conf\<close> files, sorted, and
  the path that \<open>connect\<close> reads for an accepted name is exactly that file of the
  directory: no accepted name contains a separator or two dots in a row, so that no
  name leads outside the directory.
\<close>

theorem profile_paths:
  "sorted (profile_names entries)
   \<and> set (profile_names entries) = {n. n \<noteq> [] \<and> n @ ''.conf'' \<in> set entries}
   \<and> (if name_refused name then load_profile ord read_file dir name = Inl (''invalid profile name '' @ debug_str name)
      else CHR ''/'' \<notin> set name \<and> find_sub ''..'' name = None
        \<and> (is_ok (load_profile ord read_file dir name) =
             (case read_file (path_join dir (name @ ''.conf'')) of
                Inr text \<Rightarrow> is_ok (parse_profile ord text) | Inl e \<Rightarrow> False)))"
proof -
  have "set (profile_names entries) = {n. \<exists>f \<in> set entries. n \<noteq> [] \<and> f = n @ ''.conf''}"
    by (simp only: profile_names_def set_sort set_map_filter conf_stem_Some)
  then have names: "set (profile_names entries) = {n. n \<noteq> [] \<and> n @ ''.conf'' \<in> set entries}" by auto
  have sorted: "sorted (profile_names entries)" by (simp add: profile_names_def)
  have ok: "is_ok (map_err f x) = is_ok x" for f and x :: "string + settings"
    by (cases x) (simp_all add: is_ok_def)
  have loaded: "is_ok (load_profile ord read_file dir name) =
     (case read_file (path_join dir (name @ ''.conf'')) of
        Inr text \<Rightarrow> is_ok (parse_profile ord text) | Inl e \<Rightarrow> False)" if "\<not> name_refused name"
    by (cases "read_file (path_join dir (name @ ''.conf''))")
       (simp_all only: load_profile_def that if_False Let_def map_err.simps and_then.simps ok sum.case, simp add: is_ok_def)
  have plain: "\<not> name_refused name \<Longrightarrow> CHR ''/'' \<notin> set name \<and> find_sub ''..'' name = None"
    by (simp add: name_refused_def contains_sub_def)
  have refused: "name_refused name \<Longrightarrow> load_profile ord read_file dir name = Inl (''invalid profile name '' @ debug_str name)"
    by (simp only: load_profile_def if_True)
  show ?thesis
    using names sorted loaded plain refused by (cases "name_refused name") (simp_all only: if_True if_False simp_thms)
qed

end
