(* ===== verification/Cli_Commands.thy ===== *)
theory Cli_Commands
  imports Cli_Profile Client
begin

text \<open>
  The commands of the command line client (\<open>vpn-cli/src/main.rs\<close>): where the
  password comes from, the privileges, the configuration that \<open>connect\<close> hands to
  the engine, and \<open>probe\<close>, which does what \<open>connect\<close> does short of the device.
  What \<open>probe\<close> prints is kept as a report of the values; the prompt for the
  password and the privileges are those of Linux.
\<close>

section \<open>The password\<close>

record terminal =
  tty_open :: "string option"
  tty_getattr :: "string option"
  tty_setattr :: "string option"
  tty_restore :: "string option"
  tty_input :: "(string + byte) list"
  tty_echo :: bool
  tty_shown :: string

text \<open>
  The fields before the input are the errors of the calls, if they fail.  One
  line is read byte by byte; the end of the input ends it.
\<close>

fun read_password :: "(string + byte) list \<Rightarrow> bytes \<Rightarrow> (string + unit) \<times> bytes \<times> (string + byte) list" where
  "read_password [] line = (Inr (), line, [])"
| "read_password (Inr b # rest) line =
     (if b = 0x0A then (Inr (), line, rest)
      else if b = 0x0D then read_password rest line
      else read_password rest (line @ [b]))"
| "read_password (Inl e # rest) line = (Inl (''reading password: '' @ e), line, rest)"

definition prompt_password :: "string \<Rightarrow> terminal \<Rightarrow> (string + string) \<times> terminal" where
  "prompt_password prompt t =
     (case tty_open t of
        Some e \<Rightarrow> (Inl (''no password available and no terminal to prompt on ('' @ e
                     @ ''). Set $YELLOW_VPN_PASSWORD or use --password-stdin.''), t)
      | None \<Rightarrow>
     (case tty_getattr t of
        Some e \<Rightarrow> (Inl (''tcgetattr: '' @ e), t)
      | None \<Rightarrow>
     (case tty_setattr t of
        Some e \<Rightarrow> (Inl (''tcsetattr: '' @ e), t)
      | None \<Rightarrow>
          let saved = tty_echo t;
              t1 = t\<lparr>tty_echo := False, tty_shown := tty_shown t @ prompt\<rparr>;
              (got, line, rest) = read_password (tty_input t1) [];
              t2 = t1\<lparr>tty_input := rest, tty_echo := (if tty_restore t = None then saved else tty_echo t1),
                      tty_shown := tty_shown t1 @ [LF]\<rparr> in
          (and_then got (\<lambda>_.
             if \<not> utf8_valid line then Inl ''password is not valid UTF-8''
             else if line = [] then Inl ''empty password''
             else Inr (str_of_bytes line)), t2))))"

definition trim_end_newlines :: "string \<Rightarrow> string" where
  "trim_end_newlines s = rev (dropWhile (\<lambda>c. c = CR \<or> c = LF) (rev s))"

text \<open>\<open>stdin\<close> is what \<open>read_to_string\<close> returns; \<open>env\<close> is \<open>$YELLOW_VPN_PASSWORD\<close>.\<close>

definition resolve_password ::
  "string + string \<Rightarrow> string option \<Rightarrow> settings \<Rightarrow> string \<Rightarrow> string \<Rightarrow> terminal \<Rightarrow> (string + string) \<times> terminal" where
  "resolve_password stdin env s host user t =
     (if st_password_stdin s then
        (and_then (map_err (\<lambda>e. ''reading the password from stdin: '' @ e) stdin) (\<lambda>buf.
           let p = trim_end_newlines buf in
           if p = [] then Inl ''--password-stdin was given but stdin was empty'' else Inr p), t)
      else case env of
        Some (c # p) \<Rightarrow> (Inr (c # p), t)
      | _ \<Rightarrow>
          (case st_password s of
             Some (c # p) \<Rightarrow> (Inr (c # p), t)
           | _ \<Rightarrow> prompt_password (''Password for '' @ user @ ''@'' @ host @ '': '') t))"

section \<open>Privileges\<close>

text \<open>\<open>status\<close> is the text of \<open>/proc/self/status\<close>, if it can be read.\<close>

definition has_cap_net_admin :: "string option \<Rightarrow> bool" where
  "has_cap_net_admin status =
     (case opt_bind status (\<lambda>text. opt_bind (find (\<lambda>l. strip_prefix ''CapEff:'' l \<noteq> None) (lines text))
             (strip_prefix ''CapEff:'')) of
        None \<Rightarrow> False
      | Some hex \<Rightarrow>
          (case parse_radix 16 (2 ^ 64) (trim hex) of
             None \<Rightarrow> False
           | Some caps \<Rightarrow> and (word_of_nat caps :: 64 word) (push_bit 12 1) \<noteq> 0))"

definition help_privileges :: string where
  "help_privileges =
     ''needs CAP_NET_ADMIN '' @ [CHR 0xE2, CHR 0x80, CHR 0x94]
     @ '' the CLI creates the TUN device and installs routes itself.'' @ [LF, LF]
     @ ''Either run it with sudo (keep -E so $YELLOW_VPN_PASSWORD survives):'' @ [LF]
     @ ''    sudo -E yellow-vpn connect ...'' @ [LF, LF]
     @ ''or grant the capability once so no sudo is needed afterwards:'' @ [LF]
     @ ''    sudo setcap cap_net_admin+ep $(command -v yellow-vpn)''"

definition require_privileges :: "bool \<Rightarrow> string option \<Rightarrow> string + unit" where
  "require_privileges is_root status =
     (if is_root then Inr () else if has_cap_net_admin status then Inr () else Inl help_privileges)"

section \<open>Settings of a command\<close>

record cli_env =
  ce_order :: map_order
  ce_dirs :: cli_dirs
  ce_is_dir :: "string \<Rightarrow> bool"
  ce_read_file :: "string \<Rightarrow> string + string"
  ce_stdin :: "string + string"
  ce_password :: "string option"
  ce_terminal :: terminal
  ce_root :: bool
  ce_status :: "string option"

definition command_settings :: "cli_env \<Rightarrow> string list \<Rightarrow> string + settings" where
  "command_settings env args =
     and_then (parse_args args) (\<lambda>(cli, profile_name).
       and_then
         (case profile_name of
            None \<Rightarrow> Inr settings_default
          | Some name \<Rightarrow>
              and_then (ok_or ''cannot determine the profile directory; pass --profile-dir''
                          (profile_dir (ce_dirs env) (ce_is_dir env) (st_profile_dir cli)))
                (\<lambda>dir. load_profile (ce_order env) (ce_read_file env) dir name))
         (\<lambda>settings. Inr (merge_over settings cli)))"

definition pinned_cert :: "settings \<Rightarrow> string + bytes option" where
  "pinned_cert s =
     (case st_servercert s of
        Some f \<Rightarrow>
          if trim f \<noteq> [] then and_then (map_err show_error (parse_sha256_fingerprint f)) (\<lambda>pin. Inr (Some pin))
          else Inr None
      | None \<Rightarrow> Inr None)"

section \<open>\<open>connect\<close>\<close>

text \<open>Everything before the engine: the configuration and the password, which is not stored in it.\<close>

definition connect_setup :: "cli_env \<Rightarrow> string list \<Rightarrow> (string + config \<times> string) \<times> terminal" where
  "connect_setup env args =
     (case and_then (command_settings env args) (\<lambda>s.
             and_then (ok_or ''--host is required'' (st_host s)) (\<lambda>host.
             and_then (ok_or ''--user is required'' (st_username s)) (\<lambda>username.
             and_then (pinned_cert s) (\<lambda>cert. Inr (s, host, username, cert))))) of
        Inl e \<Rightarrow> (Inl e, ce_terminal env)
      | Inr (s, host, username, cert) \<Rightarrow>
          (case resolve_password (ce_stdin env) (ce_password env) s host username (ce_terminal env) of
             (Inl e, t) \<Rightarrow> (Inl e, t)
           | (Inr password, t) \<Rightarrow>
               (and_then (require_privileges (ce_root env) (ce_status env)) (\<lambda>_.
                  Inr (\<lparr>cfg_host = host, cfg_port = unwrap_or 443 (st_port s), cfg_username = username,
                        cfg_password = None, cfg_verbose = st_verbose s, cfg_cert_sha256 = cert,
                        cfg_insecure = unwrap_or False (st_insecure s),
                        cfg_protocol = unwrap_or default_protocol (st_protocol s),
                        cfg_realm = unwrap_or [] (st_realm s)\<rparr>, password)), t)))"

text \<open>The engine runs only when the setup succeeded; its error becomes the message of the command.\<close>

definition cmd_connect ::
  "'os route_op \<Rightarrow> 'os route_op \<Rightarrow> cli_env \<Rightarrow> string list \<Rightarrow> attempt_env list \<Rightarrow> 'os sys
     \<Rightarrow> (string + unit outcome) \<times> 'os sys" where
  "cmd_connect radd rdel env args envs c =
     (case connect_setup env args of
        (Inl e, _) \<Rightarrow> (Inl e, c)
      | (Inr (cfg, password), _) \<Rightarrow>
          (case run_client_supervised radd rdel cfg password envs c of
             (Returned (Inl e), c1) \<Rightarrow> (Inl (show_error e), c1)
           | (r, c1) \<Rightarrow> (Inr r, c1)))"

section \<open>\<open>probe\<close>\<close>

record probe_target =
  pt_host :: string
  pt_port :: "16 word"
  pt_username :: string
  pt_realm :: string
  pt_protocol :: protocol
  pt_trust :: cert_trust

definition probe_setup :: "cli_env \<Rightarrow> string list \<Rightarrow> (string + probe_target \<times> string) \<times> terminal" where
  "probe_setup env args =
     (case and_then (command_settings env args) (\<lambda>s.
             and_then (ok_or ''--host is required'' (st_host s)) (\<lambda>host.
             and_then (ok_or ''--user is required'' (st_username s)) (\<lambda>username.
             let protocol = unwrap_or default_protocol (st_protocol s) in
             if protocol = AnyConnect then Inl ''probe supports --protocol fortigate and checkpoint only''
             else
               and_then
                 (case st_servercert s of
                    Some f \<Rightarrow>
                      if trim f \<noteq> [] then
                        and_then (map_err show_error (parse_sha256_fingerprint f)) (\<lambda>pin. Inr (Pinned pin))
                      else Inr (if unwrap_or False (st_insecure s) then Insecure else Webpki)
                  | None \<Rightarrow> Inr (if unwrap_or False (st_insecure s) then Insecure else Webpki))
                 (\<lambda>trust. Inr (s, \<lparr>pt_host = host, pt_port = unwrap_or 443 (st_port s), pt_username = username,
                    pt_realm = unwrap_or [] (st_realm s), pt_protocol = protocol, pt_trust = trust\<rparr>))))) of
        Inl e \<Rightarrow> (Inl e, ce_terminal env)
      | Inr (s, target) \<Rightarrow>
          (case resolve_password (ce_stdin env) (ce_password env) s (pt_host target) (pt_username target)
                  (ce_terminal env) of
             (Inl e, t) \<Rightarrow> (Inl e, t)
           | (Inr password, t) \<Rightarrow> (Inr (target, password), t)))"

text \<open>What was printed: the credential only by its length.\<close>

record forti_report =
  fr_cookie_len :: nat
  fr_config :: forti_config
  fr_ppp :: ppp_session
  fr_early :: nat
  fr_params :: session_params

definition probe_fortigate ::
  "probe_target \<Rightarrow> string \<Rightarrow> (nat \<times> nat) option \<Rightarrow> 'os sys \<Rightarrow> forti_report outcome \<times> 'os sys" where
  "probe_fortigate target password systime c =
     sys_then
       (case authenticate_on (http_session_new (pt_host target) (sys_net c)) (pt_username target) password
               (pt_realm target) of
          (Returned (Inr ck), hs1) \<Rightarrow>
            (case fetch_config_on hs1 ck of
               (r, hs2) \<Rightarrow> (outcome_then r (\<lambda>fc. Returned (Inr (ck, fc))), c\<lparr>sys_net := hs_net hs2\<rparr>))
        | (Returned (Inl e), hs1) \<Rightarrow> (Returned (Inl e), c\<lparr>sys_net := hs_net hs1\<rparr>)
        | (Panicked, hs1) \<Rightarrow> (Panicked, c\<lparr>sys_net := hs_net hs1\<rparr>)
        | (Hangs, hs1) \<Rightarrow> (Hangs, c\<lparr>sys_net := hs_net hs1\<rparr>))
       (\<lambda>(ck, fc) c1.
          sys_then (with_stream c1 (open_tunnel systime ck)) (\<lambda>(ppp, prime) c2.
            (Returned (Inr \<lparr>fr_cookie_len = length ck, fr_config = fc, fr_ppp = ppp,
               fr_early = length prime, fr_params = to_session_params fc (Some ppp)\<rparr>), c2)))"

record checkpoint_report =
  cr_session_id :: string
  cr_key_chars :: nat
  cr_tcpt_port :: "16 word"
  cr_session :: checkpoint_session
  cr_params :: session_params
  cr_signout :: "unit result"

definition probe_checkpoint ::
  "probe_target \<Rightarrow> string \<Rightarrow> 'os sys \<Rightarrow> checkpoint_report outcome \<times> 'os sys" where
  "probe_checkpoint target password c =
     (case authenticate_checkpoint (sys_net c) (pt_host target) (pt_username target) password of
        (r, n) \<Rightarrow>
          sys_then (r, c\<lparr>sys_net := n\<rparr>) (\<lambda>ccc c1.
            case active_key_deobfuscated ccc of
              Inl e \<Rightarrow> (Returned (Inl e), c1)
            | Inr ck \<Rightarrow>
                sys_then
                  (with_stream c1 (\<lambda>s. case establish_session ck hello_opts_default s of (r, s') \<Rightarrow> (Returned r, s')))
                  (\<lambda>session c2.
                     (case signout_checkpoint (sys_net c2) (pt_host target) (cs_session_id ccc) of
                        (Returned so, n3) \<Rightarrow>
                          (Returned (Inr \<lparr>cr_session_id = cs_session_id ccc, cr_key_chars = length ck,
                             cr_tcpt_port = cs_tcpt_port ccc, cr_session = session,
                             cr_params = cps_to_session_params session, cr_signout = so\<rparr>), c2\<lparr>sys_net := n3\<rparr>)
                      | (Panicked, n3) \<Rightarrow> (Panicked, c2\<lparr>sys_net := n3\<rparr>)
                      | (Hangs, n3) \<Rightarrow> (Hangs, c2\<lparr>sys_net := n3\<rparr>)))))"

end
