(* ===== verification/Cli_Args_Correct.thy ===== *)
theory Cli_Args_Correct
  imports Cli_Args
begin

text \<open>
  The flags: a list of options, each written in either of its two forms, is read
  back as these options, the last one of each kind winning; and what no command
  line can do.
\<close>

section \<open>Options and how they are written\<close>

datatype cli_opt =
    Opt_Host string | Opt_Port "16 word" | Opt_User string | Opt_Protocol protocol
  | Opt_Realm string | Opt_Servercert string | Opt_Profile_Dir string
  | Opt_Insecure | Opt_Password_Stdin | Opt_Verbose

fun protocol_flag :: "protocol \<Rightarrow> string" where
  "protocol_flag AnyConnect = ''anyconnect''"
| "protocol_flag Checkpoint = ''checkpoint''"
| "protocol_flag FortiGate = ''fortigate''"

text \<open>The name of an option, and its value if it takes one.\<close>

fun opt_parts :: "cli_opt \<Rightarrow> string \<times> string option" where
  "opt_parts (Opt_Host v) = (''--host'', Some v)"
| "opt_parts (Opt_Port p) = (''--port'', Some (show_nat (unat p)))"
| "opt_parts (Opt_User v) = (''--user'', Some v)"
| "opt_parts (Opt_Protocol p) = (''--protocol'', Some (protocol_flag p))"
| "opt_parts (Opt_Realm v) = (''--realm'', Some v)"
| "opt_parts (Opt_Servercert v) = (''--servercert'', Some v)"
| "opt_parts (Opt_Profile_Dir v) = (''--profile-dir'', Some v)"
| "opt_parts Opt_Insecure = (''--insecure'', None)"
| "opt_parts Opt_Password_Stdin = (''--password-stdin'', None)"
| "opt_parts Opt_Verbose = (''--verbose'', None)"

text \<open>\<open>--name=value\<close> or \<open>--name value\<close>.\<close>

fun write_opt :: "bool \<times> cli_opt \<Rightarrow> string list" where
  "write_opt (inline, opt) =
     (case opt_parts opt of
        (name, Some v) \<Rightarrow> if inline then [name @ ''='' @ v] else [name, v]
      | (name, None) \<Rightarrow> [name])"

fun apply_opt :: "cli_opt \<Rightarrow> settings \<Rightarrow> settings" where
  "apply_opt (Opt_Host v) s = s\<lparr>st_host := Some v\<rparr>"
| "apply_opt (Opt_Port p) s = s\<lparr>st_port := Some p\<rparr>"
| "apply_opt (Opt_User v) s = s\<lparr>st_username := Some v\<rparr>"
| "apply_opt (Opt_Protocol p) s = s\<lparr>st_protocol := Some p\<rparr>"
| "apply_opt (Opt_Realm v) s = s\<lparr>st_realm := Some v\<rparr>"
| "apply_opt (Opt_Servercert v) s = s\<lparr>st_servercert := Some v\<rparr>"
| "apply_opt (Opt_Profile_Dir v) s = s\<lparr>st_profile_dir := Some v\<rparr>"
| "apply_opt Opt_Insecure s = s\<lparr>st_insecure := Some True\<rparr>"
| "apply_opt Opt_Password_Stdin s = s\<lparr>st_password_stdin := True\<rparr>"
| "apply_opt Opt_Verbose s = s\<lparr>st_verbose := True\<rparr>"

lemma parse_port_show [simp]: "parse_port (show_nat (unat p)) = Inr (p :: 16 word)"
  using unat_u16_less[of p] by (simp add: parse_port_def parse_uint_show_nat as_u16_def)

lemma parse_protocol_flag [simp]: "parse_protocol (protocol_flag p) = Inr p"
  by (induction p; code_simp)

lemma split_flag_plain: "CHR ''='' \<notin> set a \<Longrightarrow> split_flag a = (a, None)"
proof -
  assume "CHR ''='' \<notin> set a"
  then have "find_sub ''='' a = None" by (induction a) auto
  then show ?thesis by (simp add: split_flag_def split_once_def)
qed

lemma find_sub_char: "c \<notin> set a \<Longrightarrow> find_sub [c] (a @ c # v) = Some (length a)"
  by (induction a) auto

lemma split_flag_inline: "CHR ''='' \<notin> set a \<Longrightarrow> prefix ''--'' a \<Longrightarrow> split_flag (a @ ''='' @ v) = (a, Some v)"
  using find_sub_char[of "CHR ''=''" a v] by (simp add: split_flag_def split_once_def)

lemma opt_name: "CHR ''='' \<notin> set (fst (opt_parts opt)) \<and> prefix ''--'' (fst (opt_parts opt))"
  by (cases opt) auto

lemma arg_step_opt:
  "arg_step (hd (write_opt (inline, opt))) (tl (write_opt (inline, opt)) @ rest) (s, profile)
     = Inr ((apply_opt opt s, profile), rest)"
proof -
  have plain: "split_flag (fst (opt_parts opt)) = (fst (opt_parts opt), None)"
    using opt_name by (intro split_flag_plain) blast
  have inl: "split_flag (fst (opt_parts opt) @ CHR ''='' # v) = (fst (opt_parts opt), Some v)" for v
    using opt_name[of opt] split_flag_inline[of "fst (opt_parts opt)" v] by simp
  show ?thesis
    using plain inl by (cases opt; cases inline) (simp_all add: arg_step_def Let_def)
qed

lemma write_opt_not_Nil: "write_opt io = hd (write_opt io) # tl (write_opt io)"
  by (cases io; cases "snd io") (auto split: if_splits)

lemma parse_args_from_opts:
  "parse_args_from (concat (map write_opt opts) @ rest) (s, profile)
     = parse_args_from rest (fold (\<lambda>(_, opt). apply_opt opt) opts s, profile)"
proof (induction opts arbitrary: s)
  case (Cons io opts)
  obtain inline opt where io: "io = (inline, opt)" by fastforce
  have "parse_args_from (concat (map write_opt (io # opts)) @ rest) (s, profile)
      = parse_args_from (hd (write_opt io) # (tl (write_opt io) @ concat (map write_opt opts) @ rest)) (s, profile)"
    using write_opt_not_Nil[of io] by (metis append_Cons append_assoc concat.simps(2) list.simps(9))
  also have "\<dots> = parse_args_from (concat (map write_opt opts) @ rest) (apply_opt opt s, profile)"
    unfolding io by (simp only: parse_args_from.simps arg_step_opt sum.case prod.case)
  also have "\<dots> = parse_args_from rest (fold (\<lambda>(_, opt). apply_opt opt) (io # opts) s, profile)"
    using Cons.IH by (simp add: io)
  finally show ?case .
qed simp

text \<open>
  C36: The command line says what was meant: any options, in any order and
  repeated, each written as \<open>--name=value\<close> or as two arguments, and the name of a
  profile between them, are read as exactly these settings (the last value of an
  option wins), whatever the values are: a value may begin with a dash, contain
  an equals sign or be empty.
\<close>

theorem parse_args_written:
  assumes "\<not> prefix ''-'' name"
  shows "parse_args (concat (map write_opt opts1) @ name # concat (map write_opt opts2)) =
     Inr (fold (\<lambda>(_, opt). apply_opt opt) (opts1 @ opts2) settings_default, Some name)
   \<and> parse_args (concat (map write_opt opts1)) =
     Inr (fold (\<lambda>(_, opt). apply_opt opt) opts1 settings_default, None)"
proof -
  have "split_flag name = (name, None)"
  proof (cases "split_once ''='' name")
    case (Some fv)
    obtain f v where fv: "fv = (f, v)" by fastforce
    with Some have "prefix f name" by (auto simp: split_once_def take_is_prefix split: option.splits)
    then have "\<not> prefix ''--'' f" using assms by (auto simp: prefix_def)
    then show ?thesis using Some fv by (simp add: split_flag_def)
  qed (simp add: split_flag_def)
  moreover have "name \<noteq> (CHR ''-'' # x)" for x using assms by auto
  ultimately have "arg_step name rest (s, None) = Inr ((s, Some name), rest)" for rest s
    using assms by (simp add: arg_step_def Let_def)
  then show ?thesis
    using parse_args_from_opts[of opts1 "name # concat (map write_opt opts2)"]
      parse_args_from_opts[of opts2 "[]"] parse_args_from_opts[of opts1 "[]"]
    by (simp add: parse_args_def)
qed

theorem parse_args_written_witness:
  "parse_args [''--user'', ''--insecure'', ''work'', ''--realm=a=b'', ''--verbose''] =
     Inr (settings_default\<lparr>st_username := Some ''--insecure'', st_realm := Some ''a=b'', st_verbose := True\<rparr>, Some ''work'')"
  using parse_args_written[of "''work''" "[(False, Opt_User ''--insecure'')]"
      "[(True, Opt_Realm ''a=b''), (False, Opt_Verbose)]"]
  by simp

section \<open>What no command line can do\<close>

lemma parse_args_from_inv:
  assumes "parse_args_from args acc = Inr acc'" "P acc"
    and "\<And>a rest acc acc' r. arg_step a rest acc = Inr (acc', r) \<Longrightarrow> P acc \<Longrightarrow> P acc'"
  shows "P acc'"
  using assms(1,2)
proof (induction args acc rule: parse_args_from.induct)
  case (2 a rest acc)
  then obtain acc1 r where "arg_step a rest acc = Inr (acc1, r)" "parse_args_from r acc1 = Inr acc'"
    by (auto split: sum.splits)
  then show ?case using 2 assms(3) by blast
qed simp

text \<open>Taking a branch without remembering its condition.\<close>

lemma if_branch: "(if c then x else y) = z \<Longrightarrow> (x = z \<Longrightarrow> R) \<Longrightarrow> (y = z \<Longrightarrow> R) \<Longrightarrow> R"
  by (auto split: if_splits)

lemma and_then_branch: "and_then m f = Inr z \<Longrightarrow> (\<And>v. m = Inr v \<Longrightarrow> f v = Inr z \<Longrightarrow> R) \<Longrightarrow> R"
  by (auto simp: and_then_Inr_iff)

lemma arg_step_insecure:
  assumes "arg_step a rest acc = Inr (acc', r)" "st_insecure (fst acc) \<noteq> Some False" "st_password (fst acc) = None"
  shows "st_insecure (fst acc') \<noteq> Some False \<and> st_password (fst acc') = None"
proof -
  obtain flag inline where flag: "split_flag a = (flag, inline)" by fastforce
  obtain s profile where acc: "acc = (s, profile)" by fastforce
  show ?thesis
    using assms unfolding arg_step_def Let_def flag acc prod.case
    by (elim if_branch and_then_branch) (auto elim!: and_then_branch split: prod.splits option.splits)
qed

text \<open>
  Verification of the certificate cannot be switched back on from the command
  line.  No arguments set the flag to false (\<open>--insecure=false\<close> sets it to true),
  so that a profile with \<open>insecure = true\<close> stays insecure whatever is added; and no
  argument ever carries a password, which would show in the process list.
\<close>

theorem insecure_stays:
  assumes "parse_args args = Inr (cli, profile)" "st_insecure prof = Some True"
  shows "st_insecure (merge_over prof cli) = Some True
    \<and> st_password (merge_over prof cli) = st_password prof"
proof -
  have "st_insecure cli \<noteq> Some False \<and> st_password cli = None"
    using parse_args_from_inv[OF assms(1)[unfolded parse_args_def],
        of "\<lambda>acc. st_insecure (fst acc) \<noteq> Some False \<and> st_password (fst acc) = None"]
      arg_step_insecure by (simp add: settings_default_def)
  then show ?thesis using assms(2) by (cases "st_insecure cli") (auto simp: merge_over_def)
qed

theorem insecure_stays_witness:
  "parse_args [''--insecure=false''] = Inr (settings_default\<lparr>st_insecure := Some True\<rparr>, None)
   \<and> st_insecure (merge_over (settings_default\<lparr>st_insecure := Some True\<rparr>)
        (settings_default\<lparr>st_insecure := Some True\<rparr>)) = Some True"
proof -
  have "split_flag ''--insecure=false'' = (''--insecure'', Some ''false'')"
    using split_flag_inline[of "''--insecure''" "''false''"] by simp
  then have parsed: "parse_args [''--insecure=false''] = Inr (settings_default\<lparr>st_insecure := Some True\<rparr>, None)"
    by (simp add: parse_args_def arg_step_def Let_def)
  moreover have "st_insecure (settings_default\<lparr>st_insecure := Some True\<rparr>) = Some True" by simp
  ultimately show ?thesis using insecure_stays[OF parsed] by blast
qed

end
