(* ===== verification/Transition.thy ===== *)
theory Transition
  imports Main
begin

text \<open>
  Systems that several tasks or threads move by small steps: the states reached from
  a start, and the contract of an invariant.  The components that are such systems
  (the helper with its engines, the desktop backend, the Android bridge) interpret
  the locale with their own step relation.
\<close>

inductive reachable :: "('s \<Rightarrow> 's \<Rightarrow> bool) \<Rightarrow> 's \<Rightarrow> 's \<Rightarrow> bool" for step start where
  reach_start: "reachable step start start"
| reach_step: "reachable step start s \<Longrightarrow> step s s' \<Longrightarrow> reachable step start s'"

lemma reachable_trans:
  assumes "reachable step s t" "reachable step start s"
  shows "reachable step start t"
  using assms by (induction rule: reachable.induct) (auto intro: reach_step)

text \<open>An invariant holds at the start, and no step leads out of it.\<close>

locale invariant_of =
  fixes step :: "'s \<Rightarrow> 's \<Rightarrow> bool" and start :: 's and inv :: "'s \<Rightarrow> bool"
  assumes start_ok: "inv start"
    and step_ok: "step s s' \<Longrightarrow> inv s \<Longrightarrow> inv s'"
begin

lemma always: "reachable step start s \<Longrightarrow> inv s"
  by (induction rule: reachable.induct) (auto intro: start_ok step_ok)

lemma from_any: "inv s \<Longrightarrow> reachable step s t \<Longrightarrow> inv t"
  by (rotate_tac, induction rule: reachable.induct) (auto intro: step_ok)

end

end
