(* ===== verification/Helper.thy ===== *)
theory Helper
  imports Client_Correct Transition
begin

text \<open>
  The elevated helper (\<open>vpn-helper/src/main.rs\<close>, its transport-independent part,
  and the messages of \<open>vpn-ipc\<close>): the configuration from the wire, the events to
  the GUI, and the service loop with the engine it supervises.

  The engines are tasks that run on their own: the state lists those that have
  been started and have not ended, and which were told to shut down.  A step of
  the system is one line from the GUI, or an engine ending.  Reading a line as a
  command is \<open>serde_json\<close>'s part; a line is given as what it was read as.
\<close>

section \<open>Messages\<close>

datatype wire_protocol = Wire_AnyConnect | Wire_Checkpoint | Wire_FortiGate

record wire_config =
  wc_host :: string
  wc_port :: "16 word"
  wc_username :: string
  wc_protocol :: wire_protocol
  wc_cert_sha256 :: "string option"
  wc_insecure :: bool
  wc_verbose :: bool
  wc_realm :: "string option"

datatype client_command = Cmd_Connect wire_config string | Cmd_Disconnect | Cmd_Shutdown

datatype wire_state = Ws_Connecting | Ws_Established | Ws_Reconnecting nat | Ws_Disconnected

datatype client_message = Msg_State wire_state | Msg_Error string bool | Msg_Bye

definition config_from_wire :: "wire_config \<Rightarrow> string \<Rightarrow> string + config" where
  "config_from_wire w password =
     and_then
       (case wc_cert_sha256 w of
          Some s \<Rightarrow>
            if trim s \<noteq> [] then
              and_then (map_err show_error (parse_sha256_fingerprint s)) (\<lambda>pin. Inr (Some pin))
            else Inr None
        | None \<Rightarrow> Inr None)
       (\<lambda>cert_sha256.
          Inr \<lparr>cfg_host = wc_host w, cfg_port = wc_port w, cfg_username = wc_username w,
               cfg_password = Some password, cfg_verbose = wc_verbose w, cfg_cert_sha256 = cert_sha256,
               cfg_insecure = wc_insecure w,
               cfg_protocol = (case wc_protocol w of
                  Wire_AnyConnect \<Rightarrow> AnyConnect | Wire_Checkpoint \<Rightarrow> Checkpoint | Wire_FortiGate \<Rightarrow> FortiGate),
               cfg_realm = unwrap_or [] (wc_realm w)\<rparr>)"

fun map_event :: "client_event \<Rightarrow> client_message" where
  "map_event Ev_Connecting = Msg_State Ws_Connecting"
| "map_event Ev_Established = Msg_State Ws_Established"
| "map_event (Ev_Reconnecting d) = Msg_State (Ws_Reconnecting d)"
| "map_event Ev_Disconnected = Msg_State Ws_Disconnected"
| "map_event (Ev_Permanent_Error m) = Msg_Error m True"

section \<open>The session\<close>

record helper =
  hp_shutdown :: "nat option"
  hp_engine :: "nat option"
  hp_running :: "(nat \<times> config) list"
  hp_signalled :: "nat list"
  hp_next :: nat
  hp_sent :: "client_message list"
  hp_served :: bool

definition helper_init :: helper where
  "helper_init = \<lparr>hp_shutdown = None, hp_engine = None, hp_running = [], hp_signalled = [], hp_next = 0,
     hp_sent = [], hp_served = False\<rparr>"

definition hp_send :: "client_message \<Rightarrow> helper \<Rightarrow> helper" where
  "hp_send msg h = h\<lparr>hp_sent := hp_sent h @ [msg]\<rparr>"

text \<open>
  \<open>Session::stop\<close>: signal the shutdown, then wait at most ten seconds for the task.
  \<open>in_time\<close> says whether it ended in time; if not, it is left running.
\<close>

definition stop_session :: "bool \<Rightarrow> helper \<Rightarrow> helper" where
  "stop_session in_time h =
     (let h1 = (case hp_shutdown h of
                  Some i \<Rightarrow> h\<lparr>hp_shutdown := None, hp_signalled := i # hp_signalled h\<rparr>
                | None \<Rightarrow> h) in
      case hp_engine h1 of
        Some i \<Rightarrow> h1\<lparr>hp_engine := None,
                     hp_running := (if in_time then filter (\<lambda>(j, _). j \<noteq> i) (hp_running h1) else hp_running h1)\<rparr>
      | None \<Rightarrow> h1)"

record step_env =
  en_timely :: bool
  en_privileges :: "unit result"
  en_tun :: "unit result"

definition handle_connect :: "step_env \<Rightarrow> config \<Rightarrow> helper \<Rightarrow> helper" where
  "handle_connect env cfg h =
     (let h1 = stop_session (en_timely env) h in
      case en_privileges env of
        Inl e \<Rightarrow> hp_send (Msg_Error (show_error e) True) h1
      | Inr _ \<Rightarrow>
          (case en_tun env of
             Inl e \<Rightarrow> hp_send (Msg_Error (show_error e) True) h1
           | Inr _ \<Rightarrow>
               let i = hp_next h1 in
               h1\<lparr>hp_shutdown := Some i, hp_engine := Some i, hp_running := hp_running h1 @ [(i, cfg)],
                  hp_next := i + 1\<rparr>))"

datatype helper_input = Bad_Line | Command client_command | End_Of_Input | Read_Error

text \<open>One line; \<open>hp_served\<close> is set when the loop ends.\<close>

definition serve_input :: "step_env \<Rightarrow> helper_input \<Rightarrow> helper \<Rightarrow> helper" where
  "serve_input env inp h =
     (case inp of
        Bad_Line \<Rightarrow> h
      | Command (Cmd_Connect w password) \<Rightarrow>
          (case config_from_wire w password of
             Inr cfg \<Rightarrow> handle_connect env cfg h
           | Inl msg \<Rightarrow> hp_send (Msg_Error msg True) h)
      | Command Cmd_Disconnect \<Rightarrow> stop_session (en_timely env) h
      | Command Cmd_Shutdown \<Rightarrow> hp_send Msg_Bye (stop_session (en_timely env) h)\<lparr>hp_served := True\<rparr>
      | End_Of_Input \<Rightarrow> (stop_session (en_timely env) h)\<lparr>hp_served := True\<rparr>
      | Read_Error \<Rightarrow> (stop_session (en_timely env) h)\<lparr>hp_served := True\<rparr>)"

section \<open>The system\<close>

inductive helper_step :: "helper \<Rightarrow> helper \<Rightarrow> bool" where
  served: "\<not> hp_served h \<Longrightarrow> helper_step h (serve_input env inp h)"
| engine_ends: "helper_step h (h\<lparr>hp_running := filter (\<lambda>(j, _). j \<noteq> i) (hp_running h)\<rparr>)"

abbreviation helper_reachable :: "helper \<Rightarrow> bool" where
  "helper_reachable \<equiv> reachable helper_step helper_init"

text \<open>Every engine that runs was told to stop, or is the one the session holds.\<close>

definition engines_ok :: "helper \<Rightarrow> bool" where
  "engines_ok h =
     (list_all (\<lambda>(i, _). i < hp_next h \<and> (i \<in> set (hp_signalled h) \<or> hp_shutdown h = Some i)) (hp_running h)
      \<and> hp_engine h = hp_shutdown h
      \<and> (hp_served h \<longrightarrow> hp_shutdown h = None)
      \<and> distinct (map fst (hp_running h)))"

lemma stop_session_ok:
  assumes "engines_ok h"
  shows "engines_ok (stop_session in_time h)" "hp_shutdown (stop_session in_time h) = None"
    "hp_next (stop_session in_time h) = hp_next h" "hp_served (stop_session in_time h) = hp_served h"
proof -
  have filt: "distinct (map fst (filter P xs))" if "distinct (map fst xs)" for P and xs :: "(nat \<times> config) list"
    using that by (induction xs) auto
  show "engines_ok (stop_session in_time h)" "hp_shutdown (stop_session in_time h) = None"
    "hp_next (stop_session in_time h) = hp_next h" "hp_served (stop_session in_time h) = hp_served h"
    using assms filt
    by (auto simp: stop_session_def engines_ok_def Let_def list_all_iff split: option.splits)
qed

lemma hp_send_ok [simp]: "engines_ok (hp_send msg h) = engines_ok h"
  by (simp add: hp_send_def engines_ok_def)

lemma handle_connect_ok:
  assumes "engines_ok h" "\<not> hp_served h"
  shows "engines_ok (handle_connect env cfg h)"
proof -
  note stop = stop_session_ok[OF assms(1), of "en_timely env"]
  define h1 where "h1 = stop_session (en_timely env) h"
  have h1: "engines_ok h1" "hp_shutdown h1 = None" "\<not> hp_served h1" using stop assms(2) by (simp_all add: h1_def)
  have spawned: "engines_ok (h1\<lparr>hp_shutdown := Some i, hp_engine := Some i, hp_running := hp_running h1 @ [(i, cfg)],
      hp_next := i + 1\<rparr>)" if "i = hp_next h1" for i
    using h1 that by (auto simp: engines_ok_def list_all_iff)
  show ?thesis
    unfolding handle_connect_def Let_def h1_def[symmetric]
    using h1(1) spawned[OF refl] by (simp split: sum.splits)
qed

lemma serve_input_ok:
  assumes "engines_ok h" "\<not> hp_served h"
  shows "engines_ok (serve_input env inp h)"
proof -
  have serve: "engines_ok (g\<lparr>hp_served := True\<rparr>)" if "engines_ok g" "hp_shutdown g = None" for g
    using that by (simp add: engines_ok_def)
  note stop = stop_session_ok[OF assms(1), of "en_timely env"]
  show ?thesis
    using assms handle_connect_ok[OF assms] stop serve[of "stop_session (en_timely env) h"]
      serve[of "hp_send Msg_Bye (stop_session (en_timely env) h)"]
    by (auto simp: serve_input_def hp_send_def engines_ok_def
        split: helper_input.splits client_command.splits sum.splits)
qed

interpretation service: invariant_of helper_step helper_init engines_ok
proof unfold_locales
  show "engines_ok helper_init" by (simp add: helper_init_def engines_ok_def)
  fix h h' assume "helper_step h h'" "engines_ok h"
  then show "engines_ok h'"
  proof cases
    case (served env inp)
    then show ?thesis using \<open>engines_ok h\<close> serve_input_ok by simp
  next
    case (engine_ends i)
    have "distinct (map fst (filter P xs))" if "distinct (map fst xs)" for P and xs :: "(nat \<times> config) list"
      using that by (induction xs) auto
    then show ?thesis using \<open>engines_ok h\<close> engine_ends by (auto simp: engines_ok_def list_all_iff)
  qed
qed

text \<open>
  The helper never forgets a tunnel.  In every reachable state, whatever the
  GUI sends and however slowly engines end, each engine still running either was
  told to shut down or is the one the session holds, and the session holds at most
  one; and once the service loop has ended, because the GUI asked, closed the
  connection or the transport failed, every engine was told to shut down.
\<close>

theorem helper_engines_signalled:
  assumes "helper_reachable h"
  shows "list_all (\<lambda>(i, _). i \<in> set (hp_signalled h) \<or> hp_shutdown h = Some i) (hp_running h)
    \<and> hp_engine h = hp_shutdown h
    \<and> (hp_served h \<longrightarrow> list_all (\<lambda>(i, _). i \<in> set (hp_signalled h)) (hp_running h))"
  using service.always[OF assms] by (auto simp: engines_ok_def list_all_iff)

definition example_wire :: wire_config where
  "example_wire = \<lparr>wc_host = ''h'', wc_port = 443, wc_username = ''u'', wc_protocol = Wire_FortiGate,
     wc_cert_sha256 = None, wc_insecure = False, wc_verbose = False, wc_realm = None\<rparr>"

text \<open>Two connects in a row with an engine that does not end in time, then the end of the input.\<close>

definition example_helper :: helper where
  "example_helper =
     (let slow = \<lparr>en_timely = False, en_privileges = Inr (), en_tun = Inr ()\<rparr>;
          go = Command (Cmd_Connect example_wire ''pw'') in
      serve_input slow End_Of_Input (serve_input slow go (serve_input slow go helper_init)))"

lemma example_helper_reachable: "helper_reachable example_helper"
proof -
  let ?slow = "\<lparr>en_timely = False, en_privileges = Inr (), en_tun = Inr ()\<rparr>"
  let ?go = "Command (Cmd_Connect example_wire ''pw'')"
  have open': "\<not> hp_served (serve_input ?slow ?go h)" if "\<not> hp_served h" for h
    using that by (simp add: serve_input_def config_from_wire_def example_wire_def handle_connect_def stop_session_def
        Let_def split: option.splits)
  have init: "\<not> hp_served helper_init" by (simp add: helper_init_def)
  show ?thesis unfolding example_helper_def Let_def
    by (rule reach_step[OF reach_step[OF reach_step[OF reach_start]]]; rule served) (simp_all add: open' init)
qed

theorem helper_engines_signalled_witness:
  "hp_engine example_helper = hp_shutdown example_helper
    \<and> list_all (\<lambda>(i, _). i \<in> set (hp_signalled example_helper)) (hp_running example_helper)
    \<and> map fst (hp_running example_helper) = [0, 1] \<and> hp_served example_helper"
proof -
  have "map fst (hp_running example_helper) = [0, 1] \<and> hp_served example_helper"
    by (simp add: example_helper_def serve_input_def config_from_wire_def example_wire_def handle_connect_def
        stop_session_def helper_init_def Let_def)
  then show ?thesis using helper_engines_signalled[OF example_helper_reachable] by simp
qed

section \<open>Configurations\<close>

text \<open>
  A fingerprint from the GUI is never dropped: if one is given that is not
  blank, the configuration either pins exactly 32 bytes, and then only the
  certificates with that digest are accepted even if the GUI also asks for no
  verification, or there is no configuration and no network activity.
\<close>

theorem wire_fingerprint_enforced:
  assumes "wc_cert_sha256 w = Some s" "trim s \<noteq> []"
  shows "case config_from_wire w password of
     Inr cfg \<Rightarrow> (\<exists>pin. parse_sha256_fingerprint s = Inr pin \<and> cfg_cert_sha256 cfg = Some pin \<and> length pin = 32
       \<and> (verify_server_cert webpki sha256 (cert_trust_of cfg) cert name = Inr () \<longleftrightarrow> sha256 cert = pin))
   | Inl msg \<Rightarrow> \<not> is_ok (parse_sha256_fingerprint s)
       \<and> hp_running (serve_input env (Command (Cmd_Connect w password)) h) = hp_running h"
proof (cases "parse_sha256_fingerprint s")
  case (Inl e)
  then show ?thesis using assms by (simp add: config_from_wire_def serve_input_def hp_send_def)
next
  case (Inr pin)
  then have "length pin = 32" using parse_sha256_fingerprint_length by blast
  then show ?thesis using assms Inr
    by (simp add: config_from_wire_def cert_trust_of_def verify_server_cert_def pinned_verify_def Let_def)
qed

theorem wire_fingerprint_enforced_witness:
  "case config_from_wire (example_wire\<lparr>wc_cert_sha256 := Some ''abc'', wc_insecure := True\<rparr>) ''p'' of
     Inr cfg \<Rightarrow> False | Inl msg \<Rightarrow> True"
proof -
  have bad: "\<not> is_ok (parse_sha256_fingerprint ''abc'')" by code_simp
  have "trim ''abc'' \<noteq> []" by code_simp
  then show ?thesis
    using wire_fingerprint_enforced[where w = "example_wire\<lparr>wc_cert_sha256 := Some ''abc'', wc_insecure := True\<rparr>"
        and s = "''abc''" and password = "''p''"] bad
    by (cases "parse_sha256_fingerprint ''abc''") (auto split: sum.splits)
qed

end
