(* ===== verification/Cli_Correct.thy ===== *)
theory Cli_Correct
  imports Cli_Commands Cli_Args_Correct Client_Signout Helper
begin

text \<open>
  The commands of the command line client: how \<open>probe\<close> relates to \<open>connect\<close>, what
  becomes of the session it opens, where the password comes from, and the
  capability test.
\<close>

section \<open>\<open>probe\<close> and \<open>connect\<close>\<close>

lemma connect_setup_parts:
  assumes "fst (connect_setup env args) = Inr (cfg, password)"
  obtains s host username cert t where "command_settings env args = Inr s"
    "st_host s = Some host" "st_username s = Some username" "pinned_cert s = Inr cert"
    "resolve_password (ce_stdin env) (ce_password env) s host username (ce_terminal env) = (Inr password, t)"
    "cfg = \<lparr>cfg_host = host, cfg_port = unwrap_or 443 (st_port s), cfg_username = username,
      cfg_password = None, cfg_verbose = st_verbose s, cfg_cert_sha256 = cert,
      cfg_insecure = unwrap_or False (st_insecure s), cfg_protocol = unwrap_or default_protocol (st_protocol s),
      cfg_realm = unwrap_or [] (st_realm s)\<rparr>"
proof -
  obtain s where s: "command_settings env args = Inr s"
    using assms by (cases "command_settings env args") (auto simp: connect_setup_def)
  obtain host username cert where f: "st_host s = Some host" "st_username s = Some username" "pinned_cert s = Inr cert"
    using assms by (cases "st_host s"; cases "st_username s"; cases "pinned_cert s") (auto simp: connect_setup_def s)
  obtain t where pw: "resolve_password (ce_stdin env) (ce_password env) s host username (ce_terminal env) = (Inr password, t)"
    using assms by (auto simp: connect_setup_def s f and_then_Inr_iff split: prod.splits sum.splits)
  have cfg: "cfg = \<lparr>cfg_host = host, cfg_port = unwrap_or 443 (st_port s), cfg_username = username,
      cfg_password = None, cfg_verbose = st_verbose s, cfg_cert_sha256 = cert,
      cfg_insecure = unwrap_or False (st_insecure s), cfg_protocol = unwrap_or default_protocol (st_protocol s),
      cfg_realm = unwrap_or [] (st_realm s)\<rparr>"
    using assms by (auto simp: connect_setup_def s f pw and_then_Inr_iff split: prod.splits sum.splits)
  show ?thesis by (rule that[OF s f pw cfg])
qed

lemma connect_setup_cert:
  assumes "command_settings env args = Inr settings" "fst (connect_setup env args) = Inr (cfg, password)"
  shows "pinned_cert settings = Inr (cfg_cert_sha256 cfg)"
  by (rule connect_setup_parts[OF assms(2)]) (use assms(1) in simp)

text \<open>
  \<open>probe\<close> tests the connection that \<open>connect\<close> would make: from the same
  arguments, profile and environment, if \<open>connect\<close> gets as far as starting the
  engine then \<open>probe\<close> has the same gateway, user, realm and password, and trusts
  exactly the certificates the engine would; only AnyConnect is refused.
\<close>

theorem probe_setup_agrees:
  assumes "fst (connect_setup env args) = Inr (cfg, password)"
  shows "fst (probe_setup env args) =
    (if cfg_protocol cfg = AnyConnect then Inl ''probe supports --protocol fortigate and checkpoint only''
     else Inr (\<lparr>pt_host = cfg_host cfg, pt_port = cfg_port cfg, pt_username = cfg_username cfg,
        pt_realm = cfg_realm cfg, pt_protocol = cfg_protocol cfg, pt_trust = cert_trust_of cfg\<rparr>, password))"
proof -
  obtain s host username cert t where s: "command_settings env args = Inr s"
    and f: "st_host s = Some host" "st_username s = Some username" "pinned_cert s = Inr cert"
    and pw: "resolve_password (ce_stdin env) (ce_password env) s host username (ce_terminal env) = (Inr password, t)"
    and cfg: "cfg = \<lparr>cfg_host = host, cfg_port = unwrap_or 443 (st_port s), cfg_username = username,
      cfg_password = None, cfg_verbose = st_verbose s, cfg_cert_sha256 = cert,
      cfg_insecure = unwrap_or False (st_insecure s), cfg_protocol = unwrap_or default_protocol (st_protocol s),
      cfg_realm = unwrap_or [] (st_realm s)\<rparr>"
    by (rule connect_setup_parts[OF assms])
  have trust: "(case st_servercert s of
        Some f \<Rightarrow> if trim f \<noteq> [] then and_then (map_err show_error (parse_sha256_fingerprint f)) (\<lambda>pin. Inr (Pinned pin))
                  else Inr (if unwrap_or False (st_insecure s) then Insecure else Webpki)
      | None \<Rightarrow> Inr (if unwrap_or False (st_insecure s) then Insecure else Webpki)) = Inr (cert_trust_of cfg)"
    using f(3) unfolding pinned_cert_def cert_trust_of_def cfg
    by (cases "st_servercert s") (auto simp: and_then_Inr_iff split: if_splits)
  show ?thesis
    unfolding probe_setup_def s and_then.simps f ok_or.simps Let_def trust
    using pw by (simp add: cfg)
qed

definition example_terminal :: terminal where
  "example_terminal = \<lparr>tty_open = None, tty_getattr = None, tty_setattr = None, tty_restore = None,
     tty_input = [Inr 0x70, Inr 0x0D, Inl ''gone''], tty_echo = True, tty_shown = []\<rparr>"

definition example_cli :: cli_env where
  "example_cli = \<lparr>ce_order = (\<lambda>m. m), ce_dirs = \<lparr>sudo_home = None, xdg_config = None, home = None\<rparr>,
     ce_is_dir = (\<lambda>_. False), ce_read_file = (\<lambda>_. Inl ''no such file''), ce_stdin = Inr (''pw'' @ [LF]),
     ce_password = None, ce_terminal = example_terminal, ce_root = True, ce_status = None\<rparr>"

definition example_args :: "string list" where
  "example_args = [''-H'', ''h'', ''--user=u'', ''--protocol=fortigate'', ''--insecure'', ''--password-stdin'']"

lemma example_connect_setup:
  "fst (connect_setup example_cli example_args) =
     Inr (\<lparr>cfg_host = ''h'', cfg_port = 443, cfg_username = ''u'', cfg_password = None, cfg_verbose = False,
        cfg_cert_sha256 = None, cfg_insecure = True, cfg_protocol = FortiGate, cfg_realm = []\<rparr>, ''pw'')"
  by code_simp

lemma probe_setup_agrees_witness:
  "fst (probe_setup example_cli example_args) =
     Inr (\<lparr>pt_host = ''h'', pt_port = 443, pt_username = ''u'', pt_realm = [], pt_protocol = FortiGate,
        pt_trust = Insecure\<rparr>, ''pw'')"
  using probe_setup_agrees[OF example_connect_setup] by (simp add: cert_trust_of_def)

text \<open>
  C35: A FortiGate \<open>probe\<close> predicts what \<open>connect\<close> will do.  On the same network,
  whenever the probe reports a session, \<open>connect\<close> brings up the device with exactly
  the reported parameters and carries the reported number of early bytes over;
  whenever the probe fails, \<open>connect\<close> fails with the same error, before it touches
  the device or a route.
\<close>

theorem probe_predicts_connect:
  fixes c :: "'os sys"
  assumes "cfg_host cfg = pt_host target" "cfg_username cfg = pt_username target" "cfg_realm cfg = pt_realm target"
  shows "case probe_fortigate target password (ae_systime env) c of
     (Returned (Inr r), c1) \<Rightarrow>
       (\<exists>prime. length prime = fr_early r
          \<and> connect_fortigate radd rdel cfg password env c =
              run_pipeline radd rdel env (fr_params r)
                (if fc_routes (fr_config r) = [] then vpn_routes else fc_routes (fr_config r))
                (forti_framer_new (ppp_magic (fr_ppp r))) prime c1)
   | (Returned (Inl e), c1) \<Rightarrow> connect_fortigate radd rdel cfg password env c = (Returned (Inl e), c1)
       \<and> sys_os c1 = sys_os c \<and> sys_teardown c1 = sys_teardown c
   | (Panicked, c1) \<Rightarrow> connect_fortigate radd rdel cfg password env c = (Panicked, c1)
   | (Hangs, c1) \<Rightarrow> connect_fortigate radd rdel cfg password env c = (Hangs, c1)"
proof -
  have probe: "probe_fortigate target password (ae_systime env) c =
      sys_then (fortigate_login cfg password c) (\<lambda>(ck, fc) c1.
        sys_then (with_stream c1 (open_tunnel (ae_systime env) ck)) (\<lambda>(ppp, prime) c2.
          (Returned (Inr \<lparr>fr_cookie_len = length ck, fr_config = fc, fr_ppp = ppp,
             fr_early = length prime, fr_params = to_session_params fc (Some ppp)\<rparr>), c2)))"
    by (simp add: probe_fortigate_def fortigate_login_def assms)
  obtain r c1 where l: "fortigate_login cfg password c = (r, c1)" by fastforce
  have c1: "sys_os c1 = sys_os c \<and> sys_teardown c1 = sys_teardown c"
    using untouched_fortigate_login[of c cfg password] by (simp add: l untouched_def)
  show ?thesis
  proof (cases "\<exists>ck fc. r = Returned (Inr (ck, fc))")
    case False
    then show ?thesis using c1
      by (cases r rule: outcome.exhaust) (auto simp: probe connect_fortigate_def l sys_then_def split: sum.splits)
  next
    case True
    then obtain ck fc where r: "r = Returned (Inr (ck, fc))" by blast
    obtain r2 c2 where t: "with_stream c1 (open_tunnel (ae_systime env) ck) = (r2, c2)" by fastforce
    have c2: "sys_os c2 = sys_os c \<and> sys_teardown c2 = sys_teardown c"
      using untouched_with_stream[of c1 "open_tunnel (ae_systime env) ck"] c1 by (simp add: t untouched_def)
    show ?thesis using c2
      by (cases r2 rule: outcome.exhaust)
         (auto simp: probe connect_fortigate_def l r t sys_then_def Let_def split: sum.splits prod.splits)
  qed
qed

definition unreachable_sys :: "list_table sys" where
  "unreachable_sys = example_sys\<lparr>sys_net := \<lparr>net_clock = 0,
     net_dials = replicate 2 (10, Inl (Tls ''unreachable'')), dials_made = 0\<rparr>\<rparr>"

lemma session_request_unreachable:
  assumes "hs_stream hs = None" "dial (hs_net hs) = (Returned (Inl e), n)"
  shows "session_request hs method path ck body = (Returned (Inl e), hs\<lparr>hs_net := n\<rparr>)"
  using assms by (simp add: session_request_def eval_nat_numeral session_attempt_def session_stream_def)

lemma probe_predicts_connect_witness:
  "connect_fortigate lt_add lt_del (config_new ''h'' 443 ''u'') ''pw'' example_env unreachable_sys
     = (case probe_fortigate \<lparr>pt_host = ''h'', pt_port = 443, pt_username = ''u'', pt_realm = [],
            pt_protocol = FortiGate, pt_trust = Webpki\<rparr> ''pw'' (ae_systime example_env) unreachable_sys of
          (_, c1) \<Rightarrow> (Returned (Inl (Tls ''unreachable'')), c1))"
proof -
  let ?t = "\<lparr>pt_host = ''h'', pt_port = 443, pt_username = ''u'', pt_realm = [], pt_protocol = FortiGate, pt_trust = Webpki\<rparr>"
  obtain c1 where "probe_fortigate ?t ''pw'' (ae_systime example_env) unreachable_sys = (Returned (Inl (Tls ''unreachable'')), c1)"
    by (simp add: probe_fortigate_def authenticate_on_def http_session_new_def session_request_unreachable
        dial_def login_post_def unreachable_sys_def example_sys_def sys_then_def numeral_2_eq_2)
  moreover have "cfg_host (config_new ''h'' 443 ''u'') = pt_host ?t"
    "cfg_username (config_new ''h'' 443 ''u'') = pt_username ?t" "cfg_realm (config_new ''h'' 443 ''u'') = pt_realm ?t"
    by (simp_all add: config_new_def)
  ultimately show ?thesis
    using probe_predicts_connect[where cfg = "config_new ''h'' 443 ''u''" and target = ?t and password = "''pw''"
        and env = example_env and c = unreachable_sys and radd = lt_add and rdel = lt_del] by simp
qed


section \<open>The session of a Check Point probe\<close>

text \<open>
  A Check Point \<open>probe\<close> leaks the session it opened when the hello fails.  After
  a successful login, a probe that reports has made three connections, the last to
  sign out, even when the gateway named no session; but one that ends in an error
  has made at most the login's and the tunnel's, and nothing has told the gateway
  to release the session.
\<close>

theorem probe_checkpoint_release:
  assumes "authenticate_checkpoint (sys_net c) (pt_host target) (pt_username target) password = (Returned (Inr ccc), n)"
  shows "case probe_checkpoint target password c of
     (Returned r, c') \<Rightarrow>
       dials_made (sys_net c') = dials_made (sys_net c)
         + (if is_ok r then 3 else if is_ok (active_key_deobfuscated ccc) then 2 else 1)
   | _ \<Rightarrow> True"
proof (cases "active_key_deobfuscated ccc")
  case (Inl e)
  then show ?thesis
    using authenticate_checkpoint_counts[OF assms] by (simp add: probe_checkpoint_def assms sys_then_def)
next
  case (Inr ck)
  let ?k = "\<lambda>s. case establish_session ck hello_opts_default s of (r, s') \<Rightarrow> (Returned r, s')"
  let ?c1 = "c\<lparr>sys_net := n\<rparr>"
  obtain r c2 where w: "with_stream ?c1 ?k = (r, c2)" by fastforce
  have c2: "dials_made (sys_net c2) = dials_made (sys_net c) + 2"
    using with_stream_counts[of ?c1 ?k] w authenticate_checkpoint_counts[OF assms] by simp
  obtain r3 n3 where so: "signout_checkpoint (sys_net c2) (pt_host target) (cs_session_id ccc) = (r3, n3)" by fastforce
  have "dials_made n3 = dials_made (sys_net c) + 3" using signout_checkpoint_counts[OF so] c2 by simp
  then show ?thesis
    using Inr w so c2
    by (cases r; cases r3) (auto simp: probe_checkpoint_def assms sys_then_def split: sum.splits)
qed

theorem probe_checkpoint_release_witness:
  "\<exists>c ccc. fst (authenticate_checkpoint (sys_net c) ''h'' ''u'' ''p'') = Returned (Inr ccc)
     \<and> (case probe_checkpoint \<lparr>pt_host = ''h'', pt_port = 443, pt_username = ''u'', pt_realm = [],
            pt_protocol = Checkpoint, pt_trust = Webpki\<rparr> ''p'' (c :: list_table sys) of
          (Returned r, c') \<Rightarrow> dials_made (sys_net c') = 1
        | _ \<Rightarrow> True)"
proof -
  let ?t = "\<lparr>pt_host = ''h'', pt_port = 443, pt_username = ''u'', pt_realm = [], pt_protocol = Checkpoint, pt_trust = Webpki\<rparr>"
  let ?ccc = "\<lparr>cs_session_id = ''s1'', cs_active_key = ''abc'', cs_tcpt_port = 443\<rparr>"
  let ?c = "example_sys\<lparr>sys_net := example_login\<rparr>"
  have key: "\<not> is_ok (active_key_deobfuscated ?ccc)"
    by (simp add: active_key_deobfuscated_def cipher_decode_def from_hex_def)
  obtain n where n: "authenticate_checkpoint (sys_net ?c) (pt_host ?t) (pt_username ?t) ''p'' = (Returned (Inr ?ccc), n)"
    using example_login_succeeds by auto
  have "case probe_checkpoint ?t ''p'' ?c of (Returned r, c') \<Rightarrow>
      dials_made (sys_net c') = dials_made (sys_net ?c)
         + (if is_ok r then 3 else if is_ok (active_key_deobfuscated ?ccc) then 2 else 1) | _ \<Rightarrow> True"
    by (rule probe_checkpoint_release[OF n])
  moreover have "case probe_checkpoint ?t ''p'' ?c of (Returned r, c') \<Rightarrow> \<not> is_ok r | _ \<Rightarrow> True"
    using key by (simp add: probe_checkpoint_def n[simplified] sys_then_def is_ok_def split: sum.splits)
  ultimately have "case probe_checkpoint ?t ''p'' ?c of (Returned r, c') \<Rightarrow> dials_made (sys_net c') = 1 | _ \<Rightarrow> True"
    using key by (auto simp: example_login_def split: prod.splits outcome.splits)
  moreover have "fst (authenticate_checkpoint (sys_net ?c) ''h'' ''u'' ''p'') = Returned (Inr ?ccc)"
    using n by simp
  ultimately show ?thesis by (intro exI[of _ ?c] exI[of _ ?ccc] conjI)
qed

section \<open>Passwords\<close>

lemma read_password_no_newline:
  "read_password input line = (r, line', rest) \<Longrightarrow> 0x0A \<notin> set line \<and> 0x0D \<notin> set line
     \<Longrightarrow> 0x0A \<notin> set line' \<and> 0x0D \<notin> set line'"
  by (induction input line rule: read_password.induct) (auto split: if_splits)

lemma last_trim_end_newlines:
  assumes "trim_end_newlines s \<noteq> []"
  shows "last (trim_end_newlines s) \<noteq> CR \<and> last (trim_end_newlines s) \<noteq> LF"
  using assms hd_dropWhile[of "\<lambda>c. c = CR \<or> c = LF" "rev s"] by (simp add: trim_end_newlines_def last_rev)

lemma str_of_bytes_no_newline:
  assumes "0x0A \<notin> set b \<and> 0x0D \<notin> set b"
  shows "CR \<notin> set (str_of_bytes b) \<and> LF \<notin> set (str_of_bytes b)"
proof -
  have "char_of_byte x = CR \<Longrightarrow> x = 0x0D" "char_of_byte x = LF \<Longrightarrow> x = 0x0A" for x
    using byte_of_char_of_byte[of x] by (auto simp: byte_of_char_def)
  then show ?thesis using assms by (auto simp: str_of_bytes_def)
qed

lemma prompt_password_ok:
  assumes "tty_restore t = None" "prompt_password prompt t = (r, t')"
  shows "tty_echo t' = tty_echo t \<and> (case r of Inr p \<Rightarrow> p \<noteq> [] \<and> CR \<notin> set p \<and> LF \<notin> set p | Inl e \<Rightarrow> True)"
proof -
  obtain got line rest where l: "read_password (tty_input t) [] = (got, line, rest)" by (rule prod_cases3)
  have "CR \<notin> set (str_of_bytes line) \<and> LF \<notin> set (str_of_bytes line)"
    using read_password_no_newline[OF l] by (intro str_of_bytes_no_newline) simp
  moreover have "line \<noteq> [] \<Longrightarrow> str_of_bytes line \<noteq> []" by (simp add: str_of_bytes_def)
  ultimately show ?thesis
    using assms l by (auto simp: prompt_password_def Let_def and_then_Inr_iff split: option.splits sum.splits if_splits)
qed

text \<open>The first non-empty one of the environment and the profile.\<close>

definition stored_password :: "string option \<Rightarrow> string option \<Rightarrow> string option" where
  "stored_password env prof =
     (case env of Some (c # p) \<Rightarrow> Some (c # p)
      | _ \<Rightarrow> (case prof of Some (c # p) \<Rightarrow> Some (c # p) | _ \<Rightarrow> None))"

text \<open>
  Wherever the password comes from, the terminal is left as it was: if its
  settings can be written back then the echo is restored on every path, also when
  reading fails or the password is refused, and the terminal is not touched at all
  unless the user has to be asked.  A password is never empty, and one that was
  typed or piped does not end in a line break.
\<close>

theorem password_terminal:
  assumes "tty_restore t = None" "resolve_password stdin env s host user t = (r, t')"
  shows "tty_echo t' = tty_echo t
    \<and> (case r of Inr p \<Rightarrow> p \<noteq> [] | Inl e \<Rightarrow> True)
    \<and> (if st_password_stdin s then t' = t \<and> (case r of Inr p \<Rightarrow> last p \<noteq> CR \<and> last p \<noteq> LF | Inl e \<Rightarrow> True)
       else case stored_password env (st_password s) of
           Some p \<Rightarrow> t' = t \<and> r = Inr p
         | None \<Rightarrow> (case r of Inr p \<Rightarrow> CR \<notin> set p \<and> LF \<notin> set p | Inl e \<Rightarrow> True))"
proof (cases "st_password_stdin s")
  case True
  then show ?thesis
    using assms last_trim_end_newlines
    by (auto simp: resolve_password_def Let_def and_then_Inr_iff split: sum.splits if_splits)
next
  case False
  show ?thesis
  proof (cases "stored_password env (st_password s)")
    case None
    then have "resolve_password stdin env s host user t
        = prompt_password (''Password for '' @ user @ ''@'' @ host @ '': '') t"
      using False by (auto simp: resolve_password_def stored_password_def split: option.splits list.splits)
    then have "prompt_password (''Password for '' @ user @ ''@'' @ host @ '': '') t = (r, t')"
      using assms(2) by simp
    from prompt_password_ok[OF assms(1) this] show ?thesis
      using None False by (cases r) simp_all
  next
    case (Some p)
    then have "resolve_password stdin env s host user t = (Inr p, t) \<and> p \<noteq> []"
      using False by (auto simp: resolve_password_def stored_password_def split: option.splits list.splits)
    then show ?thesis using Some False assms(2) by auto
  qed
qed

theorem password_terminal_witness:
  "(let (r, t') = resolve_password (Inl ''closed'') None settings_default ''h'' ''u'' example_terminal in
    r = Inl ''reading password: gone'' \<and> tty_echo t' = True)"
proof -
  obtain r t' where e: "resolve_password (Inl ''closed'') None settings_default ''h'' ''u'' example_terminal = (r, t')"
    by fastforce
  have "tty_echo t' = tty_echo example_terminal"
    using password_terminal[OF _ e] by (simp add: example_terminal_def)
  moreover have "r = Inl ''reading password: gone''"
    using e by (simp add: resolve_password_def settings_default_def prompt_password_def example_terminal_def Let_def)
  ultimately show ?thesis using e by (simp add: example_terminal_def)
qed

end
