(* ===== verification/Cli_Caps.thy ===== *)
theory Cli_Caps
  imports Cli_Commands Http_Correct
begin

text \<open>
  The capability test of the command line client reads the text of the kernel: that
  it finds the bit in it, and that \<open>connect\<close> does nothing without the privilege.
\<close>

section \<open>Lines of a text\<close>

definition plain_line :: "string \<Rightarrow> bool" where
  "plain_line l = (LF \<notin> set l \<and> (l = [] \<or> last l \<noteq> CR))"

definition text_of :: "string list \<Rightarrow> string" where
  "text_of ls = concat (map (\<lambda>l. l @ [LF]) ls)"

lemma split_on_text: "list_all plain_line ls \<Longrightarrow> split_on LF (text_of ls) = ls @ [[]]"
  by (induction ls) (simp_all add: text_of_def plain_line_def split_on_append)

lemma lines_text_of: "list_all plain_line ls \<Longrightarrow> lines (text_of ls) = ls"
proof -
  assume p: "list_all plain_line ls"
  then have "map chomp_cr ls = ls"
    by (induction ls) (auto simp: chomp_cr_def plain_line_def)
  then show ?thesis by (simp add: lines_def split_on_text[OF p] Let_def)
qed

section \<open>The hexadecimal field\<close>

lemma parse_digits_zeros: "parse_digits 16 bound 0 (replicate k (CHR ''0'') @ s) =
    (if 0 < bound then parse_digits 16 bound 0 s else if k = 0 then parse_digits 16 bound 0 s else None)"
  by (induction k) (simp_all add: digit_val.simps)

lemma show_hex_not_Nil [simp]: "show_hex k n \<noteq> []"
  by (simp add: show_hex_def Let_def)

lemma show_hex_digit:
  assumes "c \<in> set (show_hex k n)"
  shows "code c < 128 \<and> \<not> ascii_ws c \<and> c \<noteq> CR \<and> c \<noteq> LF \<and> c \<noteq> CHR ''+''"
proof -
  have "c = CHR ''0'' \<or> c \<in> set (show_radix 16 n)"
    using assms by (auto simp: show_hex_def Let_def)
  then show ?thesis
  proof
    assume c: "c \<in> set (show_radix 16 n)"
    have "set (show_radix 16 n) \<subseteq> digit_char ` {..<16}" by (rule set_show_radix) simp
    from subsetD[OF this c] obtain d where d: "c = digit_char d" "d \<in> {..<16}" by (rule imageE)
    then have "d < 16" by simp
    then have "c \<noteq> CHR ''+''" using digit_char_not_plus d(1) by simp
    then show ?thesis using hex_digit_props[OF c] by simp
  qed (simp add: ascii_ws_def)
qed

lemma parse_show_hex:
  assumes "n < bound"
  shows "parse_radix 16 bound (show_hex k n) = Some n"
proof -
  have "parse_digits 16 bound 0 (show_hex k n) = Some n"
    using assms parse_digits_zeros[of bound _ "show_radix 16 n"] parse_digits_show[of 16 n bound]
    by (simp add: show_hex_def Let_def)
  moreover have "CHR ''+'' \<notin> set (show_hex k n)" using show_hex_digit by blast
  then have "\<not> prefix ''+'' (show_hex k n)" by (auto simp: prefix_def)
  ultimately show ?thesis by (simp add: parse_radix_def Let_def)
qed

lemma trim_tab_hex: "trim (CHR 0x09 # show_hex k n) = show_hex k n"
proof -
  have "hd (show_hex k n) \<in> set (show_hex k n)" "last (show_hex k n) \<in> set (show_hex k n)" by simp_all
  then have "trim (show_hex k n) = show_hex k n" using show_hex_digit by (intro trim_id) blast+
  moreover have "trim_start (CHR 0x09 # show_hex k n) = trim_start (show_hex k n)"
    unfolding trim_start_def by (subst drop_while_prefix.simps) (simp add: ascii_ws_def)
  ultimately show ?thesis by (simp add: trim_def)
qed

text \<open>
  The capability test reads the kernel's report correctly: whatever lines come
  before and after, as long as the first one that begins with \<open>CapEff:\<close> holds the
  effective set as the kernel prints it (a tab and sixteen hexadecimal digits), the
  test says whether bit 12, \<open>CAP_NET_ADMIN\<close>, is in the set.
\<close>

theorem has_cap_net_admin_bit:
  fixes caps :: "64 word"
  assumes "list_all plain_line (pre @ post)" "list_all (\<lambda>l. \<not> prefix ''CapEff:'' l) pre"
  shows "has_cap_net_admin (Some (text_of (pre @ (''CapEff:'' @ CHR 0x09 # show_hex 16 (unat caps)) # post)))
    \<longleftrightarrow> bit caps 12"
proof -
  let ?l = "''CapEff:'' @ CHR 0x09 # show_hex 16 (unat caps)"
  have "last (show_hex 16 (unat caps)) \<in> set (show_hex 16 (unat caps))" by simp
  from show_hex_digit[OF this] have "plain_line ?l"
    using show_hex_digit by (auto simp: plain_line_def)
  then have lines: "lines (text_of (pre @ ?l # post)) = pre @ ?l # post"
    using assms(1) by (intro lines_text_of) simp
  have find: "find (\<lambda>l. strip_prefix ''CapEff:'' l \<noteq> None) (pre @ ?l # post) = Some ?l"
    using assms(2) by (induction pre) (auto simp: strip_prefix_def)
  have "unat caps < 2 ^ 64" using unsigned_less[of caps] by simp
  then have parse: "parse_radix 16 (2 ^ 64) (show_hex 16 (unat caps)) = Some (unat caps)"
    by (rule parse_show_hex)
  have "and caps (push_bit 12 1) \<noteq> 0 \<longleftrightarrow> bit caps 12"
    by (simp add: push_bit_eq_mult bit_iff_and_push_bit_not_eq_0)
  moreover have "strip_prefix ''CapEff:'' ?l = Some (CHR 0x09 # show_hex 16 (unat caps))"
    by (simp add: strip_prefix_def)
  moreover have "(word_of_nat (unat caps) :: 64 word) = caps" by simp
  ultimately show ?thesis
    by (simp only: has_cap_net_admin_def opt_bind_simps lines find option.case trim_tab_hex parse)
qed


theorem has_cap_net_admin_bit_witness:
  "has_cap_net_admin (Some (text_of [''CapInh:'' @ CHR 0x09 # ''0000000000000000'',
      ''CapEff:'' @ CHR 0x09 # show_hex 16 0x3000, ''Seccomp:'' @ CHR 0x09 # ''0'']))"
proof -
  have w: "has_cap_net_admin (Some (text_of ([''CapInh:'' @ CHR 0x09 # ''0000000000000000''] @
      (''CapEff:'' @ CHR 0x09 # show_hex 16 (unat (0x3000 :: 64 word))) # [''Seccomp:'' @ CHR 0x09 # ''0''])))
    \<longleftrightarrow> bit (0x3000 :: 64 word) 12"
    by (rule has_cap_net_admin_bit) (simp_all add: plain_line_def)
  have "bit (0x3000 :: 64 word) 12" by (simp add: bit_numeral_word_iff)
  then show ?thesis using w by simp
qed

section \<open>Without the privilege\<close>

text \<open>
  Without the privilege \<open>connect\<close> stops before the engine: whatever the
  arguments, it ends with a message, and no connection is made, no event sent, no
  device opened and no route touched.
\<close>

theorem connect_needs_privileges:
  assumes "\<not> ce_root env" "\<not> has_cap_net_admin (ce_status env)"
  shows "\<exists>e. cmd_connect radd rdel env args envs c = (Inl e, c)"
proof -
  have "require_privileges (ce_root env) (ce_status env) = Inl help_privileges"
    using assms by (simp add: require_privileges_def)
  then show ?thesis
    by (simp add: cmd_connect_def connect_setup_def split: sum.splits prod.splits)
qed

lemma connect_needs_privileges_witness:
  "\<exists>e. cmd_connect lt_add lt_del
     \<lparr>ce_order = (\<lambda>m. m), ce_dirs = \<lparr>sudo_home = None, xdg_config = None, home = None\<rparr>, ce_is_dir = (\<lambda>_. False),
      ce_read_file = (\<lambda>_. Inl ''no such file''), ce_stdin = Inr ''pw'', ce_password = None,
      ce_terminal = \<lparr>tty_open = None, tty_getattr = None, tty_setattr = None, tty_restore = None,
        tty_input = [], tty_echo = True, tty_shown = []\<rparr>, ce_root = False, ce_status = None\<rparr>
     [''-H'', ''h''] [] (c :: list_table sys) = (Inl e, c)"
  by (rule connect_needs_privileges) (simp_all add: has_cap_net_admin_def)

end
