(* ===== verification/Helper_Refine.thy ===== *)
theory Helper_Refine
  imports Helper
begin

text \<open>
  What the elevated helper promises to the GUI, as an abstract controller that has
  at most one tunnel, and the proof that the service loop with its engines
  implements it on every sequence of lines, however engines end in between.
\<close>

section \<open>The controller\<close>

datatype control = Idle | Active config | Over

fun control_step :: "step_env \<Rightarrow> helper_input \<Rightarrow> control \<Rightarrow> control \<times> client_message list" where
  "control_step env Bad_Line c = (c, [])"
| "control_step env (Command (Cmd_Connect w password)) c =
     (case config_from_wire w password of
        Inl msg \<Rightarrow> (c, [Msg_Error msg True])
      | Inr cfg \<Rightarrow>
          (case and_then (en_privileges env) (\<lambda>_. en_tun env) of
             Inl e \<Rightarrow> (Idle, [Msg_Error (show_error e) True])
           | Inr _ \<Rightarrow> (Active cfg, [])))"
| "control_step env (Command Cmd_Disconnect) c = (Idle, [])"
| "control_step env (Command Cmd_Shutdown) c = (Over, [Msg_Bye])"
| "control_step env End_Of_Input c = (Over, [])"
| "control_step env Read_Error c = (Over, [])"

definition control_then :: "step_env \<times> helper_input \<Rightarrow> control \<times> client_message list \<Rightarrow> control \<times> client_message list" where
  "control_then x acc = (case acc of (c, msgs) \<Rightarrow> case control_step (fst x) (snd x) c of (c', out) \<Rightarrow> (c', msgs @ out))"

definition control_run :: "(step_env \<times> helper_input) list \<Rightarrow> control \<times> client_message list" where
  "control_run ins = fold control_then ins (Idle, [])"

section \<open>Runs of the helper\<close>

text \<open>The runs of the system with the lines that were read.\<close>

inductive helper_run :: "(step_env \<times> helper_input) list \<Rightarrow> helper \<Rightarrow> bool" where
  run_start: "helper_run [] helper_init"
| run_served: "helper_run ins h \<Longrightarrow> \<not> hp_served h \<Longrightarrow> helper_run (ins @ [(env, inp)]) (serve_input env inp h)"
| run_ends: "helper_run ins h \<Longrightarrow> helper_run ins (h\<lparr>hp_running := filter (\<lambda>(j, _). j \<noteq> i) (hp_running h)\<rparr>)"

lemma helper_run_reachable: "helper_run ins h \<Longrightarrow> helper_reachable h"
  by (induction rule: helper_run.induct)
    (auto intro: reachable.intros helper_step.intros)

text \<open>The configurations of the engines that run and were not told to stop.\<close>

definition live :: "helper \<Rightarrow> config list" where
  "live h = map snd (filter (\<lambda>(i, _). i \<notin> set (hp_signalled h)) (hp_running h))"

section \<open>The simulation\<close>

definition simulates :: "helper \<Rightarrow> control \<Rightarrow> bool" where
  "simulates h c \<longleftrightarrow>
     (hp_served h \<longleftrightarrow> c = Over)
     \<and> (\<forall>j \<in> set (hp_signalled h). j < hp_next h)
     \<and> (case c of
          Active cfg \<Rightarrow> \<exists>i. hp_shutdown h = Some i \<and> i < hp_next h \<and> i \<notin> set (hp_signalled h)
            \<and> (\<forall>cfg'. (i, cfg') \<in> set (hp_running h) \<longrightarrow> cfg' = cfg)
        | _ \<Rightarrow> hp_shutdown h = None)"

lemma simulates_served [simp]:
  "simulates h c \<Longrightarrow> \<not> hp_served h \<Longrightarrow> c \<noteq> Over"
  by (simp add: simulates_def)

lemma simulates_stop:
  assumes "simulates h c" "c \<noteq> Over"
  shows "simulates (stop_session in_time h) Idle"
  using assms
  by (cases c) (auto simp: simulates_def stop_session_def Let_def split: option.splits)

lemma stop_session_sent [simp]: "hp_sent (stop_session in_time h) = hp_sent h"
  by (simp add: stop_session_def Let_def split: option.splits)

lemma hp_sent_send: "hp_sent (hp_send msg h) = hp_sent h @ [msg]"
  by (simp add: hp_send_def)

lemma simulates_send [simp]: "simulates (hp_send msg h) c = simulates h c"
  by (cases c) (simp_all add: simulates_def hp_send_def)

lemma simulates_ends:
  "simulates h c \<Longrightarrow> simulates (h\<lparr>hp_running := filter P (hp_running h)\<rparr>) c"
  by (cases c) (auto simp: simulates_def)

lemma simulates_over:
  assumes "simulates h Idle"
  shows "simulates (h\<lparr>hp_served := True\<rparr>) Over"
  using assms by (simp add: simulates_def)

lemma simulates_connect:
  assumes "engines_ok h" "simulates h c" "c \<noteq> Over"
  shows "simulates (handle_connect env cfg h)
      (case and_then (en_privileges env) (\<lambda>_. en_tun env) of Inl e \<Rightarrow> Idle | Inr _ \<Rightarrow> Active cfg)
    \<and> hp_sent (handle_connect env cfg h) = hp_sent h
      @ (case and_then (en_privileges env) (\<lambda>_. en_tun env) of Inl e \<Rightarrow> [Msg_Error (show_error e) True] | Inr _ \<Rightarrow> [])"
proof -
  define h1 where "h1 = stop_session (en_timely env) h"
  have h1: "simulates h1 Idle" "engines_ok h1" "hp_sent h1 = hp_sent h"
    using simulates_stop[OF assms(2,3)] stop_session_ok(1)[OF assms(1)] by (simp_all add: h1_def)
  have "simulates (h1\<lparr>hp_shutdown := Some (hp_next h1), hp_engine := Some (hp_next h1),
      hp_running := hp_running h1 @ [(hp_next h1, cfg)], hp_next := hp_next h1 + 1\<rparr>) (Active cfg)"
    using h1(1,2) by (auto simp: simulates_def engines_ok_def list_all_iff)
  then show ?thesis
    using h1 unfolding handle_connect_def h1_def[symmetric]
    by (cases "en_privileges env"; cases "en_tun env") (simp_all add: Let_def, simp_all add: hp_send_def)
qed

lemma simulates_input:
  assumes "engines_ok h" "simulates h c" "c \<noteq> Over" "control_step env inp c = (c', out)"
  shows "simulates (serve_input env inp h) c' \<and> hp_sent (serve_input env inp h) = hp_sent h @ out"
proof -
  let ?stop = "stop_session (en_timely env) h"
  have stop: "simulates ?stop Idle" by (rule simulates_stop[OF assms(2,3)])
  have over: "simulates (?stop\<lparr>hp_served := True\<rparr>) Over" "simulates ((hp_send Msg_Bye ?stop)\<lparr>hp_served := True\<rparr>) Over"
    using stop by (simp_all add: simulates_over)
  show ?thesis
  proof (cases "\<exists>w password. inp = Command (Cmd_Connect w password)")
    case True
    then obtain w password where inp: "inp = Command (Cmd_Connect w password)" by blast
    show ?thesis
    proof (cases "config_from_wire w password")
      case (Inl msg)
      then show ?thesis using assms(2,4) by (auto simp: inp serve_input_def hp_send_def[of _ h, symmetric] hp_sent_send)
    next
      case (Inr cfg)
      have "(c', out) = (case and_then (en_privileges env) (\<lambda>_. en_tun env) of
          Inl e \<Rightarrow> (Idle, [Msg_Error (show_error e) True]) | Inr _ \<Rightarrow> (Active cfg, []))"
        using assms(4) by (simp add: inp Inr)
      then show ?thesis
        using simulates_connect[OF assms(1-3), of env cfg]
        by (cases "and_then (en_privileges env) (\<lambda>_. en_tun env)") (simp_all add: inp Inr serve_input_def)
    qed
  next
    case False
    then consider "inp = Bad_Line" | "inp = Command Cmd_Disconnect" | "inp = Command Cmd_Shutdown"
      | "inp = End_Of_Input" | "inp = Read_Error"
      by (cases inp) (use client_command.exhaust in blast)+
    then show ?thesis
      using assms(2,4) stop over by cases (auto simp: serve_input_def hp_sent_send)
  qed
qed

lemma helper_run_simulates:
  "helper_run ins h \<Longrightarrow> simulates h (fst (control_run ins)) \<and> hp_sent h = snd (control_run ins)"
proof (induction rule: helper_run.induct)
  case run_start
  then show ?case by (simp add: control_run_def simulates_def helper_init_def)
next
  case (run_served ins h env inp)
  have ok: "engines_ok h" using run_served(1) helper_run_reachable service.always by blast
  have c: "fst (control_run ins) \<noteq> Over" using run_served simulates_served by blast
  obtain c' out where s: "control_step env inp (fst (control_run ins)) = (c', out)" by fastforce
  have "control_run (ins @ [(env, inp)]) = (c', snd (control_run ins) @ out)"
    using s by (cases "control_run ins") (simp add: control_run_def control_then_def)
  then show ?case using simulates_input[OF ok _ c s] run_served.IH by simp
next
  case (run_ends ins h i)
  then show ?case by (simp add: simulates_ends)
qed

lemma filter_key_distinct:
  "distinct (map fst xs) \<Longrightarrow> filter (\<lambda>(j, _). j = i) xs = (case map_of xs i of None \<Rightarrow> [] | Some v \<Rightarrow> [(i, v)])"
proof (induction xs)
  case (Cons x xs)
  have "i \<notin> fst ` set xs \<Longrightarrow> filter (\<lambda>(j, _). j = i) xs = []" by (force simp: filter_empty_conv)
  then show ?case using Cons by (cases x) auto
qed simp

text \<open>
  C9: the helper implements a controller with one tunnel.  Whatever lines the GUI
  sends, and whichever engines end in between, early or late, the messages the
  service has sent are those of the controller, the loop has ended exactly when the
  controller is over, and the engines that run without having been told to stop are
  the controller's tunnel with exactly its configuration: none if it has none, and
  otherwise that one, unless it ended by itself.  A line that does not parse and a
  configuration that is refused change nothing; a failed check of the privileges or
  of the device leaves no tunnel.
\<close>

theorem helper_refines_control:
  assumes "helper_run ins h"
  shows "hp_sent h = snd (control_run ins)
    \<and> (hp_served h \<longleftrightarrow> fst (control_run ins) = Over)
    \<and> (case fst (control_run ins) of
         Active cfg \<Rightarrow> live h = [cfg]
           \<or> (\<exists>i. hp_shutdown h = Some i \<and> i \<notin> set (map fst (hp_running h)) \<and> live h = [])
       | _ \<Rightarrow> live h = [])"
proof -
  have ok: "engines_ok h" using assms helper_run_reachable service.always by blast
  have sim: "simulates h (fst (control_run ins))" "hp_sent h = snd (control_run ins)"
    using helper_run_simulates[OF assms] by simp_all
  have dist: "distinct (map fst (hp_running h))" using ok by (simp add: engines_ok_def)
  have none: "live h = []" if "hp_shutdown h = None"
    using ok that by (auto simp: live_def engines_ok_def list_all_iff filter_empty_conv)
  have active: "live h = [cfg] \<or> (\<exists>i. hp_shutdown h = Some i \<and> i \<notin> set (map fst (hp_running h)) \<and> live h = [])"
    if c: "fst (control_run ins) = Active cfg" for cfg
  proof -
    obtain i where i: "hp_shutdown h = Some i" "i \<notin> set (hp_signalled h)"
      "\<And>cfg'. (i, cfg') \<in> set (hp_running h) \<Longrightarrow> cfg' = cfg"
      using sim c by (auto simp: simulates_def)
    have "filter (\<lambda>(j, _). j \<notin> set (hp_signalled h)) (hp_running h) = filter (\<lambda>(j, _). j = i) (hp_running h)"
      using ok i by (intro filter_cong) (auto simp: engines_ok_def list_all_iff)
    then have l: "live h = (case map_of (hp_running h) i of None \<Rightarrow> [] | Some v \<Rightarrow> [v])"
      by (simp add: live_def filter_key_distinct[OF dist] split: option.splits)
    show ?thesis
    proof (cases "map_of (hp_running h) i")
      case None
      then have "live h = []" using l by simp
      moreover have "i \<notin> set (map fst (hp_running h))" using None by (simp add: map_of_eq_None_iff)
      ultimately show ?thesis using i(1) by blast
    next
      case (Some v)
      have "v = cfg" by (rule i(3)[OF map_of_SomeD[OF Some]])
      then show ?thesis using l Some by simp
    qed
  qed
  have over: "hp_served h \<longleftrightarrow> fst (control_run ins) = Over"
    using sim(1) unfolding simulates_def by (rule conjunct1)
  show ?thesis
  proof (intro conjI)
    show "hp_sent h = snd (control_run ins)" by (rule sim(2))
    show "hp_served h \<longleftrightarrow> fst (control_run ins) = Over" by (rule over)
    show "case fst (control_run ins) of
         Active cfg \<Rightarrow> live h = [cfg]
           \<or> (\<exists>i. hp_shutdown h = Some i \<and> i \<notin> set (map fst (hp_running h)) \<and> live h = [])
       | _ \<Rightarrow> live h = []"
    proof (cases "fst (control_run ins)")
      case (Active cfg)
      then show ?thesis using active[OF Active] by (simp only: control.case)
    next
      case Idle
      then have "hp_shutdown h = None" using sim(1) by (simp add: simulates_def)
      then show ?thesis using none Idle by (simp only: control.case)
    next
      case Over
      then have "hp_shutdown h = None" using sim(1) by (simp add: simulates_def)
      then show ?thesis using none Over by (simp only: control.case)
    qed
  qed
qed

lemma helper_refines_control_witness:
  "live (serve_input \<lparr>en_timely = False, en_privileges = Inr (), en_tun = Inr ()\<rparr>
      (Command (Cmd_Connect (example_wire\<lparr>wc_host := ''g''\<rparr>) ''pw''))
      (serve_input \<lparr>en_timely = False, en_privileges = Inr (), en_tun = Inr ()\<rparr>
        (Command (Cmd_Connect example_wire ''pw'')) helper_init)) \<noteq> []"
proof -
  let ?slow = "\<lparr>en_timely = False, en_privileges = Inr (), en_tun = Inr ()\<rparr>"
  let ?a = "Command (Cmd_Connect example_wire ''pw'')"
  let ?b = "Command (Cmd_Connect (example_wire\<lparr>wc_host := ''g''\<rparr>) ''pw'')"
  let ?h = "serve_input ?slow ?b (serve_input ?slow ?a helper_init)"
  have "\<not> hp_served helper_init" "\<not> hp_served (serve_input ?slow ?a helper_init)"
    by (simp_all add: serve_input_def config_from_wire_def example_wire_def handle_connect_def stop_session_def
        helper_init_def Let_def)
  then have run: "helper_run (([] @ [(?slow, ?a)]) @ [(?slow, ?b)]) ?h"
    by (intro helper_run.intros)
  obtain cfg where "fst (control_run (([] @ [(?slow, ?a)]) @ [(?slow, ?b)])) = Active cfg"
    by (simp add: control_run_def control_then_def config_from_wire_def example_wire_def)
  moreover have "hp_shutdown ?h = Some 1 \<and> map fst (hp_running ?h) = [0, 1]"
    by (simp add: serve_input_def config_from_wire_def example_wire_def handle_connect_def stop_session_def
        helper_init_def Let_def)
  ultimately show ?thesis using helper_refines_control[OF run] by auto
qed

end
