(* ===== verification/Gui.thy ===== *)
theory Gui
  imports Helper_Refine Client_Events
begin

text \<open>
  The desktop backend (\<open>src-tauri/src/lib.rs\<close>): the shared state, the commands that
  the window and the tray send to the helper, and the task that relays what the
  helper answers.

  The write half of a connection is the number of the connection.  A command runs
  in steps, one for each critical section or pipe operation, so that other
  commands and the reader can come between them.  The JSON text of a line is
  \<open>serde\<close>'s part: a line is given as what it was read as.  The outcome of every
  pipe operation is an input.
\<close>

section \<open>The state\<close>

record gui =
  gu_writer :: "nat option"
  gu_reader :: "nat option"
  gu_status :: wire_state
  gu_profile :: "string option"

definition gui_default :: gui where
  "gui_default = \<lparr>gu_writer = None, gu_reader = None, gu_status = Ws_Disconnected, gu_profile = None\<rparr>"

text \<open>The state with what the backend has done: commands delivered, readers that relay, what was shown.\<close>

record desktop = gui +
  dk_next :: nat
  dk_sent :: "(nat \<times> client_command) list"
  dk_readers :: "nat list"
  dk_emitted :: "client_message list"
  dk_notified :: "string list"
  dk_hidden :: bool
  dk_exited :: bool

definition desktop_init :: desktop where
  "desktop_init = gui.extend gui_default
     (desktop.fields 0 [] [] [] [] False False)"

section \<open>The reader\<close>

fun status_after :: "client_message \<Rightarrow> wire_state \<Rightarrow> wire_state" where
  "status_after (Msg_State s) st = s"
| "status_after (Msg_Error m permanent) st = (if permanent then Ws_Disconnected else st)"
| "status_after Msg_Bye st = st"

definition reader_end :: "nat \<Rightarrow> desktop \<Rightarrow> desktop" where
  "reader_end k d = d\<lparr>gu_status := Ws_Disconnected, dk_readers := removeAll k (dk_readers d),
     dk_emitted := dk_emitted d @ [Msg_State Ws_Disconnected]\<rparr>"

definition relay_message :: "nat \<Rightarrow> client_message \<Rightarrow> desktop \<Rightarrow> desktop" where
  "relay_message k msg d =
     (let d1 = d\<lparr>gu_status := status_after msg (gu_status d)\<rparr>;
          d2 = (if msg = Msg_State Ws_Established
                then d1\<lparr>dk_notified := dk_notified d1 @ [''Connected to '' @ unwrap_or [] (gu_profile d1)], dk_hidden := True\<rparr>
                else d1);
          d3 = d2\<lparr>dk_emitted := dk_emitted d2 @ [msg]\<rparr> in
      if msg = Msg_Bye then reader_end k d3 else d3)"

text \<open>One turn of the task: a line that is read as a message or not, or the end of the pipe.\<close>

datatype pipe_line = Unread | Line client_message | Pipe_End

fun reader_step :: "nat \<Rightarrow> pipe_line \<Rightarrow> desktop \<Rightarrow> desktop" where
  "reader_step k Unread d = d"
| "reader_step k (Line msg) d = relay_message k msg d"
| "reader_step k Pipe_End d = reader_end k d"

section \<open>\<open>vpn_connect\<close>\<close>

record connect_args =
  ca_config :: wire_config
  ca_password :: string
  ca_profile :: string

text \<open>The errors of the pipe operations of one call, if they fail.\<close>

record pipe_env =
  pe_reuse :: "string option"
  pe_open :: "string option"
  pe_first :: "string option"

text \<open>
  Where a call stands: before the lock that records the profile; before the one that
  takes the writer; with a taken writer, used or dead; without one; with a fresh
  connection, unused or used; returned.
\<close>

datatype connect_pc =
    Enter | Take | Reuse nat | Restore nat | Stale nat | Spawn | First nat | Store nat | Done "string + unit"

definition deliver :: "nat \<Rightarrow> client_command \<Rightarrow> desktop \<Rightarrow> desktop" where
  "deliver w cmd d = d\<lparr>dk_sent := dk_sent d @ [(w, cmd)]\<rparr>"

definition abort_reader :: "desktop \<Rightarrow> desktop" where
  "abort_reader d = d\<lparr>gu_reader := None,
     dk_readers := (case gu_reader d of Some r \<Rightarrow> removeAll r (dk_readers d) | None \<Rightarrow> dk_readers d)\<rparr>"

fun connect_step :: "pipe_env \<Rightarrow> connect_args \<Rightarrow> connect_pc \<times> desktop \<Rightarrow> connect_pc \<times> desktop" where
  "connect_step env a (Enter, d) = (Take, d\<lparr>gu_profile := Some (ca_profile a)\<rparr>)"
| "connect_step env a (Take, d) =
     ((case gu_writer d of Some w \<Rightarrow> Reuse w | None \<Rightarrow> Spawn), d\<lparr>gu_writer := None\<rparr>)"
| "connect_step env a (Reuse w, d) =
     (case pe_reuse env of
        None \<Rightarrow> (Restore w, deliver w (Cmd_Connect (ca_config a) (ca_password a)) d)
      | Some e \<Rightarrow> (Stale w, d))"
| "connect_step env a (Restore w, d) = (Done (Inr ()), d\<lparr>gu_writer := Some w\<rparr>)"
| "connect_step env a (Stale w, d) = (Spawn, abort_reader d)"
| "connect_step env a (Spawn, d) =
     (case pe_open env of
        Some e \<Rightarrow> (Done (Inl e), d)
      | None \<Rightarrow> (First (dk_next d), d\<lparr>dk_next := dk_next d + 1\<rparr>))"
| "connect_step env a (First k, d) =
     (case pe_first env of
        Some e \<Rightarrow> (Done (Inl e), d)
      | None \<Rightarrow> (Store k, (deliver k (Cmd_Connect (ca_config a) (ca_password a)) d)\<lparr>dk_readers := k # dk_readers d\<rparr>))"
| "connect_step env a (Store k, d) = (Done (Inr ()), d\<lparr>gu_writer := Some k, gu_reader := Some k\<rparr>)"
| "connect_step env a (Done r, d) = (Done r, d)"

text \<open>The call without interruption; seven steps are enough for every path.\<close>

definition vpn_connect :: "pipe_env \<Rightarrow> connect_args \<Rightarrow> desktop \<Rightarrow> connect_pc \<times> desktop" where
  "vpn_connect env a d = (connect_step env a ^^ 7) (Enter, d)"

section \<open>The other commands\<close>

text \<open>\<open>send_err\<close> is the error of the pipe, if writing fails.\<close>

definition vpn_disconnect :: "string option \<Rightarrow> desktop \<Rightarrow> (string + unit) \<times> desktop" where
  "vpn_disconnect send_err d =
     (case gu_writer d of
        None \<Rightarrow> (Inr (), d)
      | Some w \<Rightarrow>
          (case send_err of
             Some e \<Rightarrow> (Inl e, d\<lparr>gu_writer := None\<rparr>)
           | None \<Rightarrow> (Inr (), deliver w Cmd_Disconnect d)))"

definition tray_disconnect :: "string option \<Rightarrow> desktop \<Rightarrow> desktop" where
  "tray_disconnect send_err d =
     (case gu_writer d of
        None \<Rightarrow> d
      | Some w \<Rightarrow> (case send_err of Some e \<Rightarrow> d | None \<Rightarrow> deliver w Cmd_Disconnect d))"

definition tray_quit :: "string option \<Rightarrow> desktop \<Rightarrow> desktop" where
  "tray_quit send_err d =
     ((case gu_writer d of
         None \<Rightarrow> d
       | Some w \<Rightarrow> (case send_err of Some e \<Rightarrow> d | None \<Rightarrow> deliver w Cmd_Shutdown d))
      \<lparr>gu_writer := None, dk_exited := True\<rparr>)"

definition tray_show :: "desktop \<Rightarrow> desktop" where
  "tray_show d = d\<lparr>dk_hidden := False\<rparr>"

text \<open>Closing the window hides it; nothing is torn down.\<close>

definition close_requested :: "desktop \<Rightarrow> desktop" where
  "close_requested d = d\<lparr>dk_hidden := True\<rparr>"

definition vpn_status :: "desktop \<Rightarrow> wire_state" where
  "vpn_status d = gu_status d"

section \<open>The system\<close>

text \<open>Calls of \<open>vpn_connect\<close> in progress, by number, with the environment each meets.\<close>

type_synonym calls = "nat \<Rightarrow> (pipe_env \<times> connect_args \<times> connect_pc) option"

inductive gui_step :: "calls \<times> desktop \<Rightarrow> calls \<times> desktop \<Rightarrow> bool" where
  called: "cs i = None \<Longrightarrow> gui_step (cs, d) (cs(i \<mapsto> (env, a, Enter)), d)"
| stepped: "cs i = Some (env, a, pc) \<Longrightarrow> connect_step env a (pc, d) = (pc', d') \<Longrightarrow>
    gui_step (cs, d) (cs(i \<mapsto> (env, a, pc')), d')"
| disconnected: "gui_step (cs, d) (cs, snd (vpn_disconnect err d))"
| tray_disconnected: "gui_step (cs, d) (cs, tray_disconnect err d)"
| quit: "gui_step (cs, d) (cs, tray_quit err d)"
| window: "gui_step (cs, d) (cs, tray_show d)"
| closed: "gui_step (cs, d) (cs, close_requested d)"
| relayed: "k \<in> set (dk_readers d) \<Longrightarrow> gui_step (cs, d) (cs, reader_step k line d)"

abbreviation gui_reachable :: "calls \<times> desktop \<Rightarrow> bool" where
  "gui_reachable \<equiv> reachable gui_step (Map.empty, desktop_init)"

end
