(* ===== verification/Gui_Interleave.thy ===== *)
theory Gui_Interleave
  imports Gui
begin

text \<open>
  What holds of the desktop backend under every interleaving of its commands, tray
  actions and readers.
\<close>

section \<open>The invariant\<close>

fun owns :: "connect_pc \<Rightarrow> nat option" where
  "owns (Reuse w) = Some w"
| "owns (Restore w) = Some w"
| "owns (Stale w) = Some w"
| "owns (First w) = Some w"
| "owns (Store w) = Some w"
| "owns _ = None"

abbreviation used :: "('a desktop_scheme) \<Rightarrow> nat set" where
  "used d \<equiv> fst ` set (dk_sent d)"

fun is_connect :: "client_command \<Rightarrow> bool" where
  "is_connect (Cmd_Connect cfg pw) = True"
| "is_connect _ = False"

text \<open>The first command on a connection, if there is one, is a Connect.\<close>

fun first_ok :: "(nat \<times> client_command) list \<Rightarrow> nat \<Rightarrow> bool" where
  "first_ok [] w = True"
| "first_ok ((k, cmd) # rest) w = (if k = w then is_connect cmd else first_ok rest w)"

lemma first_ok_append:
  "first_ok (xs @ [(k, cmd)]) w = (if w \<in> fst ` set xs then first_ok xs w else k = w \<longrightarrow> is_connect cmd)"
  by (induction xs w rule: first_ok.induct) auto

definition request_of :: "connect_args \<Rightarrow> client_command" where
  "request_of a = Cmd_Connect (ca_config a) (ca_password a)"

fun call_ok :: "desktop \<Rightarrow> connect_args \<Rightarrow> connect_pc \<Rightarrow> bool" where
  "call_ok d a (Reuse w) = (w \<in> used d)"
| "call_ok d a (Stale w) = (w \<in> used d)"
| "call_ok d a (Restore w) = ((w, request_of a) \<in> set (dk_sent d))"
| "call_ok d a (First w) = (w < dk_next d \<and> w \<notin> used d)"
| "call_ok d a (Store w) = ((w, request_of a) \<in> set (dk_sent d))"
| "call_ok d a (Done (Inr _)) = (\<exists>w. (w, request_of a) \<in> set (dk_sent d))"
| "call_ok d a _ = True"

definition log_ok :: "desktop \<Rightarrow> bool" where
  "log_ok d \<longleftrightarrow> (\<forall>w. first_ok (dk_sent d) w) \<and> (\<forall>w \<in> used d. w < dk_next d)
     \<and> distinct (dk_readers d) \<and> set (dk_readers d) \<subseteq> used d
     \<and> (\<forall>w. gu_writer d = Some w \<longrightarrow> w \<in> used d)"

definition call_owner :: "calls \<Rightarrow> nat \<Rightarrow> nat option" where
  "call_owner cs i = (case cs i of Some (env, a, pc) \<Rightarrow> owns pc | None \<Rightarrow> None)"

definition gui_inv :: "calls \<Rightarrow> desktop \<Rightarrow> bool" where
  "gui_inv cs d \<longleftrightarrow> log_ok d
     \<and> (\<forall>i env a pc. cs i = Some (env, a, pc) \<longrightarrow> call_ok d a pc)
     \<and> (\<forall>i j w. call_owner cs i = Some w \<and> call_owner cs j = Some w \<longrightarrow> i = j)
     \<and> (\<forall>i w. gu_writer d = Some w \<longrightarrow> call_owner cs i \<noteq> Some w)"

lemma gui_invI:
  assumes "log_ok d" "\<And>i env a pc. cs i = Some (env, a, pc) \<Longrightarrow> call_ok d a pc"
    "\<And>i j w. call_owner cs i = Some w \<Longrightarrow> call_owner cs j = Some w \<Longrightarrow> i = j"
    "\<And>i w. gu_writer d = Some w \<Longrightarrow> call_owner cs i \<noteq> Some w"
  shows "gui_inv cs d"
  using assms unfolding gui_inv_def by blast

lemma gui_invD:
  assumes "gui_inv cs d"
  shows "log_ok d" "cs i = Some (env, a, pc) \<Longrightarrow> call_ok d a pc"
    "call_owner cs i = Some w \<Longrightarrow> call_owner cs j = Some w \<Longrightarrow> i = j"
    "gu_writer d = Some w \<Longrightarrow> call_owner cs i \<noteq> Some w"
  using assms unfolding gui_inv_def by blast+

section \<open>Deliveries\<close>

lemma call_ok_cong:
  "dk_sent d' = dk_sent d \<Longrightarrow> dk_next d \<le> dk_next d' \<Longrightarrow> call_ok d a pc \<Longrightarrow> call_ok d' a pc"
  by (cases "(d, a, pc)" rule: call_ok.cases) auto

lemma call_ok_deliver:
  "dk_sent d' = dk_sent d @ [(w, cmd)] \<Longrightarrow> dk_next d' = dk_next d \<Longrightarrow> call_ok d a pc \<Longrightarrow> owns pc \<noteq> Some w
     \<Longrightarrow> call_ok d' a pc"
  by (cases "(d, a, pc)" rule: call_ok.cases) auto

lemma call_ok_upd [simp]:
  "call_ok (d\<lparr>gu_profile := x\<rparr>) a pc = call_ok d a pc" "call_ok (d\<lparr>gu_writer := x2\<rparr>) a pc = call_ok d a pc"
  "call_ok (d\<lparr>gu_reader := x3\<rparr>) a pc = call_ok d a pc" "call_ok (d\<lparr>dk_readers := x4\<rparr>) a pc = call_ok d a pc"
  "call_ok (abort_reader d) a pc = call_ok d a pc"
  by (cases "(d, a, pc)" rule: call_ok.cases; simp add: abort_reader_def)+

lemma log_ok_upd [simp]:
  "log_ok (d\<lparr>gu_profile := x\<rparr>) = log_ok d" "log_ok (d\<lparr>gu_reader := x2\<rparr>) = log_ok d"
  "log_ok d \<Longrightarrow> log_ok (d\<lparr>gu_writer := None\<rparr>)"
  "log_ok d \<Longrightarrow> w \<in> used d \<Longrightarrow> log_ok (d\<lparr>gu_writer := Some w\<rparr>)"
  by (simp_all add: log_ok_def)

lemma log_ok_removed: "log_ok d \<Longrightarrow> log_ok (d\<lparr>dk_readers := removeAll r (dk_readers d)\<rparr>)"
  by (simp add: log_ok_def distinct_removeAll) blast

lemma log_ok_abort [simp]:
  assumes "log_ok d"
  shows "log_ok (abort_reader d)"
proof (cases "gu_reader d")
  case (Some r)
  have "abort_reader d = (d\<lparr>dk_readers := removeAll r (dk_readers d)\<rparr>)\<lparr>gu_reader := None\<rparr>"
    by (simp add: abort_reader_def Some)
  then show ?thesis using log_ok_removed[OF assms, of r] by simp
qed (use assms in \<open>simp add: abort_reader_def\<close>)

lemma abort_reader_writer [simp]: "gu_writer (abort_reader d) = gu_writer d"
  by (simp add: abort_reader_def)

lemma call_owner_upd [simp]:
  "call_owner (cs(i \<mapsto> (env, a, pc))) j = (if j = i then owns pc else call_owner cs j)"
  by (simp add: call_owner_def)

text \<open>A state that differs only in what the invariant does not read, or has no writer any more.\<close>

lemma gui_inv_frame:
  assumes "gui_inv cs d" "dk_sent d' = dk_sent d" "dk_next d' = dk_next d"
    "distinct (dk_readers d')" "set (dk_readers d') \<subseteq> set (dk_readers d)"
    "gu_writer d' = gu_writer d \<or> gu_writer d' = None"
  shows "gui_inv cs d'"
proof (rule gui_invI)
  note log = gui_invD(1)[OF assms(1), unfolded log_ok_def]
  have "\<forall>w. gu_writer d' = Some w \<longrightarrow> w \<in> used d" using log assms(6) by (metis option.distinct(1))
  then show "log_ok d'" using log assms(4,5) unfolding log_ok_def assms(2,3) by blast
  show "call_ok d' a pc" if "cs i = Some (env, a, pc)" for i env a pc
    using call_ok_cong[of d' d a pc] gui_invD(2)[OF assms(1) that] assms(2,3) by simp
  show "i = j" if "call_owner cs i = Some w" "call_owner cs j = Some w" for i j w
    using gui_invD(3)[OF assms(1) that] .
  show "call_owner cs i \<noteq> Some w" if "gu_writer d' = Some w" for i w
    using gui_invD(4)[OF assms(1), of w i] that assms(6) by auto
qed

lemma gui_inv_deliver_writer:
  assumes "gui_inv cs d" "gu_writer d = Some w"
  shows "gui_inv cs (deliver w cmd d)"
proof (rule gui_invI)
  have "w \<in> used d" using assms by (simp add: gui_inv_def log_ok_def)
  then show "log_ok (deliver w cmd d)"
    using assms by (auto simp: gui_inv_def log_ok_def deliver_def first_ok_append)
  show "call_ok (deliver w cmd d) a pc" if "cs i = Some (env, a, pc)" for i env a pc
  proof (rule call_ok_deliver)
    show "owns pc \<noteq> Some w" using gui_invD(4)[OF assms, of i] that by (simp add: call_owner_def)
  qed (use gui_invD(2)[OF assms(1) that] in \<open>simp_all add: deliver_def\<close>)
  show "i = j" if "call_owner cs i = Some v" "call_owner cs j = Some v" for i j v
    using gui_invD(3)[OF assms(1) that] .
  show "call_owner cs i \<noteq> Some v" if "gu_writer (deliver w cmd d) = Some v" for i v
    using gui_invD(4)[OF assms(1)] that by (simp add: deliver_def)
qed

text \<open>A step of one call: what has to be shown about the call and the state.\<close>

lemma gui_inv_call:
  assumes "gui_inv cs d" "log_ok d'" "call_ok d' a pc'"
    "\<And>a pc. call_ok d a pc \<Longrightarrow> (owns pc = None \<or> owns pc \<noteq> call_owner cs i) \<Longrightarrow> call_ok d' a pc"
    "\<And>w. owns pc' = Some w \<Longrightarrow> (\<forall>j. j \<noteq> i \<longrightarrow> call_owner cs j \<noteq> Some w) \<and> gu_writer d' \<noteq> Some w"
    "\<And>w. gu_writer d' = Some w \<Longrightarrow> gu_writer d = Some w \<or> call_owner cs i = Some w"
  shows "gui_inv (cs(i \<mapsto> (env, a, pc'))) d'"
proof (rule gui_invI)
  show "call_ok d' b pc" if "(cs(i \<mapsto> (env, a, pc'))) j = Some (e, b, pc)" for j e b pc
  proof (cases "j = i")
    case False
    then have j: "cs j = Some (e, b, pc)" using that by simp
    have "owns pc = None \<or> owns pc \<noteq> call_owner cs i"
      using gui_invD(3)[OF assms(1), of i _ j] False j call_owner_def[of cs j]
      by (cases "owns pc") (simp, metis option.simps(5) prod.simps(2))
    then show ?thesis using assms(4) gui_invD(2)[OF assms(1) j] by blast
  qed (use that assms(3) in simp)
  show "j = k" if "call_owner (cs(i \<mapsto> (env, a, pc'))) j = Some w" "call_owner (cs(i \<mapsto> (env, a, pc'))) k = Some w" for j k w
    using that assms(5)[of w] gui_invD(3)[OF assms(1), of j w k] by (auto split: if_splits)
  show "call_owner (cs(i \<mapsto> (env, a, pc'))) j \<noteq> Some w" if w: "gu_writer d' = Some w" for j w
  proof (cases "j = i")
    case False
    then show ?thesis
      using assms(6)[OF w] gui_invD(4)[OF assms(1), of w j] gui_invD(3)[OF assms(1), of i w j] by auto
  qed (use assms(5) w in auto)
qed (rule assms(2))

section \<open>Preservation\<close>

lemma reader_step_frame:
  "dk_sent (reader_step k line d) = dk_sent d" "dk_next (reader_step k line d) = dk_next d"
  "gu_writer (reader_step k line d) = gu_writer d"
  "dk_readers (reader_step k line d) = dk_readers d \<or> dk_readers (reader_step k line d) = removeAll k (dk_readers d)"
  by (cases line; auto simp: relay_message_def reader_end_def Let_def)+

lemma gui_inv_reader:
  assumes "gui_inv cs d"
  shows "gui_inv cs (reader_step k line d)"
proof -
  have "distinct (dk_readers d)" using gui_invD(1)[OF assms] by (simp add: log_ok_def)
  then have "distinct (dk_readers (reader_step k line d))" "set (dk_readers (reader_step k line d)) \<subseteq> set (dk_readers d)"
    using reader_step_frame(4)[of k line d] by (auto simp: distinct_removeAll)
  then show ?thesis
    by (intro gui_inv_frame[OF assms]) (simp_all add: reader_step_frame)
qed

lemma owner_bound:
  assumes "gui_inv cs d" "call_owner cs i = Some w"
  shows "w < dk_next d"
proof -
  obtain env a pc where i: "cs i = Some (env, a, pc)" "owns pc = Some w"
    using assms(2) by (auto simp: call_owner_def split: option.splits)
  have "v \<in> used d \<Longrightarrow> v < dk_next d" for v using gui_invD(1)[OF assms(1)] by (auto simp: log_ok_def)
  then show ?thesis
    using gui_invD(2)[OF assms(1) i(1)] i(2) by (cases pc) (force+)
qed

lemma gui_inv_step_call:
  assumes inv: "gui_inv cs d" and i: "cs i = Some (env, a, pc)" and step: "connect_step env a (pc, d) = (pc', d')"
  shows "gui_inv (cs(i \<mapsto> (env, a, pc'))) d'"
proof -
  have owner: "call_owner cs i = owns pc" using i by (simp add: call_owner_def)
  have ok: "call_ok d a pc" using gui_invD(2)[OF inv i] .
  note log = gui_invD(1)[OF inv]
  have alone: "\<forall>j. j \<noteq> i \<longrightarrow> call_owner cs j \<noteq> Some w" if "owns pc = Some w" for w
    using gui_invD(3)[OF inv] that owner by metis
  have kept: "gu_writer d \<noteq> Some w" if "owns pc = Some w" for w
    using gui_invD(4)[OF inv] that owner by metis
  show ?thesis
  proof (cases pc)
    case Enter
    then have d': "pc' = Take" "d' = d\<lparr>gu_profile := Some (ca_profile a)\<rparr>" using step by simp_all
    show ?thesis
      by (rule gui_inv_call[OF inv]) (use log in \<open>simp_all add: d'\<close>)
  next
    case Take
    then have d': "pc' = (case gu_writer d of Some w \<Rightarrow> Reuse w | None \<Rightarrow> Spawn)" "d' = d\<lparr>gu_writer := None\<rparr>"
      using step by simp_all
    show ?thesis
    proof (cases "gu_writer d")
      case None
      show ?thesis by (rule gui_inv_call[OF inv]) (use log in \<open>simp_all add: d' None\<close>)
    next
      case (Some w)
      have "w \<in> used d" using log Some by (simp add: log_ok_def)
      then show ?thesis
        by (intro gui_inv_call[OF inv]) (use log gui_invD(4)[OF inv Some] in \<open>simp_all add: d' Some\<close>)
    qed
  next
    case (Restore w)
    then have d': "pc' = Done (Inr ())" "d' = d\<lparr>gu_writer := Some w\<rparr>" using step by simp_all
    have "w \<in> used d" using ok Restore by force
    then show ?thesis
      using log ok owner by (intro gui_inv_call[OF inv]) (auto simp: d' Restore)
  next
    case (Stale w)
    then have d': "pc' = Spawn" "d' = abort_reader d" using step by simp_all
    show ?thesis
      by (rule gui_inv_call[OF inv]) (use log in \<open>simp_all add: d'\<close>)
  next
    case (Store w)
    then have d': "pc' = Done (Inr ())" "d' = d\<lparr>gu_writer := Some w, gu_reader := Some w\<rparr>" using step by simp_all
    have "w \<in> used d" using ok Store by force
    then show ?thesis
      using log ok owner by (intro gui_inv_call[OF inv]) (auto simp: d' Store)
  next
    case (Done r)
    then have "pc' = pc" "d' = d" using step by simp_all
    then show ?thesis using inv i by (simp add: fun_upd_idem)
  next
    case Spawn
    show ?thesis
    proof (cases "pe_open env")
      case None
      then have d': "pc' = First (dk_next d)" "d' = d\<lparr>dk_next := dk_next d + 1\<rparr>" using step Spawn by simp_all
      have "call_owner cs j \<noteq> Some (dk_next d)" for j using owner_bound[OF inv, of j] by blast
      moreover have unused: "dk_next d \<notin> used d" using log unfolding log_ok_def by blast
      moreover have "gu_writer d \<noteq> Some (dk_next d)" using log unused unfolding log_ok_def by blast
      moreover have "log_ok d'" using log by (auto simp: log_ok_def d' less_SucI)
      moreover have "call_ok d' b q" if "call_ok d b q" for b q using call_ok_cong[OF _ _ that] by (simp add: d')
      ultimately show ?thesis by (intro gui_inv_call[OF inv]) (auto simp: d')
    next
      case (Some e)
      then have d': "pc' = Done (Inl e)" "d' = d" using step Spawn by simp_all
      show ?thesis by (rule gui_inv_call[OF inv]) (use log in \<open>auto simp: d'\<close>)
    qed
  next
    case (Reuse w)
    show ?thesis
    proof (cases "pe_reuse env")
      case None
      then have d': "pc' = Restore w" "d' = deliver w (request_of a) d" using step Reuse by (simp_all add: request_of_def)
      have "w \<in> used d" using ok Reuse by simp
      then have "log_ok d'" using log by (auto simp: log_ok_def d' deliver_def first_ok_append)
      then show ?thesis
        by (rule gui_inv_call[OF inv])
           (use alone kept owner Reuse in \<open>auto simp: d' deliver_def intro: call_ok_deliver\<close>)
    next
      case (Some e)
      then have d': "pc' = Stale w" "d' = d" using step Reuse by simp_all
      show ?thesis by (rule gui_inv_call[OF inv]) (use log ok Reuse alone kept in \<open>auto simp: d'\<close>)
    qed
  next
    case (First w)
    show ?thesis
    proof (cases "pe_first env")
      case None
      then have d': "pc' = Store w" "d' = (deliver w (request_of a) d)\<lparr>dk_readers := w # dk_readers d\<rparr>"
        using step First by (simp_all add: request_of_def)
      have "log_ok d'" using log ok First by (auto simp: log_ok_def d' deliver_def first_ok_append request_of_def)
      then show ?thesis
        by (rule gui_inv_call[OF inv])
           (use alone kept owner First in \<open>auto simp: d' deliver_def intro: call_ok_deliver\<close>)
    next
      case (Some e)
      then have d': "pc' = Done (Inl e)" "d' = d" using step First by simp_all
      show ?thesis by (rule gui_inv_call[OF inv]) (use log in \<open>auto simp: d'\<close>)
    qed
  qed
qed

lemma gui_inv_step:
  assumes "gui_inv cs d" "gui_step (cs, d) (cs', d')"
  shows "gui_inv cs' d'"
  using assms(2)
proof cases
  case (called i env a)
  have "call_owner cs i = None" using called by (simp add: call_owner_def)
  then show ?thesis unfolding called(1,2)
    by (intro gui_inv_call[OF assms(1)]) (use gui_invD(1)[OF assms(1)] in simp_all)
next
  case (stepped i env a pc pc')
  then show ?thesis using gui_inv_step_call[OF assms(1)] by blast
next
  case (disconnected err)
  then show ?thesis
    using gui_inv_deliver_writer[OF assms(1)] gui_inv_frame[OF assms(1)] gui_invD(1)[OF assms(1)] assms(1)
    by (simp add: vpn_disconnect_def log_ok_def split: option.splits)
next
  case (tray_disconnected err)
  then show ?thesis using gui_inv_deliver_writer[OF assms(1)] assms(1)
    by (simp add: tray_disconnect_def split: option.splits)
next
  case (quit err)
  have exit: "gui_inv cs (e\<lparr>gu_writer := None, dk_exited := True\<rparr>)" if "gui_inv cs e" for e
    using gui_invD(1)[OF that] by (intro gui_inv_frame[OF that]) (simp_all add: log_ok_def)
  show ?thesis
    using quit exit[OF assms(1)] exit[OF gui_inv_deliver_writer[OF assms(1)]]
    by (simp add: tray_quit_def split: option.splits)
next
  case window
  then show ?thesis using gui_inv_frame[OF assms(1), of d'] gui_invD(1)[OF assms(1)]
    by (simp add: tray_show_def log_ok_def)
next
  case closed
  then show ?thesis using gui_inv_frame[OF assms(1), of d'] gui_invD(1)[OF assms(1)]
    by (simp add: close_requested_def log_ok_def)
next
  case (relayed k line)
  then show ?thesis using gui_inv_reader[OF assms(1)] by simp
qed

interpretation backend: invariant_of gui_step "(Map.empty, desktop_init)" "\<lambda>x. gui_inv (fst x) (snd x)"
proof unfold_locales
  show "gui_inv (fst (Map.empty, desktop_init)) (snd (Map.empty, desktop_init))"
    by (simp add: gui_inv_def log_ok_def call_owner_def desktop_init_def gui_default_def gui.defs desktop.defs)
  fix x y assume "gui_step x y" "gui_inv (fst x) (snd x)"
  then show "gui_inv (fst y) (snd y)" using gui_inv_step[of "fst x" "snd x" "fst y" "snd y"] by simp
qed

text \<open>
  C10: however connects, disconnects, tray actions and readers interleave, on every
  connection to a helper the first command is a Connect, and a write half that is
  kept has been used; a connect that reported success had its own command
  delivered; a write half is in one place only, kept or in the hands of one call;
  and at most one reader relays a connection, so that no line is shown twice.
\<close>

theorem gui_interleaving:
  assumes "gui_reachable (cs, d)"
  shows "(\<forall>w. first_ok (dk_sent d) w)
    \<and> (\<forall>w. gu_writer d = Some w \<longrightarrow> w \<in> used d \<and> (\<forall>i. call_owner cs i \<noteq> Some w))
    \<and> (\<forall>i env a. cs i = Some (env, a, Done (Inr ())) \<longrightarrow>
         (\<exists>w. (w, Cmd_Connect (ca_config a) (ca_password a)) \<in> set (dk_sent d)))
    \<and> (\<forall>i j w. call_owner cs i = Some w \<and> call_owner cs j = Some w \<longrightarrow> i = j)
    \<and> distinct (dk_readers d)"
proof -
  have inv: "gui_inv cs d" using backend.always[OF assms] by simp
  note log = gui_invD(1)[OF inv, unfolded log_ok_def]
  have delivered: "\<exists>w. (w, Cmd_Connect (ca_config a) (ca_password a)) \<in> set (dk_sent d)"
    if "cs i = Some (env, a, Done (Inr ()))" for i env a
    using gui_invD(2)[OF inv that] by (simp add: request_of_def)
  have single: "i = j" if "call_owner cs i = Some w \<and> call_owner cs j = Some w" for i j w
    using gui_invD(3)[OF inv conjunct1[OF that] conjunct2[OF that]] .
  have kept: "w \<in> used d \<and> (\<forall>i. call_owner cs i \<noteq> Some w)" if "gu_writer d = Some w" for w
    using log gui_invD(4)[OF inv that] that by blast
  show ?thesis
  proof (intro conjI)
    show "\<forall>w. first_ok (dk_sent d) w" "distinct (dk_readers d)" using log by blast+
    show "\<forall>w. gu_writer d = Some w \<longrightarrow> w \<in> used d \<and> (\<forall>i. call_owner cs i \<noteq> Some w)"
      by (intro allI impI) (rule kept)
    show "\<forall>i env a. cs i = Some (env, a, Done (Inr ())) \<longrightarrow>
        (\<exists>w. (w, Cmd_Connect (ca_config a) (ca_password a)) \<in> set (dk_sent d))"
      by (intro allI impI) (rule delivered)
    show "\<forall>i j w. call_owner cs i = Some w \<and> call_owner cs j = Some w \<longrightarrow> i = j"
      by (intro allI impI) (rule single)
  qed
qed

section \<open>An interleaving\<close>

text \<open>A connect from the initial state, then a disconnect.\<close>

definition example_request :: "string \<Rightarrow> connect_args" where
  "example_request h = \<lparr>ca_config = example_wire\<lparr>wc_host := h\<rparr>, ca_password = ''pw'', ca_profile = h\<rparr>"

definition example_pipe :: pipe_env where
  "example_pipe = \<lparr>pe_reuse = None, pe_open = None, pe_first = None\<rparr>"

lemma gui_reachable_call:
  "gui_reachable (cs, d) \<Longrightarrow> cs i = Some (env, a, pc) \<Longrightarrow> (connect_step env a ^^ n) (pc, d) = (pc', d')
    \<Longrightarrow> gui_reachable (cs(i \<mapsto> (env, a, pc')), d')"
proof (induction n arbitrary: pc' d')
  case 0
  then show ?case by (simp add: fun_upd_idem)
next
  case (Suc n)
  obtain pc1 d1 where prev: "(connect_step env a ^^ n) (pc, d) = (pc1, d1)" by fastforce
  have "gui_step (cs(i \<mapsto> (env, a, pc1)), d1) ((cs(i \<mapsto> (env, a, pc1)))(i \<mapsto> (env, a, pc')), d')"
    by (rule gui_step.stepped) (use Suc.prems prev in simp_all)
  then have "gui_step (cs(i \<mapsto> (env, a, pc1)), d1) (cs(i \<mapsto> (env, a, pc')), d')"
    by (simp only: fun_upd_upd)
  then show ?case by (rule reach_step[OF Suc.IH[OF Suc.prems(1,2) prev]])
qed

lemma gui_interleaving_witness:
  "\<exists>cs d. gui_reachable (cs, d) \<and> map fst (dk_sent d) = [0, 0] \<and> dk_readers d = [0]
     \<and> cs 0 = Some (example_pipe, example_request ''h'', Done (Inr ()))
     \<and> (\<exists>w. (w, Cmd_Connect (ca_config (example_request ''h'')) (ca_password (example_request ''h''))) \<in> set (dk_sent d))"
proof -
  let ?a = "example_request ''h''"
  let ?start = "[0 \<mapsto> (example_pipe, ?a, Enter)]"
  obtain d1 where run: "(connect_step example_pipe ?a ^^ 5) (Enter, desktop_init) = (Done (Inr ()), d1)"
    and d1: "gu_writer d1 = Some 0" "map fst (dk_sent d1) = [0]" "dk_readers d1 = [0]"
    by (simp add: eval_nat_numeral example_pipe_def desktop_init_def gui_default_def gui.defs desktop.defs deliver_def)
  have "gui_step (Map.empty, desktop_init) (?start, desktop_init)" by (rule called) simp
  then have "gui_reachable (?start, desktop_init)" by (rule reach_step[OF reach_start])
  then have called: "gui_reachable (?start(0 \<mapsto> (example_pipe, ?a, Done (Inr ()))), d1)"
    by (rule gui_reachable_call[OF _ _ run]) simp
  define d2 where "d2 = snd (vpn_disconnect None d1)"
  define cs :: calls where "cs = ?start(0 \<mapsto> (example_pipe, ?a, Done (Inr ())))"
  have reach: "gui_reachable (cs, d2)"
    unfolding d2_def cs_def by (rule reach_step[OF called]) (rule disconnected)
  have cs: "cs 0 = Some (example_pipe, ?a, Done (Inr ()))" by (simp add: cs_def)
  have "map fst (dk_sent d2) = [0, 0] \<and> dk_readers d2 = [0]"
    using d1 by (simp add: d2_def vpn_disconnect_def deliver_def)
  moreover have "\<exists>w. (w, Cmd_Connect (ca_config ?a) (ca_password ?a)) \<in> set (dk_sent d2)"
    using gui_interleaving[OF reach] cs by blast
  ultimately show ?thesis using reach cs by (intro exI[of _ cs] exI[of _ d2]) blast
qed

end
