(* ===== verification/Pipe_Lines.thy ===== *)
theory Pipe_Lines
  imports Gui Helper
begin

text \<open>
  The text between the desktop backend and the helper: every command and every
  message is one line of JSON (\<open>src-tauri/src/pipe.rs\<close>, \<open>send_command\<close> and \<open>split\<close>;
  \<open>vpn-helper/src/main.rs\<close>, \<open>send\<close> and the reading loop of \<open>serve\<close>).  The
  serialiser and the parser are \<open>serde_json\<close>'s, and parameters.  The pipe takes
  what it is given until it breaks; a socket has nothing to flush.
\<close>

section \<open>Writing\<close>

text \<open>What the pipe has taken, how many bytes it takes before it breaks, and the error it then gives.\<close>

record pipe_writer =
  pw_sent :: string
  pw_room :: "nat option"
  pw_error :: string

definition write_all :: "string \<Rightarrow> pipe_writer \<Rightarrow> (string + unit) \<times> pipe_writer" where
  "write_all s w =
     (case pw_room w of
        None \<Rightarrow> (Inr (), w\<lparr>pw_sent := pw_sent w @ s\<rparr>)
      | Some n \<Rightarrow>
          if length s \<le> n then (Inr (), w\<lparr>pw_sent := pw_sent w @ s, pw_room := Some (n - length s)\<rparr>)
          else (Inl (pw_error w), w\<lparr>pw_sent := pw_sent w @ take n s, pw_room := Some 0\<rparr>))"

definition send_command :: "('c \<Rightarrow> string + string) \<Rightarrow> 'c \<Rightarrow> pipe_writer \<Rightarrow> (string + unit) \<times> pipe_writer" where
  "send_command to_json cmd w =
     (case to_json cmd of
        Inl e \<Rightarrow> (Inl e, w)
      | Inr line \<Rightarrow> write_all (line @ [LF]) w)"

text \<open>The helper sends its messages in the same way, and ignores what comes of it.\<close>

definition send_message :: "('m \<Rightarrow> string + string) \<Rightarrow> 'm \<Rightarrow> pipe_writer \<Rightarrow> pipe_writer" where
  "send_message to_json msg w =
     (case to_json msg of
        Inl e \<Rightarrow> w
      | Inr line \<Rightarrow> snd (write_all (line @ [LF]) w))"

fun send_commands :: "('c \<Rightarrow> string + string) \<Rightarrow> 'c list \<Rightarrow> pipe_writer \<Rightarrow> (string + unit) list \<times> pipe_writer" where
  "send_commands to_json [] w = ([], w)"
| "send_commands to_json (c # cs) w =
     (let (r, w1) = send_command to_json c w; (rs, w2) = send_commands to_json cs w1 in (r # rs, w2))"

section \<open>Reading\<close>

text \<open>A line that is not UTF-8 is an error of the reader.\<close>

datatype 'c line_read = Parsed 'c | Unparsed | Invalid

definition read_line :: "(string \<Rightarrow> 'c option) \<Rightarrow> string \<Rightarrow> 'c line_read" where
  "read_line from_json s =
     (if \<not> utf8_valid (bytes_of_str s) then Invalid
      else case from_json s of Some c \<Rightarrow> Parsed c | None \<Rightarrow> Unparsed)"

fun input_of :: "client_command line_read \<Rightarrow> helper_input" where
  "input_of (Parsed c) = Command c"
| "input_of Unparsed = Bad_Line"
| "input_of Invalid = Read_Error"

definition helper_inputs :: "(string \<Rightarrow> client_command option) \<Rightarrow> string \<Rightarrow> helper_input list" where
  "helper_inputs from_json s = map (\<lambda>l. input_of (read_line from_json l)) (lines s) @ [End_Of_Input]"

text \<open>The backend leaves its loop at an error of the reader as at the end.\<close>

fun pipe_line_of :: "client_message line_read \<Rightarrow> pipe_line" where
  "pipe_line_of (Parsed m) = Line m"
| "pipe_line_of Unparsed = Unread"
| "pipe_line_of Invalid = Pipe_End"

definition pipe_lines :: "(string \<Rightarrow> client_message option) \<Rightarrow> string \<Rightarrow> pipe_line list" where
  "pipe_lines from_json s = map (\<lambda>l. pipe_line_of (read_line from_json l)) (lines s) @ [Pipe_End]"

section \<open>What is sent is what is read\<close>

text \<open>
  What \<open>serde_json\<close> documents of a value it has written without extra space: the text
  is one line of UTF-8 that is read back as the value, and no part of it from the
  start is a value, for it is an object or a quoted string.
\<close>

definition json_text :: "('c \<Rightarrow> string + string) \<Rightarrow> (string \<Rightarrow> 'c option) \<Rightarrow> 'c \<Rightarrow> bool" where
  "json_text to_json from_json c =
     (case to_json c of
        Inl e \<Rightarrow> False
      | Inr t \<Rightarrow> t \<noteq> [] \<and> LF \<notin> set t \<and> last t \<noteq> CR \<and> utf8_valid (bytes_of_str t) \<and> from_json t = Some c
          \<and> list_all (\<lambda>n. from_json (take n t) = None) [0..<length t])"

abbreviation text_of :: "('c \<Rightarrow> string + string) \<Rightarrow> 'c \<Rightarrow> string" where
  "text_of to_json c \<equiv> projr (to_json c)"

lemma json_textD:
  assumes "json_text to_json from_json c"
  shows "to_json c = Inr (text_of to_json c)" "text_of to_json c \<noteq> []" "LF \<notin> set (text_of to_json c)"
    "chomp_cr (text_of to_json c) = text_of to_json c"
    "read_line from_json (text_of to_json c) = Parsed c"
    "n < length (text_of to_json c) \<Longrightarrow> read_line from_json (take n (text_of to_json c)) \<in> {Unparsed, Invalid}"
  using assms
  by (auto simp: json_text_def chomp_cr_def read_line_def list_all_iff split: sum.splits)

lemma lines_line: "LF \<notin> set t \<Longrightarrow> chomp_cr t = t \<Longrightarrow> lines (t @ LF # s) = t # lines s"
  by (simp add: lines_def split_on_append Let_def)

lemma lines_rest: "LF \<notin> set p \<Longrightarrow> lines p = (if p = [] then [] else [p])"
  by (simp add: lines_def split_on_no_sep)

lemma broken_pipe: "pw_room w = Some 0 \<Longrightarrow> \<forall>c \<in> set cs. json_text to_json from_json c \<Longrightarrow>
    send_commands to_json cs w = (replicate (length cs) (Inl (pw_error w)), w)"
proof (induction cs)
  case (Cons c cs)
  then obtain t where "to_json c = Inr t" using json_textD(1) by fastforce
  then have "send_command to_json c w = (Inl (pw_error w), w)"
    using Cons.prems(1) by (simp add: send_command_def write_all_def)
  then show ?case using Cons by (simp add: Let_def)
qed simp

text \<open>The general form, for commands and for messages: the first \<open>m\<close> went through, and a part of the next.\<close>

lemma lines_arrive:
  assumes "\<forall>c \<in> set cs. json_text to_json from_json c"
  shows "\<exists>m s rest. m \<le> length cs
    \<and> fst (send_commands to_json cs w) = replicate m (Inr ()) @ replicate (length cs - m) (Inl (pw_error w))
    \<and> pw_sent (snd (send_commands to_json cs w)) = pw_sent w @ s
    \<and> map (read_line from_json) (lines s) = map Parsed (take m cs) @ rest
    \<and> (rest = [] \<or> m < length cs \<and> rest \<in> {[Parsed (cs ! m)], [Unparsed], [Invalid]})
    \<and> (pw_room w = None \<longrightarrow> m = length cs)"
  using assms
proof (induction cs arbitrary: w)
  case Nil
  show ?case by (intro exI[of _ 0] exI[of _ "[]"]) (simp add: lines_def)
next
  case (Cons c cs)
  let ?t = "text_of to_json c"
  have c: "json_text to_json from_json c" using Cons.prems by simp
  have tail: "\<forall>c \<in> set cs. json_text to_json from_json c" using Cons.prems by simp
  note json = json_textD[OF c]
  obtain t where t: "to_json c = Inr t" using json(1) by blast
  then have send: "send_command to_json c w = write_all (?t @ [LF]) w" by (simp add: send_command_def)
  show ?case
  proof (cases "\<exists>n. pw_room w = Some n \<and> n \<le> length ?t")
    case False
    define w1 where "w1 = snd (write_all (?t @ [LF]) w)"
    have w1: "write_all (?t @ [LF]) w = (Inr (), w1)" "pw_sent w1 = pw_sent w @ ?t @ [LF]"
      "pw_error w1 = pw_error w" "pw_room w = None \<longrightarrow> pw_room w1 = None"
      using False by (auto simp: w1_def write_all_def split: option.splits)
    obtain m s rest where ih: "m \<le> length cs"
      "fst (send_commands to_json cs w1) = replicate m (Inr ()) @ replicate (length cs - m) (Inl (pw_error w1))"
      "pw_sent (snd (send_commands to_json cs w1)) = pw_sent w1 @ s"
      "map (read_line from_json) (lines s) = map Parsed (take m cs) @ rest"
      "rest = [] \<or> m < length cs \<and> rest \<in> {[Parsed (cs ! m)], [Unparsed], [Invalid]}"
      "pw_room w1 = None \<longrightarrow> m = length cs"
      using Cons.IH[OF tail, of w1] that by (elim exE conjE) simp
    have "lines (?t @ LF # s) = ?t # lines s" by (rule lines_line) (use json in simp_all)
    then show ?thesis
      using ih w1 send json(5)
      by (intro exI[of _ "Suc m"] exI[of _ "?t @ LF # s"] exI[of _ rest]) (auto simp: Let_def split: prod.splits)
  next
    case True
    then obtain n where n: "pw_room w = Some n" "n \<le> length ?t" by blast
    let ?w1 = "w\<lparr>pw_sent := pw_sent w @ take n ?t, pw_room := Some 0\<rparr>"
    have "write_all (?t @ [LF]) w = (Inl (pw_error w), ?w1)" using n by (simp add: write_all_def)
    moreover have "send_commands to_json cs ?w1 = (replicate (length cs) (Inl (pw_error w)), ?w1)"
      using broken_pipe[of ?w1 cs to_json from_json] Cons.prems by simp
    moreover have "LF \<notin> set (take n ?t)" using json(3) in_set_takeD by metis
    moreover have "map (read_line from_json) (if take n ?t = [] then [] else [take n ?t]) \<in> {[], [Parsed c], [Unparsed], [Invalid]}"
      using json(5) json(6)[of n] n(2) by (cases "n = length ?t") auto
    ultimately show ?thesis
      using send n(1) by (intro exI[of _ 0] exI[of _ "take n ?t"]) (simp add: lines_rest)
  qed
qed

lemma fold_send_message: "fold (send_message to_json) ms w = snd (send_commands to_json ms w)"
proof (induction ms arbitrary: w)
  case (Cons m ms)
  have "send_message to_json m w = snd (send_command to_json m w)"
    by (cases "to_json m") (simp_all add: send_message_def send_command_def)
  then show ?case using Cons by (simp add: Let_def split: prod.splits)
qed simp

lemma commands_arrive:
  assumes "\<forall>c \<in> set cs. json_text to_json from_json c" "pw_sent w = []"
  shows "\<exists>k rest. fst (send_commands to_json cs w) = replicate k (Inr ()) @ replicate (length cs - k) (Inl (pw_error w))
      \<and> k \<le> length cs \<and> (pw_room w = None \<longrightarrow> k = length cs)
      \<and> helper_inputs from_json (pw_sent (snd (send_commands to_json cs w)))
          = map Command (take k cs) @ rest @ [End_Of_Input]
      \<and> rest \<in> {[], [Bad_Line], [Read_Error]} \<union> (if k < length cs then {[Command (cs ! k)]} else {})"
proof -
  obtain k s rest where k: "k \<le> length cs"
    "fst (send_commands to_json cs w) = replicate k (Inr ()) @ replicate (length cs - k) (Inl (pw_error w))"
    "pw_sent (snd (send_commands to_json cs w)) = pw_sent w @ s"
    "map (read_line from_json) (lines s) = map Parsed (take k cs) @ rest"
    "rest = [] \<or> k < length cs \<and> rest \<in> {[Parsed (cs ! k)], [Unparsed], [Invalid]}" "pw_room w = None \<longrightarrow> k = length cs"
    using lines_arrive[OF assms(1)] by metis
  have "helper_inputs from_json s = map Command (take k cs) @ map input_of rest @ [End_Of_Input]"
    using arg_cong[OF k(4), of "map input_of"] by (simp add: helper_inputs_def comp_def)
  then show ?thesis using k assms(2) by (intro exI[of _ k] exI[of _ "map input_of rest"]) auto
qed

lemma messages_arrive:
  assumes "\<forall>m \<in> set msgs. json_text to_json from_json m" "pw_sent w = []"
  shows "\<exists>k rest. k \<le> length msgs \<and> (pw_room w = None \<longrightarrow> k = length msgs)
      \<and> pipe_lines from_json (pw_sent (fold (send_message to_json) msgs w)) = map Line (take k msgs) @ rest @ [Pipe_End]
      \<and> rest \<in> {[], [Unread], [Pipe_End]} \<union> (if k < length msgs then {[Line (msgs ! k)]} else {})"
proof -
  obtain k s rest where k: "k \<le> length msgs"
    "pw_sent (snd (send_commands to_json msgs w)) = pw_sent w @ s"
    "map (read_line from_json) (lines s) = map Parsed (take k msgs) @ rest"
    "rest = [] \<or> k < length msgs \<and> rest \<in> {[Parsed (msgs ! k)], [Unparsed], [Invalid]}" "pw_room w = None \<longrightarrow> k = length msgs"
    using lines_arrive[OF assms(1)] by metis
  have "pipe_lines from_json s = map Line (take k msgs) @ map pipe_line_of rest @ [Pipe_End]"
    using arg_cong[OF k(3), of "map pipe_line_of"] by (simp add: pipe_lines_def comp_def)
  then show ?thesis
    using k assms(2) by (intro exI[of _ k] exI[of _ "map pipe_line_of rest"]) (auto simp: fold_send_message)
qed

text \<open>
  C32: the pipe carries commands and messages faithfully, also when it breaks.  The
  commands whose sending succeeded are exactly the first ones the helper reads, in
  order and unchanged, whatever their text; every command after the first failure
  fails too.  Of the command during which the pipe broke the helper reads
  everything or nothing: all of it, a line that is no command, or an error, and then
  the end of its input, never another command.  The messages of the helper reach
  the backend in the same way.
\<close>

theorem pipe_faithful:
  assumes "\<forall>c \<in> set cs. json_text to_json from_json c" "\<forall>m \<in> set msgs. json_text msg_to_json msg_from_json m"
    "pw_sent w = []"
  shows "(\<exists>k rest. fst (send_commands to_json cs w) = replicate k (Inr ()) @ replicate (length cs - k) (Inl (pw_error w))
      \<and> k \<le> length cs \<and> (pw_room w = None \<longrightarrow> k = length cs)
      \<and> helper_inputs from_json (pw_sent (snd (send_commands to_json cs w)))
          = map Command (take k cs) @ rest @ [End_Of_Input]
      \<and> rest \<in> {[], [Bad_Line], [Read_Error]} \<union> (if k < length cs then {[Command (cs ! k)]} else {}))
    \<and> (\<exists>k rest. k \<le> length msgs \<and> (pw_room w = None \<longrightarrow> k = length msgs)
      \<and> pipe_lines msg_from_json (pw_sent (fold (send_message msg_to_json) msgs w))
          = map Line (take k msgs) @ rest @ [Pipe_End]
      \<and> rest \<in> {[], [Unread], [Pipe_End]} \<union> (if k < length msgs then {[Line (msgs ! k)]} else {}))"
  using commands_arrive[OF assms(1,3)] messages_arrive[OF assms(2,3)] by (rule conjI)

text \<open>The pipe breaks two bytes before the end of the second command.\<close>

definition example_to_json :: "client_command \<Rightarrow> string + string" where
  "example_to_json c =
     (case c of
        Cmd_Connect w pw \<Rightarrow> Inl ''not in the example''
      | Cmd_Disconnect \<Rightarrow> Inr ([CHR 0x22] @ ''Disconnect'' @ [CHR 0x22])
      | Cmd_Shutdown \<Rightarrow> Inr ([CHR 0x22] @ ''Shutdown'' @ [CHR 0x22]))"

definition example_from_json :: "string \<Rightarrow> client_command option" where
  "example_from_json s =
     (if s = [CHR 0x22] @ ''Disconnect'' @ [CHR 0x22] then Some Cmd_Disconnect
      else if s = [CHR 0x22] @ ''Shutdown'' @ [CHR 0x22] then Some Cmd_Shutdown else None)"

definition example_pipe :: pipe_writer where
  "example_pipe = \<lparr>pw_sent = [], pw_room = Some 22, pw_error = ''broken pipe''\<rparr>"

lemma example_json: "json_text example_to_json example_from_json Cmd_Disconnect"
  "json_text example_to_json example_from_json Cmd_Shutdown"
  by code_simp+

theorem pipe_faithful_witness:
  "fst (send_commands example_to_json [Cmd_Disconnect, Cmd_Shutdown] example_pipe) = [Inr (), Inl ''broken pipe'']
   \<and> (\<exists>rest. helper_inputs example_from_json (pw_sent (snd (send_commands example_to_json [Cmd_Disconnect, Cmd_Shutdown] example_pipe)))
      = [Command Cmd_Disconnect] @ rest @ [End_Of_Input]
      \<and> rest \<in> {[], [Bad_Line], [Read_Error], [Command Cmd_Shutdown]})"
proof -
  have sent: "fst (send_commands example_to_json [Cmd_Disconnect, Cmd_Shutdown] example_pipe) = [Inr (), Inl ''broken pipe'']"
    by code_simp
  have json: "\<forall>c \<in> set [Cmd_Disconnect, Cmd_Shutdown]. json_text example_to_json example_from_json c"
    using example_json by simp
  obtain k rest where k: "[Inr (), Inl ''broken pipe''] = replicate k (Inr ()) @ replicate (2 - k) (Inl ''broken pipe'')" "k \<le> 2"
    and read: "helper_inputs example_from_json (pw_sent (snd (send_commands example_to_json [Cmd_Disconnect, Cmd_Shutdown] example_pipe)))
      = map Command (take k [Cmd_Disconnect, Cmd_Shutdown]) @ rest @ [End_Of_Input]"
    and rest: "rest \<in> {[], [Bad_Line], [Read_Error]}
      \<union> (if k < 2 then {[Command ([Cmd_Disconnect, Cmd_Shutdown] ! k)]} else {})"
    using pipe_faithful[OF json, of "[]" "\<lambda>_. Inl []" "\<lambda>_. None" example_pipe] sent
    by (auto simp: example_pipe_def numeral_2_eq_2)
  have "k = 1" using k by (cases k rule: nat.exhaust; cases "k = 2") (auto simp: numeral_2_eq_2)
  then show ?thesis using sent read rest by auto
qed

end
