(* ===== verification/Gui_Correct.thy ===== *)
theory Gui_Correct
  imports Gui
begin

text \<open>
  The desktop backend: what an uninterrupted \<open>vpn_connect\<close> does, what holds under
  every interleaving of commands and readers, and how the status it shows relates
  to the engine and to the helper.
\<close>

section \<open>Connecting\<close>

lemmas gui_ops = deliver_def abort_reader_def vpn_disconnect_def tray_disconnect_def tray_quit_def
  tray_show_def close_requested_def reader_end_def relay_message_def

lemma vpn_connect_unfold: "vpn_connect env a d = connect_step env a (connect_step env a (connect_step env a
    (connect_step env a (connect_step env a (connect_step env a (connect_step env a (Enter, d)))))))"
  by (simp add: vpn_connect_def eval_nat_numeral)

text \<open>
  An uninterrupted \<open>vpn_connect\<close> returns, and reuses the helper.  If it succeeds,
  exactly one command was delivered, its own Connect, and the connection it went to
  is kept for the next command: the one in hand if writing to it works, so that no
  helper is started and no reader replaced, and otherwise a new one with a reader of
  its own, the reader of the dead one being stopped.  If it fails, no command was
  delivered, and no connection is kept.
\<close>

theorem vpn_connect_outcome:
  shows "case vpn_connect env a d of
     (Done (Inr _), d') \<Rightarrow>
       (\<exists>w. gu_writer d' = Some w \<and> dk_sent d' = dk_sent d @ [(w, Cmd_Connect (ca_config a) (ca_password a))]
          \<and> (if gu_writer d \<noteq> None \<and> pe_reuse env = None
             then gu_writer d = Some w \<and> dk_next d' = dk_next d \<and> dk_readers d' = dk_readers d
             else w = dk_next d \<and> w \<in> set (dk_readers d')
               \<and> (\<forall>r. gu_writer d \<noteq> None \<and> gu_reader d = Some r \<and> r \<noteq> w \<longrightarrow> r \<notin> set (dk_readers d'))))
   | (Done (Inl e), d') \<Rightarrow> gu_writer d' = None \<and> dk_sent d' = dk_sent d
       \<and> (pe_open env = Some e \<or> pe_first env = Some e)
   | _ \<Rightarrow> False"
  by (cases "gu_writer d"; cases "pe_reuse env"; cases "pe_open env"; cases "pe_first env")
     (simp_all add: vpn_connect_unfold gui_ops split: option.splits)

section \<open>A disconnect during a connect\<close>

lemma connect_no_writer:
  "2 \<le> n \<Longrightarrow> (connect_step env a ^^ n) (Enter, d) = (pc, d') \<Longrightarrow>
   gu_writer d' = None \<and> pc \<noteq> Enter \<and> pc \<noteq> Take \<or> (\<exists>r. pc = Done r)"
proof (induction n arbitrary: pc d' rule: dec_induct)
  case base
  then show ?case by (auto simp: eval_nat_numeral split: option.splits)
next
  case (step n)
  obtain pc1 d1 where prev: "(connect_step env a ^^ n) (Enter, d) = (pc1, d1)" by fastforce
  have "connect_step env a (pc1, d1) = (pc, d')" using step.prems prev by simp
  then show ?case using step.IH[OF prev]
    by (cases pc1) (auto simp: gui_ops split: option.splits)
qed

text \<open>
  C34: a disconnect during a connect is lost.  From the moment \<open>vpn_connect\<close> has taken
  the writer until it returns, \<open>vpn_disconnect\<close> finds none: it reports success,
  nothing is sent, and the connect goes on to the same end as if the user had not
  asked to disconnect.
\<close>

theorem disconnect_lost:
  assumes "2 \<le> n" "n \<le> 7" "(connect_step env a ^^ n) (Enter, d) = (pc, d1)" "\<And>r. pc \<noteq> Done r"
  shows "case vpn_disconnect err d1 of (r, d2) \<Rightarrow>
    r = Inr () \<and> dk_sent d2 = dk_sent d1
    \<and> (connect_step env a ^^ (7 - n)) (pc, d2) = vpn_connect env a d"
proof -
  have "gu_writer d1 = None" using connect_no_writer[OF assms(1,3)] assms(4) by blast
  moreover have "(connect_step env a ^^ (7 - n)) (pc, d1) = (connect_step env a ^^ ((7 - n) + n)) (Enter, d)"
    using assms(3) by (simp add: funpow_add)
  ultimately show ?thesis using assms(2) by (simp add: vpn_disconnect_def vpn_connect_def)
qed

definition example_call :: connect_args where
  "example_call = \<lparr>ca_config = example_wire, ca_password = ''pw'', ca_profile = ''work''\<rparr>"

definition smooth :: pipe_env where
  "smooth = \<lparr>pe_reuse = None, pe_open = None, pe_first = None\<rparr>"

lemma disconnect_lost_witness:
  "case vpn_disconnect None (snd ((connect_step smooth example_call ^^ 3) (Enter, desktop_init))) of (r, d2) \<Rightarrow>
    r = Inr () \<and> dk_sent (snd ((connect_step smooth example_call ^^ 4) (First 0, d2)))
      = [(0, Cmd_Connect example_wire ''pw'')]"
proof -
  obtain d1 where run: "(connect_step smooth example_call ^^ 3) (Enter, desktop_init) = (First 0, d1)"
    by (simp add: eval_nat_numeral smooth_def desktop_init_def gui_default_def gui.defs desktop.defs)
  have "dk_sent (snd (vpn_connect smooth example_call desktop_init)) = [(0, Cmd_Connect example_wire ''pw'')]"
    by (simp add: vpn_connect_unfold smooth_def desktop_init_def gui_default_def gui.defs desktop.defs deliver_def
        example_call_def)
  then show ?thesis
    using disconnect_lost[OF _ _ run, of None] run by (auto split: prod.splits)
qed

text \<open>A call that finds the helper gone and starts another.\<close>

lemma vpn_connect_outcome_witness:
  "case vpn_connect (smooth\<lparr>pe_reuse := Some ''broken pipe''\<rparr>) example_call
      (desktop_init\<lparr>gu_writer := Some 0, gu_reader := Some 0, dk_readers := [0], dk_next := 1\<rparr>) of
     (pc, d') \<Rightarrow> pc = Done (Inr ()) \<and> gu_writer d' = Some 1 \<and> 1 \<in> set (dk_readers d') \<and> 0 \<notin> set (dk_readers d')"
proof -
  let ?env = "smooth\<lparr>pe_reuse := Some ''broken pipe''\<rparr>"
  let ?d = "desktop_init\<lparr>gu_writer := Some 0, gu_reader := Some 0, dk_readers := [0], dk_next := 1\<rparr>"
  obtain d' where run: "vpn_connect ?env example_call ?d = (Done (Inr ()), d')"
    by (simp add: vpn_connect_unfold smooth_def desktop_init_def gui_default_def gui.defs desktop.defs)
  have fields: "dk_next ?d = 1" "gu_reader ?d = Some 0" "gu_writer ?d = Some 0"
    by simp_all
  show ?thesis
    using vpn_connect_outcome[where env = ?env and a = example_call and d = ?d] run fields by (simp add: smooth_def)
qed

section \<open>The status and the engine\<close>

text \<open>What the window shows in each state of the client.\<close>

fun displays :: "client_state \<Rightarrow> wire_state \<Rightarrow> bool" where
  "displays client_state.Idle st = True"
| "displays Trying st = (st = Ws_Connecting)"
| "displays Up st = (st = Ws_Established)"
| "displays Waiting st = (\<exists>delay. st = Ws_Reconnecting delay)"
| "displays Finished st = (st = Ws_Disconnected)"

abbreviation relay_events :: "nat \<Rightarrow> client_event list \<Rightarrow> desktop \<Rightarrow> desktop" where
  "relay_events k evs d \<equiv> fold (\<lambda>ev. reader_step k (Line (map_event ev))) evs d"

lemma relay_event_shows:
  "client_step q ev = Some q' \<Longrightarrow> displays q' (gu_status (reader_step k (Line (map_event ev)) d))"
  by (cases "(q, ev)" rule: client_step.cases) (auto simp: relay_message_def Let_def)

lemma relay_event_fields:
  "gu_profile (reader_step k (Line (map_event ev)) d) = gu_profile d
   \<and> dk_notified (reader_step k (Line (map_event ev)) d) = dk_notified d
      @ (if ev = Ev_Established then [''Connected to '' @ unwrap_or [] (gu_profile d)] else [])
   \<and> dk_readers (reader_step k (Line (map_event ev)) d) = dk_readers d"
  by (cases ev) (simp_all add: relay_message_def Let_def)

lemma relay_events_shows:
  "client_steps q evs = Some q' \<Longrightarrow> displays q (gu_status d) \<Longrightarrow> displays q' (gu_status (relay_events k evs d))"
proof (induction evs arbitrary: q d)
  case (Cons ev evs)
  then obtain q1 where "client_step q ev = Some q1" "client_steps q1 evs = Some q'" by (auto split: option.splits)
  then show ?case using Cons.IH relay_event_shows by simp
qed simp

lemma relay_events_notified:
  "dk_notified (relay_events k evs d) = dk_notified d
     @ replicate (length (filter (\<lambda>ev. ev = Ev_Established) evs)) (''Connected to '' @ unwrap_or [] (gu_profile d))"
proof (induction evs arbitrary: d)
  case (Cons ev evs)
  then show ?case using relay_event_fields[of k ev d] by simp
qed simp

lemma protocol_ok_story:
  "protocol_ok q c rc \<Longrightarrow> \<exists>evs. sys_events (snd rc) = sys_events c @ evs \<and> client_steps q evs \<noteq> None
     \<and> (\<forall>x. fst rc = Returned x \<longrightarrow> client_steps q evs = Some Finished)"
  by (cases "fst rc"; cases "case fst rc of Returned x \<Rightarrow> is_ok x | _ \<Rightarrow> True")
     (auto simp: protocol_ok_def is_ok_def split: sum.splits)

text \<open>
  The status of the window follows the engine.  When the events of a run of the
  client have been relayed, the status shows the state of the client: nothing but
  \<open>Disconnected\<close> once the client has returned, with or without an error, and while it
  has not, \<open>Established\<close> only if the tunnel came up and has not been given up since.
  The user is notified once for each time the tunnel came up.
\<close>

theorem status_follows_client:
  "\<exists>evs. sys_events (snd (run_client_supervised radd rdel cfg password envs c)) = sys_events c @ evs
     \<and> (case fst (run_client_supervised radd rdel cfg password envs c) of
          Returned _ \<Rightarrow> vpn_status (relay_events k evs d) = Ws_Disconnected
        | _ \<Rightarrow> \<exists>q. client_steps client_state.Idle evs = Some q \<and> displays q (vpn_status (relay_events k evs d)))
     \<and> length (dk_notified (relay_events k evs d)) = length (dk_notified d)
         + length (filter (\<lambda>ev. ev = Ev_Established) evs)"
proof -
  obtain evs where evs: "sys_events (snd (run_client_supervised radd rdel cfg password envs c)) = sys_events c @ evs"
    and some: "client_steps client_state.Idle evs \<noteq> None"
    and fin: "\<And>x. fst (run_client_supervised radd rdel cfg password envs c) = Returned x \<Longrightarrow>
        client_steps client_state.Idle evs = Some Finished"
    using protocol_ok_story[OF client_protocol_ok] by blast
  have shown: "displays q (vpn_status (relay_events k evs d))" if "client_steps client_state.Idle evs = Some q" for q
    using relay_events_shows[OF that] by (simp add: vpn_status_def)
  have "case fst (run_client_supervised radd rdel cfg password envs c) of
      Returned _ \<Rightarrow> vpn_status (relay_events k evs d) = Ws_Disconnected
    | _ \<Rightarrow> \<exists>q. client_steps client_state.Idle evs = Some q \<and> displays q (vpn_status (relay_events k evs d))"
  proof (cases "\<exists>x. fst (run_client_supervised radd rdel cfg password envs c) = Returned x")
    case True
    then obtain x where x: "fst (run_client_supervised radd rdel cfg password envs c) = Returned x" by blast
    then show ?thesis using shown[OF fin[OF x]] by simp
  next
    case False
    obtain q where "client_steps client_state.Idle evs = Some q" using some by blast
    then show ?thesis using False shown by (auto split: outcome.split)
  qed
  then show ?thesis using evs relay_events_notified[of k evs d] by (intro exI[of _ evs]) simp
qed

section \<open>The status and the helper\<close>

text \<open>
  The window can report a tunnel down that is up.  A Connect whose configuration
  the helper refuses leaves the tunnel that runs untouched, but the answer is marked
  permanent, and the window takes every permanent error for the end of the tunnel.
\<close>

theorem refused_connect_hides_tunnel:
  assumes "config_from_wire w password = Inl msg"
  shows "live (serve_input env (Command (Cmd_Connect w password)) h) = live h
    \<and> hp_shutdown (serve_input env (Command (Cmd_Connect w password)) h) = hp_shutdown h
    \<and> hp_sent (serve_input env (Command (Cmd_Connect w password)) h) = hp_sent h @ [Msg_Error msg True]
    \<and> vpn_status (reader_step k (Line (Msg_Error msg True)) d) = Ws_Disconnected"
  using assms by (simp add: serve_input_def hp_send_def live_def vpn_status_def relay_message_def)

lemma refused_connect_hides_tunnel_witness:
  "\<exists>msg. let h = serve_input \<lparr>en_timely = True, en_privileges = Inr (), en_tun = Inr ()\<rparr>
        (Command (Cmd_Connect example_wire ''pw'')) helper_init;
      h' = serve_input \<lparr>en_timely = True, en_privileges = Inr (), en_tun = Inr ()\<rparr>
        (Command (Cmd_Connect (example_wire\<lparr>wc_cert_sha256 := Some ''abc''\<rparr>) ''pw'')) h in
    live h \<noteq> [] \<and> live h' = live h \<and> hp_sent h' = hp_sent h @ [Msg_Error msg True]
    \<and> vpn_status (reader_step 0 (Line (Msg_Error msg True)) desktop_init) = Ws_Disconnected"
proof -
  let ?env = "\<lparr>en_timely = True, en_privileges = Inr (), en_tun = Inr ()\<rparr>"
  let ?h = "serve_input ?env (Command (Cmd_Connect example_wire ''pw'')) helper_init"
  have "\<not> is_ok (config_from_wire (example_wire\<lparr>wc_cert_sha256 := Some ''abc''\<rparr>) ''pw'')" by code_simp
  then obtain msg where "config_from_wire (example_wire\<lparr>wc_cert_sha256 := Some ''abc''\<rparr>) ''pw'' = Inl msg"
    by (auto simp: is_ok_def split: sum.splits)
  note refused = refused_connect_hides_tunnel[OF this, of ?env ?h 0 desktop_init]
  have "live ?h \<noteq> []"
    by (simp add: serve_input_def config_from_wire_def example_wire_def handle_connect_def stop_session_def
        helper_init_def Let_def live_def)
  then show ?thesis using refused by (intro exI[of _ msg]) (simp add: Let_def)
qed

end
