(* ===== verification/Desktop_Chain.thy ===== *)
theory Desktop_Chain
  imports Pipe_Lines Gui_Correct
begin

text \<open>
  The desktop as one chain: what the backend writes, through the pipe, to the
  service and its engines; and what an engine reports, through the pipe, to the
  status of the window.  The lemmas here join the theorems on the links; the
  statements on the whole chain are in the root theory.
\<close>

section \<open>Towards the engines\<close>

text \<open>
  A service that was given the lines \<open>ins\<close> and has read \<open>seen\<close> of them: up to the end
  of its loop, or all.  Every line comes with the environment its step meets, and
  engines may end at any time.
\<close>

definition serves :: "(step_env \<times> helper_input) list \<Rightarrow> (step_env \<times> helper_input) list \<Rightarrow> helper \<Rightarrow> bool" where
  "serves ins seen h \<longleftrightarrow> helper_run seen h \<and> prefix seen ins \<and> (hp_served h \<or> seen = ins)"

fun ends_loop :: "helper_input \<Rightarrow> bool" where
  "ends_loop (Command Cmd_Shutdown) = True"
| "ends_loop End_Of_Input = True"
| "ends_loop Read_Error = True"
| "ends_loop _ = False"

lemma stop_session_served [simp]: "hp_served (stop_session in_time h) = hp_served h"
  by (simp add: stop_session_def Let_def split: option.splits)

lemma handle_connect_served [simp]: "hp_served (handle_connect env cfg h) = hp_served h"
  by (simp add: handle_connect_def hp_send_def Let_def split: sum.splits)

lemma serve_input_served: "\<not> hp_served h \<Longrightarrow> hp_served (serve_input env inp h) \<longleftrightarrow> ends_loop inp"
  by (cases inp rule: ends_loop.cases) (simp_all add: serve_input_def hp_send_def split: sum.splits)

lemma helper_run_served:
  "helper_run seen h \<Longrightarrow> (hp_served h \<longleftrightarrow> seen \<noteq> [] \<and> ends_loop (snd (last seen)))
     \<and> (\<forall>x \<in> set (butlast seen). \<not> ends_loop (snd x))"
proof (induction rule: helper_run.induct)
  case run_start
  show ?case by (simp add: helper_init_def)
next
  case (run_served seen h env inp)
  have "\<not> ends_loop (snd x)" if "x \<in> set seen" for x
    using that run_served.IH run_served.hyps(2)
    by (cases seen rule: rev_cases) auto
  then show ?case using serve_input_served[OF run_served.hyps(2)] by simp
qed simp

lemma served_stopped:
  assumes "helper_run seen h" "hp_served h"
  shows "live h = []"
proof -
  have "hp_shutdown h = None"
    using helper_run_simulates[OF assms(1)] assms(2) by (cases "fst (control_run seen)") (auto simp: simulates_def)
  then show ?thesis
    using service.always[OF helper_run_reachable[OF assms(1)]]
    by (auto simp: live_def engines_ok_def list_all_iff filter_empty_conv)
qed

text \<open>A service whose lines end with the end of the input always leaves its loop.\<close>

lemma serves_ends:
  assumes "serves ins seen h" "ins \<noteq> []" "snd (last ins) = End_Of_Input"
  shows "hp_served h" "seen \<noteq> []"
proof -
  show "hp_served h"
    using assms helper_run_served[of seen h] unfolding serves_def by force
  then show "seen \<noteq> []" using assms(1) helper_run_served[of seen h] unfolding serves_def by blast
qed

text \<open>It reads every line up to the first that ends the loop.\<close>

lemma serves_reads:
  assumes "serves ins seen h" "i < length ins" "\<forall>j < i. \<not> ends_loop (snd (ins ! j))"
  shows "i < length seen \<or> seen = []"
proof (rule ccontr)
  assume not: "\<not> (i < length seen \<or> seen = [])"
  obtain rest where ins: "ins = seen @ rest" using assms(1) by (auto simp: serves_def prefix_def)
  have "hp_served h" using assms(1,2) not unfolding serves_def by auto
  then have "ends_loop (snd (last seen))" using assms(1) helper_run_served unfolding serves_def by blast
  moreover have "last seen = ins ! (length seen - 1)" using not ins by (simp add: last_conv_nth nth_append)
  ultimately show False using assms(3) not by (metis Suc_pred' diff_less length_greater_0_conv less_le_trans linorder_not_less zero_less_one)
qed

lemma seen_input:
  assumes "serves ins seen h" "i < length seen"
  shows "snd (seen ! i) = map snd ins ! i"
  using assms by (auto simp: serves_def prefix_def nth_append)

text \<open>What the service executes is what was sent, and all of it up to the first shutdown.\<close>

lemma commands_served:
  assumes "\<forall>c \<in> set cs. json_text to_json from_json c" "pw_sent w = []"
    "map snd ins = helper_inputs from_json (pw_sent (snd (send_commands to_json cs w)))" "serves ins seen h"
  shows "hp_served h \<and> live h = []
    \<and> (\<forall>i c. i < length seen \<and> snd (seen ! i) = Command c \<longrightarrow> i < length cs \<and> c = cs ! i)
    \<and> (\<forall>i. i < length cs \<and> fst (send_commands to_json cs w) ! i = Inr () \<and> Cmd_Shutdown \<notin> set (take i cs)
         \<longrightarrow> i < length seen \<and> snd (seen ! i) = Command (cs ! i))"
proof -
  obtain k rest where k: "fst (send_commands to_json cs w) = replicate k (Inr ()) @ replicate (length cs - k) (Inl (pw_error w))"
    "k \<le> length cs"
    and ins: "map snd ins = map Command (take k cs) @ rest @ [End_Of_Input]"
    and rest: "rest \<in> {[], [Bad_Line], [Read_Error]} \<union> (if k < length cs then {[Command (cs ! k)]} else {})"
    using commands_arrive[OF assms(1,2)] assms(3) by metis
  have "ins \<noteq> []" using ins by auto
  moreover have "snd (last ins) = End_Of_Input"
    using arg_cong[OF ins, of last] \<open>ins \<noteq> []\<close> by (simp add: last_map)
  ultimately have served: "hp_served h" "seen \<noteq> []" using serves_ends[OF assms(4)] by blast+
  have len: "length seen \<le> length ins" using assms(4) by (auto simp: serves_def prefix_def)
  have long: "length ins = k + length rest + 1" using arg_cong[OF ins, of length] k(2) by simp
  have early: "map snd ins ! i = Command (cs ! i)" if "i < k" for i
    using that k(2) by (simp add: ins nth_append)
  have own: "i < length cs \<and> c = cs ! i" if i: "i < length seen" "snd (seen ! i) = Command c" for i c
  proof (cases "i < k")
    case True
    then show ?thesis using seen_input[OF assms(4) i(1)] i(2) early k(2) by simp
  next
    case False
    have c: "(rest @ [End_Of_Input]) ! (i - k) = Command c"
      using seen_input[OF assms(4) i(1)] i(2) False k(2) by (simp add: ins nth_append)
    have "i - k < length rest + 1" using i(1) len long False by simp
    then have "i = k \<and> rest = [Command c]" using rest c False by (cases "i = k") (auto split: if_splits)
    then show ?thesis using rest by (auto split: if_splits)
  qed
  have read: "i < length seen \<and> snd (seen ! i) = Command (cs ! i)"
    if i: "i < length cs" "fst (send_commands to_json cs w) ! i = Inr ()" "Cmd_Shutdown \<notin> set (take i cs)" for i
  proof -
    have ik: "i < k" using i(1,2) k by (auto simp: nth_append split: if_splits)
    have "\<not> ends_loop (snd (ins ! j))" if "j < i" for j
    proof -
      have "snd (ins ! j) = Command (cs ! j)" using early[of j] that ik long by simp
      moreover have "cs ! j \<noteq> Cmd_Shutdown" using i(1,3) that by (force simp: in_set_conv_nth)
      ultimately show ?thesis by (cases "cs ! j") simp_all
    qed
    then have "i < length seen" using serves_reads[OF assms(4), of i] served(2) ik long by auto
    then show ?thesis using seen_input[OF assms(4)] early ik by simp
  qed
  show ?thesis
    using served(1) served_stopped[of seen h] assms(4) own read unfolding serves_def by blast
qed

section \<open>Towards the window\<close>

lemma client_steps_prefix:
  "client_steps q evs = Some q' \<Longrightarrow> \<exists>q1. client_steps q (take j evs) = Some q1"
proof (induction evs arbitrary: q j)
  case (Cons ev evs)
  then show ?case by (cases j) (auto split: option.splits)
qed simp

lemma relayed_lines:
  "fold (reader_step r) (map Line msgs) d = fold (\<lambda>m. reader_step r (Line m)) msgs d"
  by (induction msgs arbitrary: d) simp_all

text \<open>While the lines of an engine are relayed the status shows the state after the events so far; the end of the pipe shows nothing.\<close>

lemma status_through_pipe:
  assumes "client_steps client_state.Idle evs = Some q" "\<forall>ev \<in> set evs. json_text to_json from_json (map_event ev)"
    "pw_sent w = []"
  shows "let ls = pipe_lines from_json (pw_sent (fold (send_message to_json) (map map_event evs) w)) in
    (\<exists>k \<le> length evs. (pw_room w = None \<longrightarrow> k = length evs)
       \<and> (\<forall>j \<le> k. \<exists>q. client_steps client_state.Idle (take j evs) = Some q
            \<and> displays q (vpn_status (fold (reader_step r) (take j ls) d))))
    \<and> vpn_status (fold (reader_step r) ls d) = Ws_Disconnected"
proof -
  let ?ls = "pipe_lines from_json (pw_sent (fold (send_message to_json) (map map_event evs) w))"
  have "\<forall>m \<in> set (map map_event evs). json_text to_json from_json m" using assms(2) by simp
  from messages_arrive[OF this assms(3)] obtain k rest where k: "k \<le> length evs" "pw_room w = None \<longrightarrow> k = length evs"
    and ls: "?ls = map Line (take k (map map_event evs)) @ rest @ [Pipe_End]"
    by auto
  have "\<exists>q. client_steps client_state.Idle (take j evs) = Some q
      \<and> displays q (vpn_status (fold (reader_step r) (take j ?ls) d))" if "j \<le> k" for j
  proof -
    obtain q1 where q1: "client_steps client_state.Idle (take j evs) = Some q1"
      using client_steps_prefix[OF assms(1)] by blast
    have "take j ?ls = map Line (map map_event (take j evs))"
      using that k(1) by (simp add: ls take_map min_def)
    then have "fold (reader_step r) (take j ?ls) d = relay_events r (take j evs) d"
      by (simp only: relayed_lines) (simp add: fold_map comp_def)
    then show ?thesis using q1 relay_events_shows[OF q1, of d r] by (simp add: vpn_status_def)
  qed
  moreover have "vpn_status (fold (reader_step r) ?ls d) = Ws_Disconnected"
    by (simp add: ls vpn_status_def reader_end_def)
  ultimately show ?thesis using k by (auto simp: Let_def)
qed

section \<open>Examples\<close>

text \<open>A connect and a shutdown, over a pipe that breaks inside the second line.\<close>

definition chain_connect :: client_command where
  "chain_connect = Cmd_Connect example_wire ''pw''"

definition chain_line :: string where
  "chain_line = map (\<lambda>c. if c = CHR ''`'' then CHR 0x22 else c)
     (''{`Connect`:{`config`:{`host`:`h`,`port`:443,`username`:`u`,`protocol`:`FortiGate`,''
      @ ''`cert_sha256`:null,`insecure`:false,`verbose`:false,`realm`:null},`password`:`pw`}}'')"

definition chain_to_json :: "client_command \<Rightarrow> string + string" where
  "chain_to_json c = (case c of Cmd_Connect w pw \<Rightarrow> Inr chain_line | _ \<Rightarrow> example_to_json c)"

definition chain_from_json :: "string \<Rightarrow> client_command option" where
  "chain_from_json s = (if s = chain_line then Some chain_connect else example_from_json s)"

definition chain_pipe :: pipe_writer where
  "chain_pipe = \<lparr>pw_sent = [], pw_room = Some (length chain_line + 4), pw_error = ''broken pipe''\<rparr>"

lemma chain_json: "\<forall>c \<in> set [chain_connect, Cmd_Shutdown]. json_text chain_to_json chain_from_json c"
proof -
  have "json_text chain_to_json chain_from_json Cmd_Shutdown" by code_simp
  moreover have "json_text chain_to_json chain_from_json chain_connect"
  proof -
    obtain t where t: "chain_line = CHR ''{'' # t" by (simp add: chain_line_def)
    then have ne: "chain_line \<noteq> []" by (metis list.distinct(1))
    have line: "LF \<notin> set chain_line" "last chain_line \<noteq> CR" "utf8_valid (bytes_of_str chain_line)" by code_simp+
    have "chain_from_json (take n chain_line) = None" if "n < length chain_line" for n
    proof -
      have "length (take n chain_line) \<noteq> length chain_line" using that by simp
      then have "take n chain_line \<noteq> chain_line" by metis
      then show ?thesis by (cases n) (simp_all add: chain_from_json_def example_from_json_def t)
    qed
    moreover have "chain_from_json chain_line = Some chain_connect" by (simp add: chain_from_json_def)
    ultimately show ?thesis
      using line ne by (simp add: json_text_def chain_to_json_def chain_connect_def list_all_iff)
  qed
  ultimately show ?thesis by simp
qed

definition chain_env :: step_env where
  "chain_env = \<lparr>en_timely = False, en_privileges = Inr (), en_tun = Inr ()\<rparr>"

definition chain_inputs :: "(step_env \<times> helper_input) list" where
  "chain_inputs = [(chain_env, Command chain_connect), (chain_env, Bad_Line), (chain_env, End_Of_Input)]"

definition chain_helper :: helper where
  "chain_helper = serve_input chain_env End_Of_Input (serve_input chain_env Bad_Line
     (serve_input chain_env (Command chain_connect) helper_init))"

lemma chain_read:
  "map snd chain_inputs = helper_inputs chain_from_json
     (pw_sent (snd (send_commands chain_to_json [chain_connect, Cmd_Shutdown] chain_pipe)))"
  by code_simp

lemma chain_serves: "serves chain_inputs chain_inputs chain_helper"
proof -
  have init: "\<not> hp_served helper_init" by (simp add: helper_init_def)
  have one: "\<not> hp_served (serve_input chain_env (Command chain_connect) helper_init)"
    using serve_input_served[OF init] by (simp add: chain_connect_def)
  have two: "\<not> hp_served (serve_input chain_env Bad_Line (serve_input chain_env (Command chain_connect) helper_init))"
    using serve_input_served[OF one] by simp
  have "helper_run [(chain_env, Command chain_connect)] (serve_input chain_env (Command chain_connect) helper_init)"
    using run_served[OF run_start init, of chain_env "Command chain_connect"] by simp
  from run_served[OF run_served[OF this one] two]
  have "helper_run chain_inputs chain_helper" by (simp add: chain_inputs_def chain_helper_def)
  then show ?thesis by (simp add: serves_def)
qed

text \<open>The two messages of a client that is stopped after its first attempt.\<close>

definition state_line :: "string \<Rightarrow> string" where
  "state_line s = ''{'' @ [CHR 0x22] @ ''State'' @ [CHR 0x22] @ '':'' @ [CHR 0x22] @ s @ [CHR 0x22] @ ''}''"

definition chain_msg_to_json :: "client_message \<Rightarrow> string + string" where
  "chain_msg_to_json m =
     (if m = Msg_State Ws_Connecting then Inr (state_line ''Connecting'')
      else if m = Msg_State Ws_Disconnected then Inr (state_line ''Disconnected'') else Inl ''not in the example'')"

definition chain_msg_from_json :: "string \<Rightarrow> client_message option" where
  "chain_msg_from_json s =
     (if s = state_line ''Connecting'' then Some (Msg_State Ws_Connecting)
      else if s = state_line ''Disconnected'' then Some (Msg_State Ws_Disconnected) else None)"

lemma chain_msg_json:
  "json_text chain_msg_to_json chain_msg_from_json (Msg_State Ws_Connecting)"
  "json_text chain_msg_to_json chain_msg_from_json (Msg_State Ws_Disconnected)"
  by code_simp+

definition chain_attempt :: attempt_env where
  "chain_attempt = example_env\<lparr>ae_shutdown_after := True\<rparr>"

lemma chain_events:
  "sys_events (snd (run_client_supervised lt_add lt_del (config_new ''h'' 443 ''u'') ''pw'' [chain_attempt] example_sys))
     = [Ev_Connecting, Ev_Disconnected]"
  by code_simp

definition chain_open :: pipe_writer where
  "chain_open = \<lparr>pw_sent = [], pw_room = None, pw_error = []\<rparr>"

definition chain_lines :: "pipe_line list" where
  "chain_lines = pipe_lines chain_msg_from_json
     (pw_sent (fold (send_message chain_msg_to_json) (map map_event [Ev_Connecting, Ev_Disconnected]) chain_open))"

end
