(* ===== verification/Android.thy ===== *)
theory Android
  imports Client_Correct Transition
begin

text \<open>
  The entry points of the Android service (\<open>vpn-engine/src/jni_bridge.rs\<close>): the
  configuration they build, the states they report, and the shutdown handle that
  the concurrent calls share.

  Every call runs on a thread of its own, and the handle is locked twice in a
  start: the steps of the calls interleave.  An engine is told to stop by a value
  sent on its channel, or by its handle being dropped, which ends the wait for the
  signal as well.  The JNI calls themselves are not modelled.
\<close>

section \<open>The configuration\<close>

text \<open>\<open>str::get\<close> at byte positions inside a character panics in the slice of the source.\<close>

definition char_boundary :: "nat \<Rightarrow> string \<Rightarrow> bool" where
  "char_boundary i s = (if i < length s then \<not> (128 \<le> code (s ! i) \<and> code (s ! i) < 192) else i = length s)"

text \<open>The loop over the 32 pairs: \<open>Hangs\<close> never occurs; a failing pair gives \<open>None\<close>.\<close>

fun jni_hex_pairs :: "string \<Rightarrow> nat \<Rightarrow> nat \<Rightarrow> bytes option outcome" where
  "jni_hex_pairs hex i 0 = Returned (Inr (Some []))"
| "jni_hex_pairs hex i (Suc k) =
     (if \<not> char_boundary (i * 2) hex \<or> \<not> char_boundary (i * 2 + 2) hex then Panicked
      else case parse_radix 16 256 (take 2 (drop (i * 2) hex)) of
          None \<Rightarrow> Returned (Inr None)
        | Some n \<Rightarrow> outcome_then (jni_hex_pairs hex (i + 1) k) (\<lambda>r. Returned (Inr (map_option (\<lambda>bs. as_u8 n # bs) r))))"

definition jni_parse_fingerprint :: "string \<Rightarrow> bytes option outcome" where
  "jni_parse_fingerprint s =
     (let hex = concat (filter (\<lambda>c. \<not> is_whitespace c \<and> c \<noteq> '':'') (chars s)) in
      if length hex \<noteq> 64 then Returned (Inr None) else jni_hex_pairs hex 0 32)"

record jni_args =
  ja_host :: string
  ja_port :: "32 word"
  ja_user :: string
  ja_pass :: string
  ja_protocol :: "32 word"
  ja_insecure :: bool
  ja_cert :: string

definition jni_config :: "jni_args \<Rightarrow> config outcome" where
  "jni_config a =
     outcome_then (if trim (ja_cert a) = [] then Returned (Inr None) else jni_parse_fingerprint (ja_cert a)) (\<lambda>cert.
       Returned (Inr \<lparr>cfg_host = ja_host a, cfg_port = ucast (ja_port a), cfg_username = ja_user a,
         cfg_password = None, cfg_verbose = False, cfg_cert_sha256 = cert, cfg_insecure = ja_insecure a,
         cfg_protocol = (if ja_protocol a = 1 then Checkpoint else if ja_protocol a = 2 then FortiGate else AnyConnect),
         cfg_realm = []\<rparr>))"

section \<open>The states\<close>

fun jni_state :: "client_event \<Rightarrow> string" where
  "jni_state Ev_Connecting = ''connecting''"
| "jni_state Ev_Established = ''established''"
| "jni_state (Ev_Reconnecting d) = ''reconnecting''"
| "jni_state Ev_Disconnected = ''disconnected''"
| "jni_state (Ev_Permanent_Error msg) = ''error:'' @ msg"

text \<open>What the callback gets: the events of the run, and the error once more at the end.\<close>

definition jni_states :: "client_event list \<Rightarrow> unit result \<Rightarrow> string list" where
  "jni_states evs r = map jni_state evs @ (case r of Inl e \<Rightarrow> [''error:'' @ show_error e] | Inr _ \<Rightarrow> [])"

section \<open>The shutdown handle\<close>

text \<open>Where a call of \<open>runEngine\<close> stands: before the first lock, between the two, or running.\<close>

datatype jni_call = Before | Between | Running | Ended

record jni =
  jn_slot :: "nat option"
  jn_calls :: "nat \<Rightarrow> jni_call"
  jn_told :: "nat set"

definition jni_init :: jni where
  "jni_init = \<lparr>jn_slot = None, jn_calls = (\<lambda>_. Before), jn_told = {}\<rparr>"

text \<open>The handle that is taken out, or overwritten, reaches its engine.\<close>

definition tell_slot :: "jni \<Rightarrow> jni" where
  "tell_slot j = j\<lparr>jn_told := (case jn_slot j of None \<Rightarrow> jn_told j | Some i \<Rightarrow> insert i (jn_told j))\<rparr>"

definition take_previous :: "nat \<Rightarrow> jni \<Rightarrow> jni" where
  "take_previous i j = (tell_slot j)\<lparr>jn_slot := None, jn_calls := (jn_calls j)(i := Between)\<rparr>"

definition register :: "nat \<Rightarrow> jni \<Rightarrow> jni" where
  "register i j = (tell_slot j)\<lparr>jn_slot := Some i, jn_calls := (jn_calls j)(i := Running)\<rparr>"

definition stop_engine :: "jni \<Rightarrow> jni" where
  "stop_engine j = (tell_slot j)\<lparr>jn_slot := None\<rparr>"

inductive jni_step :: "jni \<Rightarrow> jni \<Rightarrow> bool" where
  taken: "jn_calls j i = Before \<Longrightarrow> jni_step j (take_previous i j)"
| registered: "jn_calls j i = Between \<Longrightarrow> jni_step j (register i j)"
| stopped: "jni_step j (stop_engine j)"
| ended: "jn_calls j i = Running \<Longrightarrow> jni_step j (j\<lparr>jn_calls := (jn_calls j)(i := Ended)\<rparr>)"

abbreviation jni_reachable :: "jni \<Rightarrow> bool" where
  "jni_reachable \<equiv> reachable jni_step jni_init"


section \<open>Fingerprints\<close>

lemma hexdigit_char:
  assumes "is_hexdigit c"
  shows "code c < 128 \<and> \<not> ascii_ws c \<and> c \<noteq> CHR '':'' \<and> c \<noteq> CHR ''s'' \<and> c \<noteq> CHR ''S''"
proof -
  have "(48 \<le> code c \<and> code c \<le> 57) \<or> (97 \<le> code c \<and> code c \<le> 102) \<or> (65 \<le> code c \<and> code c \<le> 70)"
    using assms by (auto simp: is_hexdigit_def digit_val.simps Let_def split: if_splits)
  then show ?thesis by (auto simp: ascii_ws_def)
qed

lemma hex_clean:
  assumes "list_all is_hexdigit s"
  shows "concat (filter (\<lambda>c. \<not> is_whitespace c \<and> c \<noteq> '':'') (chars s)) = s"
    "concat (filter (\<lambda>c. c \<noteq> '':'' \<and> \<not> is_whitespace c) (chars s)) = s"
proof -
  have "chars s = map (\<lambda>c. [c]) s"
    using assms hexdigit_char by (intro chars_ascii) (simp add: list_all_iff)
  moreover have "\<not> is_whitespace [c] \<and> c \<noteq> CHR '':''" if "c \<in> set s" for c
    using assms hexdigit_char[of c] that by (auto simp: list_all_iff is_whitespace_def)
  then have "filter (\<lambda>c. \<not> is_whitespace c \<and> c \<noteq> '':'') (map (\<lambda>c. [c]) s) = map (\<lambda>c. [c]) s"
    "filter (\<lambda>c. c \<noteq> '':'' \<and> \<not> is_whitespace c) (map (\<lambda>c. [c]) s) = map (\<lambda>c. [c]) s"
    by (auto intro!: filter_True)
  ultimately show "concat (filter (\<lambda>c. \<not> is_whitespace c \<and> c \<noteq> '':'') (chars s)) = s"
    "concat (filter (\<lambda>c. c \<noteq> '':'' \<and> \<not> is_whitespace c) (chars s)) = s" by simp_all
qed

lemma jni_hex_pairs_ascii:
  "list_all is_hexdigit s \<Longrightarrow> length s = 2 * (i + k) \<Longrightarrow>
   jni_hex_pairs s i k = Returned (Inr (hex_pairs (drop (2 * i) s)))"
proof (induction k arbitrary: i)
  case (Suc k)
  let ?i = "2 * i"
  have len: "?i + 1 < length s" using Suc.prems(2) by simp
  have "drop ?i s = s ! ?i # drop (Suc ?i) s" using len by (simp add: Cons_nth_drop_Suc)
  also have "drop (Suc ?i) s = s ! Suc ?i # drop (Suc (Suc ?i)) s" using len by (simp add: Cons_nth_drop_Suc)
  finally have d: "drop ?i s = s ! ?i # s ! Suc ?i # drop (2 * (i + 1)) s" by simp
  have bound: "char_boundary j s" if "j \<le> length s" for j
    using Suc.prems(1) that hexdigit_char[of "s ! j"] by (auto simp: char_boundary_def list_all_length)
  have dig: "is_hexdigit (s ! ?i)" "is_hexdigit (s ! Suc ?i)"
    using Suc.prems(1) len by (simp_all add: list_all_length)
  obtain n where n: "parse_radix 16 256 [s ! ?i, s ! Suc ?i] = Some n" using is_hexdigit_parse[OF dig] by blast
  have "jni_hex_pairs s (i + 1) k = Returned (Inr (hex_pairs (drop (2 * (i + 1)) s)))"
    using Suc.prems by (intro Suc.IH) simp_all
  then show ?case
    using bound[of "i * 2"] bound[of "i * 2 + 2"] len d n
    by (simp add: mult.commute split: option.splits)
qed simp

lemma hex_fingerprint:
  assumes "list_all is_hexdigit s" "length s = 64"
  shows "clean_fingerprint s = s" "clean_fingerprint (''sha256:'' @ s) = s"
    "trim s = s" "trim (''sha256:'' @ s) = ''sha256:'' @ s"
proof -
  have ne: "s \<noteq> []" using assms(2) by auto
  have ends: "code c < 128 \<and> \<not> ascii_ws c \<and> c \<noteq> CHR ''s'' \<and> c \<noteq> CHR ''S''" if "c = hd s \<or> c = last s" for c
  proof -
    have "c \<in> set s" using ne that by auto
    then show ?thesis using assms(1) hexdigit_char[of c] by (simp add: list_all_iff)
  qed
  have trims: "trim s = s" "trim (''sha256:'' @ s) = ''sha256:'' @ s"
    using ends ne by (auto intro!: trim_id simp: ascii_ws_def)
  have notpre: "\<not> prefix ''sha256:'' s" "\<not> prefix ''SHA256:'' s" using ends[of "hd s"] by (cases s; auto)+
  have plain: "trim_start_matches ''sha256:'' s = s" "trim_start_matches ''SHA256:'' s = s"
    using notpre by (simp_all add: trim_start_matches_def drop_while_prefix_id)
  have "trim_start_matches ''sha256:'' (''sha256:'' @ s) = s"
    using plain(1) unfolding trim_start_matches_def by (subst drop_while_prefix.simps) simp
  then show "clean_fingerprint s = s" "clean_fingerprint (''sha256:'' @ s) = s"
    using trims plain hex_clean[OF assms(1)] by (simp_all add: clean_fingerprint_def)
  show "trim s = s" "trim (''sha256:'' @ s) = ''sha256:'' @ s" by (rule trims)+
qed

lemma hex_fingerprint_read:
  assumes "list_all is_hexdigit s" "length s = 64"
  obtains pin where "hex_pairs s = Some pin" "jni_parse_fingerprint s = Returned (Inr (Some pin))"
    "parse_sha256_fingerprint s = Inr pin" "parse_sha256_fingerprint (''sha256:'' @ s) = Inr pin"
proof -
  obtain pin where pin: "hex_pairs s = Some pin" using hex_pairs_total[OF assms(1)] assms(2) by auto
  then have "jni_parse_fingerprint s = Returned (Inr (Some pin))"
    using jni_hex_pairs_ascii[OF assms(1), of 0 32] assms(2) hex_clean(1)[OF assms(1)]
    by (simp add: jni_parse_fingerprint_def)
  moreover have "parse_sha256_fingerprint s = Inr pin" "parse_sha256_fingerprint (''sha256:'' @ s) = Inr pin"
    using hex_fingerprint(1,2)[OF assms] assms pin by (simp_all add: parse_sha256_fingerprint_def)
  ultimately show ?thesis using that pin by blast
qed

lemma jni_prefixed_fingerprint:
  assumes "list_all is_hexdigit s" "length s = 64"
  shows "jni_parse_fingerprint (''sha256:'' @ s) = Returned (Inr None)"
proof -
  have "chars (''sha256:'' @ s) = map (\<lambda>c. [c]) (''sha256:'' @ s)"
    using assms(1) hexdigit_char by (intro chars_ascii) (auto simp: list_all_iff)
  also have "\<dots> = map (\<lambda>c. [c]) ''sha256:'' @ chars s"
    using assms(1) hexdigit_char by (subst chars_ascii) (auto simp: list_all_iff)
  finally have split: "chars (''sha256:'' @ s) = map (\<lambda>c. [c]) ''sha256:'' @ chars s" .
  define cs where "cs = chars s"
  have "concat (filter (\<lambda>c. \<not> is_whitespace c \<and> c \<noteq> '':'') cs) = s"
    using hex_clean(1)[OF assms(1)] by (simp add: cs_def)
  then have "concat (filter (\<lambda>c. \<not> is_whitespace c \<and> c \<noteq> '':'') (map (\<lambda>c. [c]) ''sha256:'' @ cs)) = ''sha256'' @ s"
    by (simp add: is_whitespace_def ascii_ws_def)
  then have "concat (filter (\<lambda>c. \<not> is_whitespace c \<and> c \<noteq> '':'') (chars (''sha256:'' @ s))) = ''sha256'' @ s"
    by (simp only: split cs_def)
  then show ?thesis using assms(2) by (simp add: jni_parse_fingerprint_def Let_def)
qed

text \<open>
  C25: A pinned certificate can be lost on Android.  A fingerprint of 64 hexadecimal
  digits is read alike by the Android entry point and by the desktop; with the
  documented prefix \<open>sha256:\<close> in front the desktop still pins it, but the Android
  configuration has no pin and no error: the engine then trusts the public roots,
  or every certificate if the profile is marked insecure.
\<close>

theorem jni_fingerprint_prefix:
  assumes "list_all is_hexdigit s" "length s = 64"
  shows "(\<exists>pin. hex_pairs s = Some pin
      \<and> jni_parse_fingerprint s = Returned (Inr (Some pin))
      \<and> parse_sha256_fingerprint s = Inr pin
      \<and> parse_sha256_fingerprint (''sha256:'' @ s) = Inr pin)
    \<and> jni_parse_fingerprint (''sha256:'' @ s) = Returned (Inr None)
    \<and> (case jni_config (a\<lparr>ja_cert := ''sha256:'' @ s\<rparr>) of
         Returned (Inr cfg) \<Rightarrow> cert_trust_of cfg = (if ja_insecure a then Insecure else Webpki)
       | _ \<Rightarrow> False)"
proof -
  obtain pin where pin: "hex_pairs s = Some pin" "jni_parse_fingerprint s = Returned (Inr (Some pin))"
    "parse_sha256_fingerprint s = Inr pin" "parse_sha256_fingerprint (''sha256:'' @ s) = Inr pin"
    by (rule hex_fingerprint_read[OF assms])
  then show ?thesis
    using jni_prefixed_fingerprint[OF assms] hex_fingerprint(4)[OF assms] by (simp add: jni_config_def cert_trust_of_def)
qed

lemma jni_fingerprint_prefix_witness:
  "jni_parse_fingerprint (''sha256:'' @ replicate 64 (CHR ''a'')) = Returned (Inr None)
   \<and> parse_sha256_fingerprint (''sha256:'' @ replicate 64 (CHR ''a'')) = Inr (replicate 32 (0xaa :: 8 word))"
proof -
  have "list_all is_hexdigit (replicate 64 (CHR ''a''))"
    by (simp add: list_all_iff is_hexdigit_def digit_val.simps Let_def)
  moreover have "hex_pairs (replicate 64 (CHR ''a'')) = Some (replicate 32 (0xaa :: 8 word))" by code_simp
  ultimately show ?thesis using jni_fingerprint_prefix[of "replicate 64 (CHR ''a'')" undefined] by auto
qed

section \<open>The running engine can be stopped\<close>

definition jni_inv :: "jni \<Rightarrow> bool" where
  "jni_inv j \<longleftrightarrow>
     (\<forall>i. jn_calls j i = Running \<longrightarrow> i \<in> jn_told j \<or> jn_slot j = Some i)
     \<and> (\<forall>i. jn_calls j i = Before \<or> jn_calls j i = Between \<longrightarrow> i \<notin> jn_told j \<and> jn_slot j \<noteq> Some i)"

lemmas jni_ops = take_previous_def register_def stop_engine_def tell_slot_def

lemma jni_inv_tell: "jni_inv j \<Longrightarrow> jni_inv ((tell_slot j)\<lparr>jn_slot := None\<rparr>)"
  unfolding jni_inv_def tell_slot_def by (cases "jn_slot j") fastforce+

lemma jni_inv_step:
  assumes "jni_inv j" "jni_step j j'"
  shows "jni_inv j'"
  using assms(2)
proof cases
  case (taken i)
  have "jni_inv (g\<lparr>jn_calls := (jn_calls g)(i := Between)\<rparr>)"
    if "jni_inv g" "jn_calls g i = Before" for g
    using that unfolding jni_inv_def by auto
  from this[OF jni_inv_tell[OF assms(1)]] taken show ?thesis by (simp add: jni_ops)
next
  case (registered i)
  have "jni_inv (g\<lparr>jn_slot := Some i, jn_calls := (jn_calls g)(i := Running)\<rparr>)"
    if "jni_inv g" "jn_slot g = None" for g
    using that unfolding jni_inv_def by auto
  from this[OF jni_inv_tell[OF assms(1)]] registered show ?thesis by (simp add: jni_ops)
next
  case stopped
  then show ?thesis using jni_inv_tell[OF assms(1)] by (simp add: stop_engine_def)
next
  case (ended i)
  then show ?thesis using assms(1) unfolding jni_inv_def by auto
qed

interpretation bridge: invariant_of jni_step jni_init jni_inv
  by unfold_locales (simp add: jni_inv_def jni_init_def, rule jni_inv_step)

text \<open>
  C38: Whatever the interleaving of starts, stops and ends of the engine calls, at most
  one running engine has not been told to stop, and it is the one whose handle the next
  stop or start takes: one stop then leaves no running engine that was not told.
\<close>

theorem jni_one_engine:
  assumes "jni_reachable j"
  shows "(\<forall>i i'. jn_calls j i = Running \<and> jn_calls j i' = Running \<and> i \<notin> jn_told j \<and> i' \<notin> jn_told j \<longrightarrow> i = i')
    \<and> (\<forall>i. jn_calls j i = Before \<or> jn_calls j i = Between \<longrightarrow> i \<notin> jn_told j)
    \<and> (\<forall>i. jn_calls (stop_engine j) i = Running \<longrightarrow> i \<in> jn_told (stop_engine j))
    \<and> (\<forall>k i. jn_calls (take_previous k j) i = Running \<longrightarrow> i \<in> jn_told (take_previous k j))"
proof -
  note inv = bridge.always[OF assms, unfolded jni_inv_def]
  note told = jni_inv_tell[OF bridge.always[OF assms], unfolded jni_inv_def]
  have "\<forall>i. jn_calls (stop_engine j) i = Running \<longrightarrow> i \<in> jn_told (stop_engine j)"
    using told by (simp add: stop_engine_def)
  moreover have "\<forall>k i. jn_calls (take_previous k j) i = Running \<longrightarrow> i \<in> jn_told (take_previous k j)"
    using told by (simp add: take_previous_def tell_slot_def)
  ultimately show ?thesis using inv by (metis option.inject)
qed

lemmas jni_next = reach_step[where step = jni_step]

text \<open>Two starts whose locks interleave, so that the second finds the slot empty.\<close>

definition example_jni :: jni where
  "example_jni = register 1 (register 0 (take_previous 1 (take_previous 0 jni_init)))"

lemma jni_one_engine_witness:
  "jn_calls example_jni 0 = Running \<and> jn_calls example_jni 1 = Running \<and> 0 \<in> jn_told example_jni
   \<and> 1 \<notin> jn_told example_jni \<and> 1 \<in> jn_told (stop_engine example_jni)"
proof -
  have "jni_reachable example_jni"
    unfolding example_jni_def
    by (rule jni_next[OF jni_next[OF jni_next[OF jni_next[OF reach_start taken] taken] registered] registered])
      (simp_all add: jni_ops jni_init_def)
  note holds = jni_one_engine[OF this]
  have run: "jn_calls example_jni 0 = Running" "jn_calls example_jni 1 = Running" "1 \<notin> jn_told example_jni"
    "jn_calls (stop_engine example_jni) 1 = Running"
    by (simp_all add: example_jni_def jni_ops jni_init_def)
  moreover have "0 \<in> jn_told example_jni" using holds run by (metis zero_neq_one)
  ultimately show ?thesis using holds by metis
qed

text \<open>
  The limits of the handle: a stop between the two locks of a start does not reach it.
\<close>

lemma jni_stop_lost:
  "jn_calls (register i (stop_engine (take_previous i j))) i = Running
   \<and> jn_slot (register i (stop_engine (take_previous i j))) = Some i"
  by (simp add: jni_ops)

end
