(* ===== verification/Gui_Android.thy ===== *)
theory Gui_Android
  imports Android Helper
begin

text \<open>
  The Android variants of the desktop commands (\<open>src-tauri/src/lib.rs\<close>): what they
  hand to the service and what they report.  The Kotlin service passes the values of
  the payload to \<open>runEngine\<close> unchanged and keeps the last state it was given; the
  composition with the entry point shows what configuration the engine gets there.
\<close>

definition android_payload :: "wire_config \<Rightarrow> string \<Rightarrow> jni_args" where
  "android_payload c password =
     \<lparr>ja_host = wc_host c, ja_port = ucast (wc_port c), ja_user = wc_username c, ja_pass = password,
      ja_protocol = (case wc_protocol c of Wire_Checkpoint \<Rightarrow> 1 | Wire_FortiGate \<Rightarrow> 2 | Wire_AnyConnect \<Rightarrow> 0),
      ja_insecure = wc_insecure c, ja_cert = unwrap_or [] (wc_cert_sha256 c)\<rparr>"

text \<open>A delay is not known to the service.\<close>

definition android_status :: "string \<Rightarrow> wire_state" where
  "android_status state =
     (if state = ''established'' then Ws_Established
      else if state = ''connecting'' then Ws_Connecting
      else if state = ''reconnecting'' then Ws_Reconnecting 0
      else Ws_Disconnected)"

text \<open>What the window of the desktop shows after the same event, up to the delay.\<close>

fun without_delay :: "wire_state \<Rightarrow> wire_state" where
  "without_delay (Ws_Reconnecting _) = Ws_Reconnecting 0"
| "without_delay s = s"

fun shown_for :: "client_message \<Rightarrow> wire_state" where
  "shown_for (Msg_State s) = without_delay s"
| "shown_for _ = Ws_Disconnected"

lemma jni_protocol:
  "(if ja_protocol (android_payload c pw) = 1 then Checkpoint
    else if ja_protocol (android_payload c pw) = 2 then FortiGate else AnyConnect)
   = (case wc_protocol c of Wire_AnyConnect \<Rightarrow> AnyConnect | Wire_Checkpoint \<Rightarrow> Checkpoint | Wire_FortiGate \<Rightarrow> FortiGate)"
  by (cases "wc_protocol c") (simp_all add: android_payload_def)

lemma ucast_port: "(ucast (ucast (p :: 16 word) :: 32 word) :: 16 word) = p"
  by (rule bit_word_eqI) (auto simp: bit_unsigned_iff dest: bit_imp_le_length)

text \<open>
  On Android the engine gets the configuration the desktop would have given it.
  If no fingerprint is given, or one of 64 hexadecimal digits, the host, port, user,
  protocol, pinned certificate and insecure flag are those the helper would use; the
  realm and the verbosity are lost on the way.  The status reported for each event
  of the engine is that of the desktop, but for the delay.
\<close>

theorem android_agrees:
  assumes "case wc_cert_sha256 c of None \<Rightarrow> True | Some s \<Rightarrow> trim s = [] \<or> list_all is_hexdigit s \<and> length s = 64"
  shows "\<exists>cfg. config_from_wire c password = Inr cfg
      \<and> jni_config (android_payload c password)
          = Returned (Inr (cfg\<lparr>cfg_password := None, cfg_verbose := False, cfg_realm := []\<rparr>))
      \<and> cert_trust_of (cfg\<lparr>cfg_password := None, cfg_verbose := False, cfg_realm := []\<rparr>) = cert_trust_of cfg
    \<and> android_status (jni_state ev) = shown_for (map_event ev)"
proof -
  have status: "android_status (jni_state ev) = shown_for (map_event ev)"
    by (cases ev) (simp_all add: android_status_def)
  have empty: "trim [] = []" by code_simp
  obtain cert where
    desk: "(case wc_cert_sha256 c of
          Some s \<Rightarrow> if trim s \<noteq> [] then
              and_then (map_err show_error (parse_sha256_fingerprint s)) (\<lambda>pin. Inr (Some pin)) else Inr None
        | None \<Rightarrow> Inr None) = Inr cert"
    and jni: "(if trim (ja_cert (android_payload c password)) = [] then Returned (Inr None)
          else jni_parse_fingerprint (ja_cert (android_payload c password))) = Returned (Inr cert)"
  proof (cases "wc_cert_sha256 c")
    case None
    then show ?thesis using that[of None] empty by (simp add: android_payload_def)
  next
    case (Some s)
    show ?thesis
    proof (cases "trim s = []")
      case True
      then show ?thesis using that[of None] Some by (simp add: android_payload_def)
    next
      case False
      then have hex: "list_all is_hexdigit s" "length s = 64" using assms Some by simp_all
      obtain pin where "jni_parse_fingerprint s = Returned (Inr (Some pin))" "parse_sha256_fingerprint s = Inr pin"
        by (rule hex_fingerprint_read[OF hex])
      then show ?thesis using that[of "Some pin"] Some False by (simp add: android_payload_def)
    qed
  qed
  show ?thesis
    unfolding config_from_wire_def desk jni_config_def jni jni_protocol
    using status by (simp add: cert_trust_of_def android_payload_def ucast_port)
qed

lemma android_agrees_witness:
  "\<exists>cfg. config_from_wire (example_wire\<lparr>wc_cert_sha256 := Some (replicate 64 (CHR ''a'')), wc_realm := Some ''r''\<rparr>) ''pw'' = Inr cfg
     \<and> cfg_realm cfg = ''r''
     \<and> jni_config (android_payload (example_wire\<lparr>wc_cert_sha256 := Some (replicate 64 (CHR ''a'')), wc_realm := Some ''r''\<rparr>) ''pw'')
         = Returned (Inr (cfg\<lparr>cfg_password := None, cfg_verbose := False, cfg_realm := []\<rparr>))"
proof -
  let ?w = "example_wire\<lparr>wc_cert_sha256 := Some (replicate 64 (CHR ''a'')), wc_realm := Some ''r''\<rparr>"
  have "list_all is_hexdigit (replicate 64 (CHR ''a''))"
    by (simp add: list_all_iff is_hexdigit_def digit_val.simps Let_def)
  then obtain cfg where cfg: "config_from_wire ?w ''pw'' = Inr cfg"
    "jni_config (android_payload ?w ''pw'') = Returned (Inr (cfg\<lparr>cfg_password := None, cfg_verbose := False, cfg_realm := []\<rparr>))"
    using android_agrees[of ?w "''pw''" Ev_Connecting] by auto
  then have "cfg_realm cfg = ''r''"
    by (auto simp: config_from_wire_def example_wire_def and_then_Inr_iff)
  then show ?thesis using cfg by blast
qed

end
