(* ===== verification/Android_Run.thy ===== *)
theory Android_Run
  imports Gui_Android Gui_Correct
begin

text \<open>
  A whole run of the engine on Android (\<open>jni_bridge.rs\<close>, \<open>runEngine\<close>, and the Android
  entry of \<open>client.rs\<close>): the references to the machine and the callbacks, the
  configuration, the supervised client, and what the callback is told.  A string
  that cannot be read from Java counts as empty.  The routes are the service's:
  the engine's operations on the table do nothing (\<open>routing.rs\<close>, Android).
\<close>

record jni_refs =
  jr_vm :: "string option"
  jr_callback :: "string option"
  jr_tun_vm :: "string option"
  jr_tun_builder :: "string option"
  jr_runtime :: "string option"

text \<open>The errors of the calls, if they fail; without one, everything is in place.\<close>

definition refs_ok :: jni_refs where
  "refs_ok = \<lparr>jr_vm = None, jr_callback = None, jr_tun_vm = None, jr_tun_builder = None, jr_runtime = None\<rparr>"

record java_args =
  jv_host :: "string option"
  jv_port :: "32 word"
  jv_user :: "string option"
  jv_pass :: "string option"
  jv_protocol :: "32 word"
  jv_insecure :: "8 word"
  jv_cert :: "string option"

definition read_args :: "java_args \<Rightarrow> jni_args" where
  "read_args a =
     \<lparr>ja_host = unwrap_or [] (jv_host a), ja_port = jv_port a, ja_user = unwrap_or [] (jv_user a),
      ja_pass = unwrap_or [] (jv_pass a), ja_protocol = jv_protocol a, ja_insecure = (jv_insecure a \<noteq> 0),
      ja_cert = unwrap_or [] (jv_cert a)\<rparr>"

definition android_route_op :: "'os route_op" where
  "android_route_op os r = (None, os)"

text \<open>The events of a run are those it adds to the channel.\<close>

definition run_events :: "'os sys \<Rightarrow> 'os sys \<Rightarrow> client_event list" where
  "run_events c c1 = drop (length (sys_events c)) (sys_events c1)"

definition refs_missing :: "jni_refs \<Rightarrow> bool" where
  "refs_missing refs \<longleftrightarrow>
     jr_vm refs \<noteq> None \<or> jr_callback refs \<noteq> None \<or> jr_tun_vm refs \<noteq> None \<or> jr_tun_builder refs \<noteq> None"

text \<open>
  The callback's states.  A failure to get at the machine or a callback is only
  logged: the callback is told nothing.
\<close>

definition run_engine ::
  "jni_refs \<Rightarrow> java_args \<Rightarrow> attempt_env list \<Rightarrow> 'os sys \<Rightarrow> unit outcome \<times> string list \<times> 'os sys" where
  "run_engine refs java envs c =
     (if refs_missing refs then (Returned (Inr ()), [], c)
      else let a = read_args java in
        (case jni_config a of
           Returned (Inr cfg) \<Rightarrow>
             (case jr_runtime refs of
                Some e \<Rightarrow> (Returned (Inr ()), [''error:'' @ e], c)
              | None \<Rightarrow>
                  (case run_client_supervised android_route_op android_route_op cfg (ja_pass a) envs c of
                     (Returned r, c1) \<Rightarrow> (Returned (Inr ()), jni_states (run_events c c1) r, c1)
                   | (Panicked, c1) \<Rightarrow> (Panicked, map jni_state (run_events c c1), c1)
                   | (Hangs, c1) \<Rightarrow> (Hangs, map jni_state (run_events c c1), c1)))
         | Returned (Inl e) \<Rightarrow> (Returned (Inl e), [], c)
         | Panicked \<Rightarrow> (Panicked, [], c)
         | Hangs \<Rightarrow> (Hangs, [], c)))"

text \<open>What the Kotlin service hands over for a payload: every value as it is.\<close>

definition java_of :: "jni_args \<Rightarrow> java_args" where
  "java_of a = \<lparr>jv_host = Some (ja_host a), jv_port = ja_port a, jv_user = Some (ja_user a), jv_pass = Some (ja_pass a),
     jv_protocol = ja_protocol a, jv_insecure = (if ja_insecure a then 1 else 0), jv_cert = Some (ja_cert a)\<rparr>"

lemma read_args_java_of [simp]: "read_args (java_of a) = a"
  by (simp add: read_args_def java_of_def)

section \<open>The configuration does not matter beyond what it is used for\<close>

text \<open>The client takes the password as an argument, and never looks at the verbosity.\<close>

lemma used_fields:
  "cfg_host (cfg\<lparr>cfg_password := p, cfg_verbose := v\<rparr>) = cfg_host cfg"
  "cfg_port (cfg\<lparr>cfg_password := p, cfg_verbose := v\<rparr>) = cfg_port cfg"
  "cfg_username (cfg\<lparr>cfg_password := p, cfg_verbose := v\<rparr>) = cfg_username cfg"
  "cfg_realm (cfg\<lparr>cfg_password := p, cfg_verbose := v\<rparr>) = cfg_realm cfg"
  "cfg_protocol (cfg\<lparr>cfg_password := p, cfg_verbose := v\<rparr>) = cfg_protocol cfg"
  "cert_trust_of (cfg\<lparr>cfg_password := p, cfg_verbose := v\<rparr>) = cert_trust_of cfg"
  by (simp_all add: cert_trust_of_def)

lemma handshake_ignores:
  "anyconnect_handshake (cfg\<lparr>cfg_password := p, cfg_verbose := v\<rparr>) = anyconnect_handshake cfg"
  by (intro ext) (simp only: anyconnect_handshake_def used_fields)

lemma connects_ignore:
  "connect_anyconnect radd rdel (cfg\<lparr>cfg_password := p, cfg_verbose := v\<rparr>) password env c
     = connect_anyconnect radd rdel cfg password env c"
  "connect_checkpoint radd rdel (cfg\<lparr>cfg_password := p, cfg_verbose := v\<rparr>) password env c
     = connect_checkpoint radd rdel cfg password env c"
  "connect_fortigate radd rdel (cfg\<lparr>cfg_password := p, cfg_verbose := v\<rparr>) password env c
     = connect_fortigate radd rdel cfg password env c"
  by (simp_all only: connect_anyconnect_def connect_checkpoint_def connect_fortigate_def fortigate_login_def
      handshake_ignores used_fields)

lemma connect_ignores:
  "connect radd rdel (cfg\<lparr>cfg_password := p, cfg_verbose := v\<rparr>) password = connect radd rdel cfg password"
  by (intro ext) (simp only: connect_def connects_ignore used_fields)

lemma run_ignores:
  "run_client_supervised radd rdel (cfg\<lparr>cfg_password := p, cfg_verbose := v\<rparr>) password
     = run_client_supervised radd rdel cfg password"
  by (simp add: run_client_supervised_def connect_ignores fun_eq_iff)

section \<open>What is shown\<close>

lemma jni_event_shows:
  "client_step q ev = Some q' \<Longrightarrow> displays q' (android_status (jni_state ev))"
  by (cases "(q, ev)" rule: client_step.cases) (simp_all add: android_status_def)

lemma jni_events_show:
  assumes "client_steps q (evs @ [ev]) = Some q'"
  shows "displays q' (android_status (jni_state ev))"
  using assms by (auto simp: client_steps_append opt_bind_def split: option.splits intro: jni_event_shows)

lemma client_story:
  assumes "run_client_supervised radd rdel cfg password envs c = (r, c1)"
  shows "client_steps client_state.Idle (run_events c c1) \<noteq> None"
    "r = Returned x \<Longrightarrow> client_steps client_state.Idle (run_events c c1) = Some Finished"
    "r = Returned x \<Longrightarrow> run_events c c1 \<noteq> []"
proof -
  obtain evs where evs: "sys_events c1 = sys_events c @ evs" "client_steps client_state.Idle evs \<noteq> None"
    "\<And>x. r = Returned x \<Longrightarrow> client_steps client_state.Idle evs = Some Finished"
    using protocol_ok_story[OF client_protocol_ok[of c radd rdel cfg password envs]] assms by auto
  then have "run_events c c1 = evs" by (simp add: run_events_def)
  then show "client_steps client_state.Idle (run_events c c1) \<noteq> None"
    "r = Returned x \<Longrightarrow> client_steps client_state.Idle (run_events c c1) = Some Finished"
    "r = Returned x \<Longrightarrow> run_events c c1 \<noteq> []"
    using evs(2,3) by auto
qed

lemma steps_show:
  assumes "client_steps client_state.Idle evs \<noteq> None" "j < length evs"
  shows "\<exists>q. client_steps client_state.Idle (take (Suc j) evs) = Some q \<and> displays q (android_status (jni_state (evs ! j)))"
proof -
  have "client_steps client_state.Idle (take (Suc j) evs) \<noteq> None"
    using assms(1) client_steps_append[of client_state.Idle "take (Suc j) evs" "drop (Suc j) evs"] by (auto simp: opt_bind_def split: option.splits)
  then obtain q where q: "client_steps client_state.Idle (take (Suc j) evs) = Some q" by blast
  moreover have "take (Suc j) evs = take j evs @ [evs ! j]" using assms(2) by (rule take_Suc_conv_app_nth)
  ultimately show ?thesis using jni_events_show[of client_state.Idle "take j evs" "evs ! j" q] by auto
qed

lemma android_config:
  assumes "case wc_cert_sha256 w of None \<Rightarrow> True | Some s \<Rightarrow> trim s = [] \<or> list_all is_hexdigit s \<and> length s = 64"
  obtains cfg where "config_from_wire w password = Inr cfg"
    "jni_config (android_payload w password) = Returned (Inr ((cfg\<lparr>cfg_realm := []\<rparr>)\<lparr>cfg_password := None, cfg_verbose := False\<rparr>))"
proof -
  obtain cfg where "config_from_wire w password = Inr cfg"
    "jni_config (android_payload w password) = Returned (Inr (cfg\<lparr>cfg_password := None, cfg_verbose := False, cfg_realm := []\<rparr>))"
    using android_agrees[OF assms] by blast
  then show ?thesis using that by (cases cfg) simp
qed


text \<open>One attempt on a network without the gateway, stopped by then.\<close>

definition android_env :: attempt_env where
  "android_env = example_env\<lparr>ae_shutdown_after := True\<rparr>"

definition android_sys :: "list_table sys" where
  "android_sys = example_sys\<lparr>sys_net := (sys_net example_sys)\<lparr>net_dials := replicate 4 (10, Inl (Tls ''unreachable''))\<rparr>\<rparr>"

lemma android_run_example:
  "\<exists>cfg. config_from_wire example_wire ''pw'' = Inr cfg
    \<and> fst (run_client_supervised android_route_op android_route_op (cfg\<lparr>cfg_realm := []\<rparr>) ''pw'' [android_env] android_sys)
        = Returned (Inr ())
    \<and> length (run_events android_sys (snd (run_client_supervised android_route_op android_route_op (cfg\<lparr>cfg_realm := []\<rparr>)
          ''pw'' [android_env] android_sys))) = 2"
proof -
  let ?cfg = "projr (config_from_wire example_wire ''pw'')"
  have "fst (run_client_supervised android_route_op android_route_op (?cfg\<lparr>cfg_realm := []\<rparr>) ''pw'' [android_env] android_sys)
        = Returned (Inr ())
    \<and> length (run_events android_sys (snd (run_client_supervised android_route_op android_route_op (?cfg\<lparr>cfg_realm := []\<rparr>)
          ''pw'' [android_env] android_sys))) = 2" by code_simp
  moreover have "config_from_wire example_wire ''pw'' = Inr ?cfg" by (simp add: config_from_wire_def example_wire_def)
  ultimately show ?thesis by blast
qed


end
