(* ===== verification/Tls_Connect.thy ===== *)
theory Tls_Connect
  imports Client
begin

text \<open>
  How a TLS connection comes about (\<open>tunnel.rs\<close>, \<open>build_tls_config\<close> and
  \<open>connect_tls\<close>).  The protocol itself is \<open>rustls\<close>'s: a handshake asks the verifier
  of the configuration about the certificate and about the signature, and fails if
  either answer is an error.  The chain check, the signature check and the digest
  are parameters.
\<close>

section \<open>The configuration\<close>

text \<open>\<open>tls_verify\<close> and \<open>tls_signature\<close> are the answers of the installed verifier.\<close>

record crypto =
  cr_webpki :: "bytes \<Rightarrow> string \<Rightarrow> unit result"
  cr_sha256 :: "bytes \<Rightarrow> bytes"
  cr_signature :: "bytes \<Rightarrow> bytes \<Rightarrow> bytes \<Rightarrow> unit result"

record tls_config =
  tls_verify :: "bytes \<Rightarrow> string \<Rightarrow> unit result"
  tls_signature :: "bytes \<Rightarrow> bytes \<Rightarrow> bytes \<Rightarrow> unit result"
  tls_resumption :: bool

definition build_tls_config :: "crypto \<Rightarrow> cert_trust \<Rightarrow> tls_config" where
  "build_tls_config cr trust =
     (case trust of
        Webpki \<Rightarrow> \<lparr>tls_verify = cr_webpki cr, tls_signature = cr_signature cr, tls_resumption = False\<rparr>
      | Pinned pin \<Rightarrow> \<lparr>tls_verify = (\<lambda>cert name. pinned_verify (cr_sha256 cr) pin cert),
          tls_signature = cr_signature cr, tls_resumption = False\<rparr>
      | Insecure \<Rightarrow> \<lparr>tls_verify = (\<lambda>cert name. Inr ()), tls_signature = (\<lambda>msg cert dss. Inr ()),
          tls_resumption = False\<rparr>)"

section \<open>The connection\<close>

text \<open>What the peer presents in the handshake.\<close>

record peer =
  pr_cert :: bytes
  pr_message :: bytes
  pr_signature :: bytes

text \<open>
  \<open>handshake\<close> is \<open>TlsConnector::connect\<close>, \<open>server_name\<close> is \<open>ServerName::try_from\<close>,
  \<open>tcp\<close> the outcome of connecting.  An address becomes a server name that no public
  certificate carries; that is for the chain check to say.
\<close>

definition connect_tls ::
  "crypto \<Rightarrow> (tls_config \<Rightarrow> string \<Rightarrow> peer \<Rightarrow> string + unit) \<Rightarrow> (string \<Rightarrow> string + string)
    \<Rightarrow> (string \<Rightarrow> 16 word \<Rightarrow> io_error + peer) \<Rightarrow> string \<Rightarrow> 16 word \<Rightarrow> cert_trust \<Rightarrow> peer result" where
  "connect_tls cr handshake server_name tcp host port trust =
     (let config = build_tls_config cr trust in
      case server_name host of
        Inl e \<Rightarrow> Inl (Tls (''invalid server name '' @ [CHR 0x27] @ host @ [CHR 0x27] @ '': '' @ e))
      | Inr name \<Rightarrow>
          (case tcp host port of
             Inl e \<Rightarrow> Inl (Io e)
           | Inr p \<Rightarrow>
               (case handshake config name p of
                  Inl e \<Rightarrow> Inl (Tls (''TLS handshake failed: '' @ e))
                | Inr _ \<Rightarrow> Inr p)))"

text \<open>
  What \<open>rustls\<close> documents of a verifier (\<open>ServerCertVerifier\<close>): the handshake completes
  only if the verifier accepted the certificate and the signature made with its key.
\<close>

definition asks_verifier :: "(tls_config \<Rightarrow> string \<Rightarrow> peer \<Rightarrow> string + unit) \<Rightarrow> bool" where
  "asks_verifier handshake \<longleftrightarrow> (\<forall>config name p. handshake config name p = Inr () \<longrightarrow>
     tls_verify config (pr_cert p) name = Inr ()
     \<and> tls_signature config (pr_message p) (pr_cert p) (pr_signature p) = Inr ())"

lemma build_tls_config_simps [simp]:
  "tls_verify (build_tls_config cr trust) = verify_server_cert (cr_webpki cr) (cr_sha256 cr) trust"
  "tls_signature (build_tls_config cr trust) = (if trust = Insecure then (\<lambda>msg cert dss. Inr ()) else cr_signature cr)"
  "tls_resumption (build_tls_config cr trust) = False"
  by (cases trust; auto simp: build_tls_config_def verify_server_cert_def fun_eq_iff)+

text \<open>The verifier that the trust installs has accepted every peer a connection is made to.\<close>

lemma connect_tls_accepted:
  assumes "asks_verifier handshake" "connect_tls cr handshake server_name tcp host port trust = Inr p"
  shows "\<exists>name. server_name host = Inr name \<and> tcp host port = Inr p
      \<and> verify_server_cert (cr_webpki cr) (cr_sha256 cr) trust (pr_cert p) name = Inr ()
      \<and> (trust = Insecure \<or> cr_signature cr (pr_message p) (pr_cert p) (pr_signature p) = Inr ())"
proof -
  obtain name where "server_name host = Inr name" "tcp host port = Inr p" "handshake (build_tls_config cr trust) name p = Inr ()"
    using assms(2) by (auto simp: connect_tls_def Let_def split: sum.splits)
  then show ?thesis using assms(1) by (fastforce simp: asks_verifier_def split: if_splits)
qed

lemma connect_tls_transient: "connect_tls cr handshake server_name tcp host port trust = Inl e \<Longrightarrow> \<not> is_permanent e"
  by (auto simp: connect_tls_def Let_def split: sum.splits)


definition tls_witness_crypto :: crypto where
  "tls_witness_crypto = \<lparr>cr_webpki = (\<lambda>cert name. Inl (Tls ''unknown issuer'')), cr_sha256 = (\<lambda>cert. take 32 cert),
     cr_signature = (\<lambda>msg cert dss. if dss = msg then Inr () else Inl (Tls ''bad signature''))\<rparr>"

definition tls_witness_handshake :: "tls_config \<Rightarrow> string \<Rightarrow> peer \<Rightarrow> string + unit" where
  "tls_witness_handshake config name p =
     (case tls_verify config (pr_cert p) name of
        Inl e \<Rightarrow> Inl (show_error e)
      | Inr _ \<Rightarrow> map_sum show_error id (tls_signature config (pr_message p) (pr_cert p) (pr_signature p)))"

definition tls_witness_config :: config where
  "tls_witness_config = (config_new ''vpn'' 443 ''u'') \<lparr>cfg_cert_sha256 := Some (replicate 32 7), cfg_insecure := True\<rparr>"

definition tls_witness_peer :: "8 word \<Rightarrow> peer" where
  "tls_witness_peer b = \<lparr>pr_cert = replicate 40 b, pr_message = [1], pr_signature = [1]\<rparr>"

lemma tls_witness_handshake_asks: "asks_verifier tls_witness_handshake"
  by (simp add: asks_verifier_def tls_witness_handshake_def split: sum.splits)
    (auto simp: map_sum_def split: sum.splits)

lemma tls_witness_runs:
  "connect_tls tls_witness_crypto tls_witness_handshake Inr (\<lambda>h p. Inr (tls_witness_peer 7))
     (cfg_host tls_witness_config) (cfg_port tls_witness_config) (cert_trust_of tls_witness_config)
     = Inr (tls_witness_peer 7)"
  "\<exists>e. connect_tls tls_witness_crypto tls_witness_handshake Inr (\<lambda>h p. Inr (tls_witness_peer 8))
     (cfg_host tls_witness_config) (cfg_port tls_witness_config) (cert_trust_of tls_witness_config) = Inl e"
  by (code_simp, simp add: connect_tls_def tls_witness_handshake_def tls_witness_crypto_def tls_witness_config_def
      tls_witness_peer_def cert_trust_of_def verify_server_cert_def pinned_verify_def config_new_def)


end
