(* ===== verification/Signals.thy ===== *)
theory Signals
  imports Client
begin

text \<open>
  How a signal of the operating system reaches the loops of the client
  (\<open>signal.rs\<close>, and the task of \<open>run_client\<close> in \<open>client.rs\<close>): a task waits for the
  signal and sets a watch channel, whose sender it owns.
\<close>

section \<open>Waiting for a signal\<close>

datatype wait = Pending | Fired | Task_Panicked

text \<open>
  \<open>ctrl_c\<close> is the result of the listener once there is one, \<open>sigterm\<close> whether the
  handler could be installed and then whether the signal has come.  On Unix the
  result of the listener is ignored, so that its error counts as a signal.
\<close>

definition wait_for_shutdown_unix :: "(string + unit) option \<Rightarrow> string + bool \<Rightarrow> wait" where
  "wait_for_shutdown_unix ctrl_c sigterm =
     (case sigterm of
        Inl e \<Rightarrow> Task_Panicked
      | Inr received \<Rightarrow> if ctrl_c \<noteq> None \<or> received then Fired else Pending)"

definition wait_for_shutdown_windows :: "(string + unit) option \<Rightarrow> wait" where
  "wait_for_shutdown_windows ctrl_c =
     (case ctrl_c of None \<Rightarrow> Pending | Some (Inr _) \<Rightarrow> Fired | Some (Inl e) \<Rightarrow> Task_Panicked)"

section \<open>The channel\<close>

record watch =
  wt_value :: bool
  wt_sender :: bool

definition watch_channel :: watch where
  "watch_channel = \<lparr>wt_value = False, wt_sender = True\<rparr>"

text \<open>The task of \<open>run_client\<close>: the sender goes with the task, however it ends.\<close>

definition signal_task :: "wait \<Rightarrow> watch \<Rightarrow> watch" where
  "signal_task r w =
     (case r of
        Pending \<Rightarrow> w
      | Fired \<Rightarrow> w\<lparr>wt_value := True, wt_sender := False\<rparr>
      | Task_Panicked \<Rightarrow> w\<lparr>wt_sender := False\<rparr>)"

text \<open>
  What a receiver that has seen the first value finds: \<open>borrow\<close> is the value, and
  \<open>changed\<close> is ready if the value was set, or with an error if the sender is gone;
  the loops do not tell the two apart.
\<close>

definition borrow :: "watch \<Rightarrow> bool" where
  "borrow w = wt_value w"

definition changed_ready :: "watch \<Rightarrow> bool" where
  "changed_ready w \<longleftrightarrow> wt_value w \<or> \<not> wt_sender w"

text \<open>
  A pending wait stops nothing, and a signal is seen by both ways of asking.  A task
  that panicked is seen by \<open>changed\<close> alone: the client goes on connecting, and
  leaves the forwarding loop or the backoff as soon as it gets there.
\<close>

lemma signal_seen:
  "changed_ready (signal_task r watch_channel) \<longleftrightarrow> r \<noteq> Pending"
  "borrow (signal_task r watch_channel) \<longleftrightarrow> r = Fired"
  by (cases r; simp add: signal_task_def watch_channel_def changed_ready_def borrow_def)+

text \<open>
  The environment of an attempt as far as the channel goes: the value is asked
  before and after the attempt, \<open>changed\<close> in the forwarding loop and in the backoff.
\<close>

definition heeds :: "watch \<Rightarrow> attempt_env \<Rightarrow> bool" where
  "heeds w env \<longleftrightarrow> ae_shutdown_before env = borrow w \<and> (borrow w \<longrightarrow> ae_shutdown_after env)
     \<and> (changed_ready w \<longrightarrow> ae_shutdown_backoff env)"

text \<open>
  An error of the listener on Unix ends the client without a single attempt, and
  without an error: the exit code is that of a clean stop.
\<close>

lemma listener_error_stops:
  assumes "heeds (signal_task (wait_for_shutdown_unix (Some (Inl e)) (Inr False)) watch_channel) env"
  shows "run_client_supervised radd rdel cfg password (env # envs) c = (Returned (Inr ()), emit Ev_Disconnected c)"
  using assms
  by (simp add: heeds_def wait_for_shutdown_unix_def signal_task_def watch_channel_def borrow_def
      run_client_supervised_def)

end
