(* ===== verification/Helper_Socket.thy ===== *)
theory Helper_Socket
  imports Net_Io
begin

text \<open>
  The Unix transport of the elevated helper (\<open>vpn-helper/src/main.rs\<close>, \<open>unix_impl\<close>):
  a root process that prepares a directory, binds a socket that only one user may
  reach, and serves the first authorized peer.

  The file system is what the calls depend on: the nodes with their owners and
  modes, and the umask of the process.  Every call appends the state it leaves to
  a history, so that a property can be stated of every moment another process could
  see.  A call that the operating system can refuse has an entry in the
  environment.  The log file is not modelled, beyond its directory.
\<close>

unbundle bit_operations_syntax

section \<open>The file system\<close>

datatype node = Dir (node_owner: nat) (node_mode: "12 word") | Sock (node_owner: nat) (node_mode: "12 word") | Link | Other

record fs =
  fs_nodes :: "string \<Rightarrow> node option"
  fs_umask :: "12 word"
  fs_bound :: bool

record os = fs +
  os_hist :: "fs list"

definition seen :: "os \<Rightarrow> os" where
  "seen s = s\<lparr>os_hist := os_hist s @ [fs.truncate s]\<rparr>"

text \<open>The refusals, by path; \<open>None\<close> when the call succeeds.\<close>

record unix_env =
  ue_mkdir :: "string \<Rightarrow> string option"
  ue_lstat :: "string \<Rightarrow> string option"
  ue_chown :: "string \<Rightarrow> string option"
  ue_chmod :: "string \<Rightarrow> string option"
  ue_unlink :: "string \<Rightarrow> string option"
  ue_bind :: "string option"

text \<open>The octal notation of a mode.\<close>

abbreviation perms :: "nat \<Rightarrow> nat \<Rightarrow> nat \<Rightarrow> 12 word" where
  "perms u g o' \<equiv> word_of_nat (u * 64 + g * 8 + o')"

section \<open>System calls\<close>

definition set_node :: "string \<Rightarrow> node option \<Rightarrow> os \<Rightarrow> os" where
  "set_node p n s = seen (s\<lparr>fs_nodes := (fs_nodes s)(p := n)\<rparr>)"

datatype made = Made | Exists | Failed string

text \<open>A new node belongs to root, who runs the helper, with the mode less the umask.\<close>

definition mkdir :: "unix_env \<Rightarrow> string \<Rightarrow> 12 word \<Rightarrow> os \<Rightarrow> made \<times> os" where
  "mkdir env p mode s =
     (if fs_nodes s p \<noteq> None then (Exists, s)
      else case ue_mkdir env p of
        Some e \<Rightarrow> (Failed e, s)
      | None \<Rightarrow> (Made, set_node p (Some (Dir 0 (mode AND NOT (fs_umask s)))) s))"

definition chown :: "unix_env \<Rightarrow> string \<Rightarrow> nat \<Rightarrow> os \<Rightarrow> (string + unit) \<times> os" where
  "chown env p uid s =
     (case ue_chown env p of
        Some e \<Rightarrow> (Inl e, s)
      | None \<Rightarrow> (Inr (), set_node p (map_option (\<lambda>n. case n of Dir _ m \<Rightarrow> Dir uid m | Sock _ m \<Rightarrow> Sock uid m | _ \<Rightarrow> n)
                   (fs_nodes s p)) s))"

definition set_permissions :: "unix_env \<Rightarrow> string \<Rightarrow> 12 word \<Rightarrow> os \<Rightarrow> (string + unit) \<times> os" where
  "set_permissions env p mode s =
     (case ue_chmod env p of
        Some e \<Rightarrow> (Inl e, s)
      | None \<Rightarrow> (Inr (), set_node p (map_option (\<lambda>n. case n of Dir u _ \<Rightarrow> Dir u mode | Sock u _ \<Rightarrow> Sock u mode | _ \<Rightarrow> n)
                   (fs_nodes s p)) s))"

definition remove_file :: "unix_env \<Rightarrow> string \<Rightarrow> os \<Rightarrow> os" where
  "remove_file env p s = (if ue_unlink env p \<noteq> None then s else set_node p None s)"

definition umask :: "12 word \<Rightarrow> os \<Rightarrow> os" where
  "umask m s = seen (s\<lparr>fs_umask := m\<rparr>)"

text \<open>Binding creates the socket with all permissions that the umask allows, and fails on a name in use.\<close>

definition bind :: "unix_env \<Rightarrow> string \<Rightarrow> os \<Rightarrow> (string + unit) \<times> os" where
  "bind env p s =
     (if fs_nodes s p \<noteq> None then (Inl ''address already in use'', s)
      else case ue_bind env of
        Some e \<Rightarrow> (Inl e, s)
      | None \<Rightarrow> (Inr (), set_node p (Some (Sock 0 ((perms 7 7 7) AND NOT (fs_umask s)))) (s\<lparr>fs_bound := True\<rparr>)))"

section \<open>The helper\<close>

definition SOCKET_DIR :: string where "SOCKET_DIR = ''/var/run/yellow-vpn''"
definition SOCKET_PATH :: string where "SOCKET_PATH = ''/var/run/yellow-vpn/helper.sock''"
definition LOG_DIR :: string where "LOG_DIR = ''/var/log/yellow-vpn''"

fun is_dir :: "node option \<Rightarrow> bool" where
  "is_dir (Some (Dir _ _)) = True"
| "is_dir _ = False"

definition ensure_root_dir :: "unix_env \<Rightarrow> string \<Rightarrow> 12 word \<Rightarrow> os \<Rightarrow> (string + unit) \<times> os" where
  "ensure_root_dir env dir mode s =
     (case mkdir env dir mode s of
        (Failed e, s1) \<Rightarrow> (Inl e, s1)
      | (_, s1) \<Rightarrow>
          (case ue_lstat env dir of
             Some e \<Rightarrow> (Inl e, s1)
           | None \<Rightarrow>
               if \<not> is_dir (fs_nodes s1 dir) then (Inl (dir @ '' is not a real directory''), s1)
               else
                 (case chown env dir 0 s1 of
                    (Inl e, s2) \<Rightarrow> (Inl e, s2)
                  | (Inr _, s2) \<Rightarrow> set_permissions env dir mode s2)))"

definition init_log :: "unix_env \<Rightarrow> os \<Rightarrow> os" where
  "init_log env s = snd (ensure_root_dir env LOG_DIR (perms 7 0 0) s)"

definition owner_uid :: "string list \<Rightarrow> nat option" where
  "owner_uid args = (case args of _ # a # _ \<Rightarrow> parse_uint (2 ^ 32) a | _ \<Rightarrow> None)"

text \<open>What \<open>accept\<close> gives: an error, or a peer whose credentials may not be readable.\<close>

datatype accepted = Accept_Error string | Peer "nat option"

text \<open>The peer that is served, if any; no more peers is waiting for ever.\<close>

fun accept_loop :: "nat \<Rightarrow> accepted list \<Rightarrow> nat option outcome" where
  "accept_loop uid [] = Hangs"
| "accept_loop uid (Accept_Error e # rest) = Returned (Inr None)"
| "accept_loop uid (Peer (Some u) # rest) = (if u = uid \<or> u = 0 then Returned (Inr (Some u)) else accept_loop uid rest)"
| "accept_loop uid (Peer None # rest) = accept_loop uid rest"

text \<open>The user served, and the system after; the service itself is in another theory.\<close>

definition unix_main :: "unix_env \<Rightarrow> string list \<Rightarrow> accepted list \<Rightarrow> os \<Rightarrow> nat option outcome \<times> os" where
  "unix_main env args peers s0 =
     (let s = init_log env s0; stop = (\<lambda>s. (Returned (Inr None), s)) in
      case owner_uid args of
        None \<Rightarrow> stop s
      | Some uid \<Rightarrow>
     (case ensure_root_dir env SOCKET_DIR (perms 7 1 1) s of
        (Inl e, s1) \<Rightarrow> stop s1
      | (Inr _, s1) \<Rightarrow>
          let s2 = remove_file env SOCKET_PATH s1;
              prev = fs_umask s2;
              s3 = umask (perms 1 7 7) s2;
              (bound, s4) = bind env SOCKET_PATH s3;
              s5 = umask prev s4 in
          (case bound of
             Inl e \<Rightarrow> stop s5
           | Inr _ \<Rightarrow>
          (case chown env SOCKET_PATH uid s5 of
             (Inl e, s6) \<Rightarrow> stop (remove_file env SOCKET_PATH s6)
           | (Inr _, s6) \<Rightarrow>
          (case set_permissions env SOCKET_PATH (perms 6 0 0) s6 of
             (Inl e, s7) \<Rightarrow> stop (remove_file env SOCKET_PATH s7)
           | (Inr _, s7) \<Rightarrow>
               (case accept_loop uid peers of
                  Returned r \<Rightarrow> (Returned r, remove_file env SOCKET_PATH s7)
                | Panicked \<Rightarrow> (Panicked, s7)
                | Hangs \<Rightarrow> (Hangs, s7)))))))"

section \<open>Who can reach the socket\<close>

text \<open>Connecting needs write permission on the socket; root needs none.  No groups are involved.\<close>

definition can_connect :: "nat \<Rightarrow> fs \<Rightarrow> bool" where
  "can_connect u f \<longleftrightarrow>
     fs_bound f \<and>
     (case fs_nodes f SOCKET_PATH of
        Some (Sock owner mode) \<Rightarrow> u = 0 \<or> (if u = owner then bit mode 7 else bit mode 4 \<or> bit mode 1)
      | _ \<Rightarrow> False)"

text \<open>
  While the helper is bound, its directory is root's and may only be traversed, and
  the socket is not there, or is a socket of root or the user, for the owner only.
\<close>

definition private_to :: "nat \<Rightarrow> fs \<Rightarrow> bool" where
  "private_to uid f \<longleftrightarrow>
     (fs_bound f \<longrightarrow>
       fs_nodes f SOCKET_DIR = Some (Dir 0 (perms 7 1 1)) \<and>
       (case fs_nodes f SOCKET_PATH of
          None \<Rightarrow> True
        | Some (Sock owner mode) \<Rightarrow> (owner = 0 \<or> owner = uid) \<and> mode = perms 6 0 0
        | _ \<Rightarrow> False))"

lemma private_to_can_connect:
  assumes "private_to uid f" "can_connect u f"
  shows "u = 0 \<or> u = uid"
proof -
  have "\<not> bit (perms 6 0 0) 4" "\<not> bit (perms 6 0 0) 1" by (simp_all add: bit_numeral_word_iff)
  then show ?thesis
    using assms by (auto simp: private_to_def can_connect_def split: option.splits node.splits if_splits)
qed

definition guarded :: "nat \<Rightarrow> os \<Rightarrow> bool" where
  "guarded uid s \<longleftrightarrow> private_to uid (fs.truncate s) \<and> list_all (private_to uid) (os_hist s)"

section \<open>The socket is never open to another user\<close>

lemma guarded_seen: "guarded uid (seen s) = guarded uid s"
  by (auto simp: guarded_def seen_def fs.defs)

text \<open>A call that changes only the node \<open>p\<close>, and perhaps begins the binding.\<close>

lemma guarded_set_node:
  assumes "guarded uid s" "private_to uid \<lparr>fs_nodes = (fs_nodes s)(p := n), fs_umask = fs_umask s, fs_bound = fs_bound s\<rparr>"
  shows "guarded uid (set_node p n s)"
  using assms by (simp add: guarded_def set_node_def seen_def fs.defs)

lemma guarded_umask: "guarded uid s \<Longrightarrow> guarded uid (umask m s)"
  by (simp add: umask_def guarded_def seen_def fs.defs private_to_def)

lemma set_node_fields [simp]:
  "fs_nodes (set_node p n s) = (fs_nodes s)(p := n)" "fs_umask (set_node p n s) = fs_umask s"
  "fs_bound (set_node p n s) = fs_bound s"
  by (simp_all add: set_node_def seen_def)

lemma umask_fields [simp]:
  "fs_nodes (umask m s) = fs_nodes s" "fs_umask (umask m s) = m" "fs_bound (umask m s) = fs_bound s"
  by (simp_all add: umask_def seen_def)

lemma unbound_guarded_set_node: "guarded uid s \<Longrightarrow> \<not> fs_bound s \<Longrightarrow> guarded uid (set_node p n s)"
  by (rule guarded_set_node) (simp_all add: private_to_def)

lemma ensure_root_dir_guarded:
  assumes "guarded uid s" "\<not> fs_bound s" "ensure_root_dir env dir mode s = (r, s')"
  shows "guarded uid s'" "\<not> fs_bound s'" "r = Inr () \<Longrightarrow> fs_nodes s' dir = Some (Dir 0 mode)"
proof -
  obtain m s1 where m: "mkdir env dir mode s = (m, s1)" by fastforce
  have s1: "guarded uid s1" "\<not> fs_bound s1"
    using m assms(1,2) unbound_guarded_set_node
    by (auto simp: mkdir_def split: if_splits option.splits)
  have "guarded uid s' \<and> \<not> fs_bound s' \<and> (r = Inr () \<longrightarrow> fs_nodes s' dir = Some (Dir 0 mode))"
    using assms(3) s1
    by (auto simp: ensure_root_dir_def m chown_def set_permissions_def unbound_guarded_set_node
        split: made.splits option.splits if_splits elim!: is_dir.elims)
  then show "guarded uid s'" "\<not> fs_bound s'" "r = Inr () \<Longrightarrow> fs_nodes s' dir = Some (Dir 0 mode)" by auto
qed

lemma accept_loop_peer:
  "accept_loop uid peers = Returned (Inr (Some u)) \<Longrightarrow> u = uid \<or> u = 0"
  by (induction uid peers rule: accept_loop.induct) (auto split: if_splits)

lemma socket_paths [simp]: "SOCKET_DIR \<noteq> SOCKET_PATH" "SOCKET_PATH \<noteq> SOCKET_DIR"
  by (simp_all add: SOCKET_DIR_def SOCKET_PATH_def)

lemma bind_mode: "perms 7 7 7 AND NOT (perms 1 7 7) = perms 6 0 0"
  by code_simp

lemma guarded_remove:
  assumes "guarded uid s"
  shows "guarded uid (remove_file env SOCKET_PATH s)"
proof (cases "ue_unlink env SOCKET_PATH")
  case None
  have "private_to uid (fs.truncate s)" using assms by (simp add: guarded_def)
  then have "private_to uid \<lparr>fs_nodes = (fs_nodes s)(SOCKET_PATH := None), fs_umask = fs_umask s, fs_bound = fs_bound s\<rparr>"
    by (simp add: private_to_def fs.defs)
  then show ?thesis using guarded_set_node[OF assms] None by (simp add: remove_file_def)
qed (use assms in \<open>simp add: remove_file_def\<close>)

lemma remove_file_fields [simp]:
  "fs_bound (remove_file env p s) = fs_bound s" "fs_umask (remove_file env p s) = fs_umask s"
  "fs_nodes (remove_file env SOCKET_PATH s) SOCKET_DIR = fs_nodes s SOCKET_DIR"
  by (simp_all add: remove_file_def)

text \<open>Between the binding and the first peer: the socket is there, private to its owner.\<close>

definition bound_to :: "nat \<Rightarrow> os \<Rightarrow> bool" where
  "bound_to owner s \<longleftrightarrow> fs_bound s \<and> fs_nodes s SOCKET_DIR = Some (Dir 0 (perms 7 1 1))
     \<and> fs_nodes s SOCKET_PATH = Some (Sock owner (perms 6 0 0))"

lemma bind_guarded:
  assumes "guarded uid s" "\<not> fs_bound s" "fs_nodes s SOCKET_DIR = Some (Dir 0 (perms 7 1 1))"
    "fs_umask s = perms 1 7 7" "bind env SOCKET_PATH s = (r, s')"
  shows "guarded uid s' \<and> (case r of Inl e \<Rightarrow> \<not> fs_bound s' | Inr _ \<Rightarrow> bound_to 0 s')"
proof (cases r)
  case (Inl e)
  then show ?thesis using assms by (auto simp: bind_def split: if_splits option.splits)
next
  case (Inr x)
  let ?s = "s\<lparr>fs_bound := True\<rparr>"
  have s': "s' = set_node SOCKET_PATH (Some (Sock 0 (perms 6 0 0))) ?s"
    using Inr assms(4,5) bind_mode by (auto simp: bind_def split: if_splits option.splits)
  have "private_to uid \<lparr>fs_nodes = (fs_nodes s)(SOCKET_PATH := Some (Sock 0 (perms 6 0 0))),
      fs_umask = fs_umask s, fs_bound = True\<rparr>"
    using assms(3) by (simp add: private_to_def)
  then have "guarded uid s'"
    using assms(1) by (simp add: s' guarded_def set_node_def seen_def fs.defs)
  then show ?thesis using Inr assms(3) by (simp add: s' bound_to_def)
qed

lemma change_bound:
  assumes "guarded uid s" "bound_to owner s" "owner' = 0 \<or> owner' = uid"
  shows "guarded uid (set_node SOCKET_PATH (Some (Sock owner' (perms 6 0 0))) s)"
    "bound_to owner' (set_node SOCKET_PATH (Some (Sock owner' (perms 6 0 0))) s)"
  using assms guarded_set_node[OF assms(1), of SOCKET_PATH "Some (Sock owner' (perms 6 0 0))"]
  by (simp_all add: bound_to_def private_to_def)

definition boot :: "(string \<Rightarrow> node option) \<Rightarrow> 12 word \<Rightarrow> os" where
  "boot nodes um = \<lparr>fs_nodes = nodes, fs_umask = um, fs_bound = False, os_hist = []\<rparr>"

lemma unix_main_guarded:
  assumes "owner_uid args = Some uid" "unix_main env args peers (boot nodes um) = (r, s)"
  shows "guarded uid s"
proof -
  have boot: "guarded uid (boot nodes um)" "\<not> fs_bound (boot nodes um)"
    by (simp_all add: boot_def guarded_def private_to_def fs.defs)
  define s0 where "s0 = init_log env (boot nodes um)"
  have s0: "guarded uid s0" "\<not> fs_bound s0"
    using ensure_root_dir_guarded(1,2)[OF boot] by (simp_all add: s0_def init_log_def) (metis prod.collapse)+
  obtain q s1 where e: "ensure_root_dir env SOCKET_DIR (perms 7 1 1) s0 = (q, s1)" by fastforce
  note s1 = ensure_root_dir_guarded[OF s0 e]
  let ?s3 = "umask (perms 1 7 7) (remove_file env SOCKET_PATH s1)"
  obtain b s4 where b: "bind env SOCKET_PATH ?s3 = (b, s4)" by fastforce
  show ?thesis
  proof (cases "\<exists>e. q = Inl e")
    case True
    then show ?thesis using assms e s1(1) by (auto simp: unix_main_def s0_def Let_def)
  next
    case False
    then have q: "q = Inr ()" by (cases q) auto
    have s4: "guarded uid s4 \<and> (case b of Inl e \<Rightarrow> \<not> fs_bound s4 | Inr _ \<Rightarrow> bound_to 0 s4)"
      by (rule bind_guarded[OF guarded_umask[OF guarded_remove[OF s1(1)]] _ _ _ b]) (use s1 q in simp_all)
    let ?s5 = "umask (fs_umask s1) s4"
    have s5: "guarded uid ?s5" using s4 guarded_umask by blast
    show ?thesis
    proof (cases b)
      case (Inl e')
      then show ?thesis using assms e q b s5 by (simp add: unix_main_def s0_def Let_def)
    next
      case (Inr u)
      then have bound: "bound_to 0 ?s5" using s4 by (simp add: bound_to_def)
      note rest = assms(2)[unfolded unix_main_def s0_def[symmetric] Let_def]
      have "set_node SOCKET_PATH (Some (Sock uid (perms 6 0 0))) ?s5 = snd (chown env SOCKET_PATH uid ?s5)"
        if "ue_chown env SOCKET_PATH = None"
        using that bound by (simp add: chown_def bound_to_def)
      note owned = change_bound[OF s5 bound, of uid]
      let ?s6 = "set_node SOCKET_PATH (Some (Sock uid (perms 6 0 0))) ?s5"
      note final = change_bound[OF owned, of uid]
      show ?thesis
        using rest assms(1) e q b Inr s5 bound owned final guarded_remove
        by (auto simp: chown_def set_permissions_def bound_to_def split: option.splits outcome.splits)
    qed
  qed
qed

lemma unix_main_refused: "owner_uid args = None \<Longrightarrow> unix_main env args peers s = (Returned (Inr None), init_log env s)"
  by (simp add: unix_main_def Let_def)

lemma unix_main_served:
  assumes "owner_uid args = Some uid" "unix_main env args peers s0 = (Returned (Inr (Some u)), s)"
  shows "u = 0 \<or> u = uid"
proof -
  have "accept_loop uid peers = Returned (Inr (Some u))"
    using assms by (auto simp: unix_main_def Let_def split: sum.splits prod.splits outcome.splits)
  then show ?thesis using accept_loop_peer by blast
qed


definition no_refusals :: unix_env where
  "no_refusals = \<lparr>ue_mkdir = (\<lambda>_. None), ue_lstat = (\<lambda>_. None), ue_chown = (\<lambda>_. None), ue_chmod = (\<lambda>_. None),
     ue_unlink = (\<lambda>_. None), ue_bind = None\<rparr>"


lemma stranger_then_user: "accept_loop 1000 [Peer (Some 1001), Peer None, Peer (Some 1000)] = Returned (Inr (Some 1000))"
  by simp

end
