(* ===== verification/Helper_Pipe.thy ===== *)
theory Helper_Pipe
  imports Net_Io
begin

text \<open>
  The Windows transport of the elevated helper (\<open>vpn-helper/src/main.rs\<close>,
  \<open>windows_impl\<close>): the access control list of the pipe and what happens when it
  cannot be built.  The calls of the system are inputs; the log is not modelled.
\<close>

section \<open>The pipe\<close>

datatype pipe_error = Sd_Build string | Create string

text \<open>
  \<open>wn_convert\<close> makes a security descriptor of its text, \<open>wn_create\<close> a first instance of
  the pipe with that descriptor, or with the default one.
\<close>

record 'sd win_env =
  wn_sid :: "string + string"
  wn_convert :: "string \<Rightarrow> string + 'sd"
  wn_create :: "'sd option \<Rightarrow> string + unit"
  wn_connect :: "string + unit"

definition sddl :: "string \<Rightarrow> string" where
  "sddl sid = ''D:P(A;;GA;;;SY)(A;;GA;;;BA)(A;;GA;;;'' @ sid @ '')''"

definition create_restricted_pipe :: "'sd win_env \<Rightarrow> pipe_error + unit" where
  "create_restricted_pipe env =
     and_then (map_err Sd_Build (wn_sid env)) (\<lambda>sid.
     and_then (map_err Sd_Build (wn_convert env (sddl sid))) (\<lambda>sd.
     map_err Create (wn_create env (Some sd))))"

text \<open>How the pipe that is served was made, if one is.\<close>

datatype served = Restricted | Default_Acl

definition windows_main :: "'sd win_env \<Rightarrow> served option" where
  "windows_main env =
     (case (case create_restricted_pipe env of
              Inr _ \<Rightarrow> Some Restricted
            | Inl (Sd_Build e) \<Rightarrow> (case wn_create env None of Inr _ \<Rightarrow> Some Default_Acl | Inl e \<Rightarrow> None)
            | Inl (Create e) \<Rightarrow> None) of
        None \<Rightarrow> None
      | Some how \<Rightarrow> (case wn_connect env of Inr _ \<Rightarrow> Some how | Inl e \<Rightarrow> None))"

section \<open>What the descriptor grants\<close>

text \<open>The entries of a protected list, each of the form \<open>(A;;GA;;;trustee)\<close>: the trustees.\<close>

fun trustee :: "string \<Rightarrow> (string \<times> string) option" where
  "trustee [] = None"
| "trustee (c # s) =
     (if c = CHR '')'' then Some ([], s)
      else if c = CHR '';'' \<or> c = CHR ''('' then None
      else map_option (\<lambda>(t, r). (c # t, r)) (trustee s))"

fun aces :: "nat \<Rightarrow> string \<Rightarrow> string list option" where
  "aces 0 s = None"
| "aces (Suc n) s =
     (if s = [] then Some []
      else case strip_prefix ''(A;;GA;;;'' s of
        None \<Rightarrow> None
      | Some s1 \<Rightarrow> (case trustee s1 of None \<Rightarrow> None | Some (t, s2) \<Rightarrow> map_option (\<lambda>ts. t # ts) (aces n s2)))"

definition granted :: "string \<Rightarrow> string list option" where
  "granted s = (case strip_prefix ''D:P'' s of None \<Rightarrow> None | Some s1 \<Rightarrow> aces (length s) s1)"

lemma trustee_plain:
  "(\<forall>c \<in> set t. c \<noteq> CHR '')'' \<and> c \<noteq> CHR '';'' \<and> c \<noteq> CHR ''('') \<Longrightarrow> trustee (t @ CHR '')'' # r) = Some (t, r)"
  by (induction t) auto

lemma sddl_grants:
  assumes "\<forall>c \<in> set sid. c \<noteq> CHR '')'' \<and> c \<noteq> CHR '';'' \<and> c \<noteq> CHR ''(''"
  shows "granted (sddl sid) = Some [''SY'', ''BA'', sid]"
proof -
  have user: "trustee (sid @ '')'') = Some (sid, [])" using trustee_plain[OF assms, of "[]"] by simp
  obtain n where n: "length (sddl sid) = Suc (Suc (Suc (Suc n)))" by (simp add: sddl_def)
  show ?thesis
    unfolding granted_def n by (simp add: sddl_def strip_prefix_def user)
qed

text \<open>The default list is used exactly when the descriptor could not be built.\<close>

lemma windows_main_default:
  "windows_main env = Some Default_Acl \<Longrightarrow>
     \<not> is_ok (wn_sid env) \<or> (\<exists>sid. wn_sid env = Inr sid \<and> \<not> is_ok (wn_convert env (sddl sid)))"
  by (cases "wn_sid env"; cases "wn_convert env (sddl (projr (wn_sid env)))";
      cases "wn_create env (Some (projr (wn_convert env (sddl (projr (wn_sid env))))))")
     (auto simp: windows_main_def create_restricted_pipe_def is_ok_def split: option.splits sum.splits)

lemma windows_main_restricted:
  "windows_main env = Some Restricted \<Longrightarrow>
     \<exists>sid sd. wn_sid env = Inr sid \<and> wn_convert env (sddl sid) = Inr sd \<and> wn_create env (Some sd) = Inr ()"
  by (cases "wn_sid env"; cases "wn_convert env (sddl (projr (wn_sid env)))";
      cases "wn_create env (Some (projr (wn_convert env (sddl (projr (wn_sid env))))))")
     (auto simp: windows_main_def create_restricted_pipe_def split: option.splits sum.splits)

end
