(* ===== verification/Helper_Sid.thy ===== *)
theory Helper_Sid
  imports Helper_Pipe
begin

text \<open>
  How the elevated helper finds out on Windows whose pipe it serves
  (\<open>vpn-helper/src/main.rs\<close>, \<open>current_user_sid_string\<close>): the token of the process,
  the two calls for its user, the text of the identifier.  The answers of the
  system are inputs; the resources it hands out, and what is given back, are
  recorded in the order of the calls.
\<close>

section \<open>Wide strings\<close>

text \<open>The UTF-8 text of a scalar value.\<close>

definition utf8_of :: "nat \<Rightarrow> string" where
  "utf8_of c =
     (if c < 0x80 then [char_of c]
      else if c < 0x800 then [char_of (0xC0 + c div 64), char_of (0x80 + c mod 64)]
      else if c < 0x10000 then
        [char_of (0xE0 + c div 4096), char_of (0x80 + c div 64 mod 64), char_of (0x80 + c mod 64)]
      else [char_of (0xF0 + c div 262144), char_of (0x80 + c div 4096 mod 64), char_of (0x80 + c div 64 mod 64),
        char_of (0x80 + c mod 64)])"

definition high_surrogate :: "16 word \<Rightarrow> bool" where
  "high_surrogate u \<longleftrightarrow> 0xD800 \<le> u \<and> u < 0xDC00"

definition low_surrogate :: "16 word \<Rightarrow> bool" where
  "low_surrogate u \<longleftrightarrow> 0xDC00 \<le> u \<and> u < 0xE000"

text \<open>\<open>String::from_utf16_lossy\<close>: a surrogate without its partner becomes a replacement character.\<close>

fun utf16_lossy :: "16 word list \<Rightarrow> string" where
  "utf16_lossy [] = []"
| "utf16_lossy [u] = (if high_surrogate u \<or> low_surrogate u then replacement else utf8_of (unat u))"
| "utf16_lossy (u # v # us) =
     (if high_surrogate u \<and> low_surrogate v then
        utf8_of (0x10000 + (unat u - 0xD800) * 0x400 + (unat v - 0xDC00)) @ utf16_lossy us
      else (if high_surrogate u \<or> low_surrogate u then replacement else utf8_of (unat u)) @ utf16_lossy (v # us))"

text \<open>The text before the terminating zero, which the system puts there; the memory behind it is never read.\<close>

definition wide_text :: "16 word list \<Rightarrow> string" where
  "wide_text mem = utf16_lossy (takeWhile (\<lambda>u. u \<noteq> 0) mem)"

section \<open>The lookup\<close>

datatype win_call = Open_Token | Close_Handle | Allocate | Local_Free

text \<open>
  \<open>se_needed\<close> is the size that the first query reports, \<open>se_info\<close> the user of the token
  when the buffer has that size, \<open>se_convert\<close> whether the conversion succeeded and
  the memory it allocated; \<open>se_error\<close> is the last error after each number of calls.
\<close>

record 'sid sid_env =
  se_open :: bool
  se_needed :: nat
  se_info :: "nat \<Rightarrow> 'sid option"
  se_convert :: "'sid \<Rightarrow> bool \<times> 16 word list option"
  se_error :: "nat \<Rightarrow> string"

definition current_user_sid :: "'sid sid_env \<Rightarrow> (string + string) \<times> win_call list" where
  "current_user_sid env =
     (if \<not> se_open env then (Inl (se_error env 1), [])
      else if se_needed env = 0 then (Inl (se_error env 2), [Open_Token, Close_Handle])
      else case se_info env (se_needed env) of
        None \<Rightarrow> (Inl (se_error env 3), [Open_Token, Close_Handle])
      | Some sid \<Rightarrow>
          (case se_convert env sid of
             (True, Some mem) \<Rightarrow> (Inr (wide_text mem), [Open_Token, Allocate, Close_Handle, Local_Free])
           | _ \<Rightarrow> (Inl (se_error env 5), [Open_Token, Close_Handle])))"

text \<open>Whatever fails, a token that was opened is closed, and a text that was allocated is freed, once.\<close>

lemma current_user_sid_balanced:
  "case current_user_sid env of (r, calls) \<Rightarrow>
     count_list calls Close_Handle = count_list calls Open_Token \<and> count_list calls Local_Free = count_list calls Allocate
     \<and> count_list calls Open_Token \<le> 1 \<and> (is_ok r \<longleftrightarrow> Allocate \<in> set calls)"
  by (auto simp: current_user_sid_def is_ok_def split: option.splits prod.splits bool.splits)

text \<open>The text of an identifier is ASCII: it arrives as it is, whatever follows it in memory.\<close>

lemma utf16_lossy_ascii: "list_all (\<lambda>c. code c < 128) s \<Longrightarrow> utf16_lossy (map (\<lambda>c. word_of_nat (code c)) s) = s"
proof (induction s rule: induct_list012)
  case (2 c)
  then have "unat (word_of_nat (code c) :: 16 word) = code c" by (simp add: unat_of_nat)
  then show ?case using 2 by (simp add: high_surrogate_def low_surrogate_def utf8_of_def word_le_nat_alt)
next
  case (3 c d s)
  then have "unat (word_of_nat (code c) :: 16 word) = code c" by (simp add: unat_of_nat)
  then show ?case using 3 by (simp add: high_surrogate_def low_surrogate_def utf8_of_def word_le_nat_alt)
qed simp

lemma current_user_sid_text:
  assumes "se_open env" "0 < se_needed env" "se_info env (se_needed env) = Some sid"
    "se_convert env sid = (True, Some (map (\<lambda>c. word_of_nat (code c)) s @ 0 # garbage))"
    "list_all (\<lambda>c. 0 < code c \<and> code c < 128) s"
  shows "fst (current_user_sid env) = Inr s"
proof -
  have "(word_of_nat (code c) :: 16 word) \<noteq> 0" if "c \<in> set s" for c
  proof
    assume "(word_of_nat (code c) :: 16 word) = 0"
    moreover have "unat (word_of_nat (code c) :: 16 word) = code c" "0 < code c"
      using assms(5) that by (auto simp: unat_of_nat list_all_iff)
    ultimately show False by simp
  qed
  then have "takeWhile (\<lambda>u. u \<noteq> 0) (map (\<lambda>c. word_of_nat (code c)) s @ 0 # garbage) = (map (\<lambda>c. word_of_nat (code c)) s :: 16 word list)"
    by (subst takeWhile_append2) auto
  then have "wide_text (map (\<lambda>c. word_of_nat (code c)) s @ 0 # garbage) = s"
    using assms(5) utf16_lossy_ascii by (simp add: wide_text_def list_all_iff)
  then show ?thesis using assms(1-4) by (simp add: current_user_sid_def)
qed

end
