(* ===== verification/Platform.thy ===== *)
theory Platform
  imports Session_Params Errors
begin

text \<open>
  The platform layer of the engine: the checks before a start
  (\<open>platform/linux.rs\<close>, \<open>macos.rs\<close>, \<open>windows.rs\<close>), the opening of the device
  (\<open>tun_device.rs\<close>) and, on Android, of the device of the system's VPN service
  (\<open>jni_bridge.rs\<close>).  The operating system and the \<open>tun\<close> crate are parameters: what
  they are asked is modelled, what they answer is an input.
\<close>

section \<open>Checks\<close>

definition linux_privileges :: "bool \<Rightarrow> unit result" where
  "linux_privileges is_root =
     (if is_root then Inr ()
      else Inl (Privilege ''Root privileges required (CAP_NET_ADMIN). Run with: sudo vpn-client''))"

definition linux_tun :: "(string \<Rightarrow> bool) \<Rightarrow> unit result" where
  "linux_tun file_exists =
     (if file_exists ''/dev/net/tun'' then Inr ()
      else Inl (Tun_Unavailable ''/dev/net/tun is missing. Load the TUN kernel module: sudo modprobe tun''))"

definition macos_privileges :: "bool \<Rightarrow> unit result" where
  "macos_privileges is_root =
     (if is_root then Inr () else Inl (Privilege ''Root privileges required on macOS. Run with: sudo vpn-client''))"

definition macos_tun :: "unit result" where
  "macos_tun = Inr ()"

text \<open>
  \<open>open_token\<close> says whether the process token can be opened, \<open>elevation\<close> what the query
  of its elevation gives; a failure counts as not elevated.  The token is closed
  whenever it was opened.
\<close>

definition is_elevated :: "bool \<Rightarrow> nat option \<Rightarrow> bool \<times> nat" where
  "is_elevated open_token elevation =
     (if \<not> open_token then (False, 0)
      else ((case elevation of Some v \<Rightarrow> v \<noteq> 0 | None \<Rightarrow> False), 1))"

definition windows_privileges :: "bool \<Rightarrow> nat option \<Rightarrow> unit result" where
  "windows_privileges open_token elevation =
     (if fst (is_elevated open_token elevation) then Inr ()
      else Inl (Privilege (''Administrator privileges required. Right-click the terminal and choose ''
        @ [CHR 0x27] @ ''Run as administrator'' @ [CHR 0x27] @ ''.'')))"

definition windows_join :: "string \<Rightarrow> string \<Rightarrow> string" where
  "windows_join d n = (if d = [] \<or> last d \<in> {CHR 0x5C, CHR ''/''} then d @ n else d @ [CHR 0x5C] @ n)"

text \<open>The directory of the program and the system root, if they are known.\<close>

definition wintun_candidates :: "string option \<Rightarrow> string option \<Rightarrow> string list" where
  "wintun_candidates exe_dir sysroot =
     (case exe_dir of Some d \<Rightarrow> [windows_join d ''wintun.dll''] | None \<Rightarrow> [])
     @ (case sysroot of Some d \<Rightarrow> [windows_join (windows_join d ''System32'') ''wintun.dll''] | None \<Rightarrow> [])"

definition windows_tun :: "(string \<Rightarrow> bool) \<Rightarrow> string option \<Rightarrow> string option \<Rightarrow> unit result" where
  "windows_tun file_exists exe_dir sysroot =
     (if list_ex file_exists (wintun_candidates exe_dir sysroot) then Inr ()
      else Inl (Tun_Unavailable (''wintun.dll not found. Download it from https://www.wintun.net/ and place ''
        @ ''wintun.dll next to vpn-client.exe (or in System32).'')))"

section \<open>The device\<close>

definition HOST_NETMASK :: ipv4 where
  "HOST_NETMASK = Ipv4 255 255 255 255"

record tun_config =
  tc_address :: "ipv4 option"
  tc_netmask :: "ipv4 option"
  tc_mtu :: "16 word option"
  tc_up :: bool
  tc_name :: "string option"
  tc_fd :: "int option"

definition tun_config_default :: tun_config where
  "tun_config_default = \<lparr>tc_address = None, tc_netmask = None, tc_mtu = None, tc_up = False, tc_name = None, tc_fd = None\<rparr>"

definition config_mtu :: "session_params \<Rightarrow> 16 word" where
  "config_mtu p = sp_mtu p"

definition tun_request :: "bool \<Rightarrow> session_params \<Rightarrow> tun_config" where
  "tun_request windows p = tun_config_default\<lparr>tc_address := Some (sp_address p), tc_netmask := Some HOST_NETMASK,
     tc_mtu := Some (config_mtu p), tc_up := True, tc_name := (if windows then Some ''YellowVPN'' else None)\<rparr>"

text \<open>\<open>create\<close> is \<open>create_as_async\<close>, \<open>tun_name\<close> the name of the device it made.\<close>

definition open_tun ::
  "(tun_config \<Rightarrow> string + 'dev) \<Rightarrow> ('dev \<Rightarrow> string + string) \<Rightarrow> bool \<Rightarrow> session_params \<Rightarrow> ('dev \<times> string) result" where
  "open_tun create tun_name windows p =
     and_then (map_err (\<lambda>e. Tun (''failed to create TUN device: '' @ e)) (create (tun_request windows p))) (\<lambda>device.
     and_then (map_err (\<lambda>e. Tun (''failed to read TUN interface name: '' @ e)) (tun_name device)) (\<lambda>name.
     Inr (device, name)))"

definition if_index_unix :: "(string \<Rightarrow> string + nat) \<Rightarrow> string \<Rightarrow> nat result" where
  "if_index_unix lookup name =
     map_err (\<lambda>e. Routing (''failed to resolve interface index for '' @ [CHR 0x27] @ name @ [CHR 0x27] @ '': '' @ e)) (lookup name)"

text \<open>Windows: by way of the interface's locally unique identifier; the codes are those of the system.\<close>

definition if_index_windows :: "(string \<Rightarrow> nat \<times> 'luid) \<Rightarrow> ('luid \<Rightarrow> nat \<times> nat) \<Rightarrow> string \<Rightarrow> nat result" where
  "if_index_windows alias_to_luid luid_to_index name =
     (case alias_to_luid name of (err, luid) \<Rightarrow>
        if err \<noteq> 0 then Inl (Routing (''ConvertInterfaceAliasToLuid failed for adapter '' @ [CHR 0x27] @ name @ [CHR 0x27]
            @ '' (code '' @ show_nat err @ '')''))
        else case luid_to_index luid of (err2, index) \<Rightarrow>
          if err2 \<noteq> 0 then Inl (Routing (''ConvertInterfaceLuidToIndex failed for adapter '' @ [CHR 0x27] @ name @ [CHR 0x27]
              @ '' (code '' @ show_nat err2 @ '')''))
          else Inr index)"

section \<open>The device of the Android service\<close>

text \<open>
  The open descriptors.  \<open>dup\<close> is the descriptor that duplicating gives, or the error;
  \<open>create\<close> wraps it.  On failure the duplicate is closed.
\<close>

definition open_tun_from_fd ::
  "string + int \<Rightarrow> (tun_config \<Rightarrow> string option) \<Rightarrow> int \<Rightarrow> session_params \<Rightarrow> int set \<Rightarrow> (int \<times> string) result \<times> int set" where
  "open_tun_from_fd dup create fd p fds =
     (case dup of
        Inl e \<Rightarrow> (Inl (Tun (''dup() of VpnService TUN fd failed: '' @ e)), fds)
      | Inr d \<Rightarrow>
          (case create (tun_config_default\<lparr>tc_fd := Some d, tc_mtu := Some (config_mtu p)\<rparr>) of
             None \<Rightarrow> (Inr (d, ''tun-android''), insert d fds)
           | Some e \<Rightarrow> (Inl (Tun (''failed to wrap android TUN fd: '' @ e)), insert d fds - {d})))"

text \<open>The call of \<open>configure\<close>: \<open>attach\<close> and \<open>new_string\<close> may fail, and \<open>call\<close> is what Kotlin answers.\<close>

definition tun_factory ::
  "string option \<Rightarrow> (string \<Rightarrow> string option) \<Rightarrow> (string \<Rightarrow> int \<Rightarrow> string \<Rightarrow> string + int) \<Rightarrow> session_params \<Rightarrow> int result" where
  "tun_factory attach new_string call p =
     (case attach of
        Some e \<Rightarrow> Inl (Tun (''attach for tun builder: '' @ e))
      | None \<Rightarrow>
     (let addr = show_ipv4 (sp_address p); dns = join '','' (map show_ipv4 (sp_dns p)) in
     (case new_string addr of
        Some e \<Rightarrow> Inl (Tun e)
      | None \<Rightarrow>
     (case new_string dns of
        Some e \<Rightarrow> Inl (Tun e)
      | None \<Rightarrow>
     (case call addr (uint (sp_mtu p)) dns of
        Inl e \<Rightarrow> Inl (Tun (''tun configure call: '' @ e))
      | Inr fd \<Rightarrow>
          if fd < 0 then Inl (Tun ''VpnService.Builder.establish() failed (fd < 0)'') else Inr fd)))))"

section \<open>What holds of them\<close>

text \<open>
  A failed check is permanent, so the client does not retry it; a failure to open
  the device or to find its index is not, so it does.
\<close>

lemma checks_permanent:
  "case linux_privileges r of Inl e \<Rightarrow> is_permanent e | Inr _ \<Rightarrow> r"
  "case linux_tun ex of Inl e \<Rightarrow> is_permanent e | Inr _ \<Rightarrow> ex ''/dev/net/tun''"
  "case windows_privileges t v of Inl e \<Rightarrow> is_permanent e | Inr _ \<Rightarrow> t \<and> v \<noteq> None \<and> v \<noteq> Some 0"
  by (auto simp: linux_privileges_def linux_tun_def windows_privileges_def is_elevated_def split: option.splits if_splits)

lemma device_errors_transient:
  "open_tun create nm windows p = Inl e \<Longrightarrow> \<not> is_permanent e"
  "if_index_unix lookup n = Inl e \<Longrightarrow> \<not> is_permanent e"
  "if_index_windows a b n = Inl e \<Longrightarrow> \<not> is_permanent e"
  "fst (open_tun_from_fd d c fd p fds) = Inl e \<Longrightarrow> \<not> is_permanent e"
  "tun_factory at ns call p = Inl e \<Longrightarrow> \<not> is_permanent e"
  subgoal by (cases "create (tun_request windows p)"; cases "nm (projr (create (tun_request windows p)))")
      (auto simp: open_tun_def)
  subgoal by (cases "lookup n") (auto simp: if_index_unix_def)
  subgoal by (auto simp: if_index_windows_def split: prod.splits if_splits)
  subgoal by (auto simp: open_tun_from_fd_def split: sum.splits option.splits)
  subgoal by (auto simp: tun_factory_def Let_def split: option.splits sum.splits if_splits)
  done

text \<open>
  The device owns a descriptor of its own: whatever happens, the one the service
  owns stays open, and a failure leaves no new one behind.
\<close>

lemma open_tun_from_fd_descriptors:
  assumes "fd \<in> fds" "case dup of Inr d \<Rightarrow> d \<notin> fds | Inl e \<Rightarrow> True"
  shows "case open_tun_from_fd dup create fd p fds of
     (Inr (d, n), fds') \<Rightarrow> d \<noteq> fd \<and> fds' - {d} = fds
   | (Inl e, fds') \<Rightarrow> fds' = fds"
  using assms by (auto simp: open_tun_from_fd_def split: sum.splits option.splits)

text \<open>The name server list reaches the service as it is: the commas separate the addresses again.\<close>

lemma tun_factory_asks:
  assumes "tun_factory at ns call p = Inr fd"
  shows "call (show_ipv4 (sp_address p)) (uint (sp_mtu p)) (join '','' (map show_ipv4 (sp_dns p))) = Inr fd \<and> 0 \<le> fd"
  using assms by (auto simp: tun_factory_def Let_def split: option.splits sum.splits if_splits)

end
