(* ===== verification/Spawn.thy ===== *)
theory Spawn
  imports Cli_Profile Platform
begin

text \<open>
  How the desktop backend starts and reaches the elevated helper
  (\<open>src-tauri/src/pipe.rs\<close>): the checks of the helper's path, the commands for macOS
  and Linux, and the loop that waits for the socket.  What the commands mean to
  AppleScript and to the shell is written out to state that nothing in the path can
  be taken for a command.
\<close>

section \<open>The helper's path\<close>

text \<open>\<open>exe\<close> is the directory of the running program, if it can be found and has one.\<close>

definition helper_path :: "string + string option \<Rightarrow> string + string" where
  "helper_path exe =
     and_then exe (\<lambda>dir. and_then (ok_or ''no exe dir'' dir) (\<lambda>d. Inr (path_join d ''yellow-vpn-helper'')))"

text \<open>\<open>char::is_control\<close>: the category Cc.\<close>

definition is_control :: "string \<Rightarrow> bool" where
  "is_control c =
     (case c of
        [a] \<Rightarrow> code a < 0x20 \<or> code a = 0x7F
      | [a, b] \<Rightarrow> code a = 0xC2 \<and> 0x80 \<le> code b \<and> code b < 0xA0
      | _ \<Rightarrow> False)"

definition unsafe_chars :: "char set" where
  "unsafe_chars = {CHR 0x27, CHR 0x22, CHR 0x5C, CHR ''`'', CHR ''$''}"

section \<open>macOS\<close>

definition macos_script :: "string \<Rightarrow> nat \<Rightarrow> string" where
  "macos_script path uid =
     (let shell_cmd = [CHR 0x27] @ path @ [CHR 0x27] @ '' '' @ show_nat uid @ '' >/dev/null 2>&1 &'' in
      ''do shell script '' @ [CHR 0x22] @ shell_cmd @ [CHR 0x22] @ '' with administrator privileges'')"

definition macos_command :: "string + string option \<Rightarrow> nat \<Rightarrow> string + string list" where
  "macos_command exe uid =
     and_then (helper_path exe) (\<lambda>path.
       if \<not> utf8_valid (bytes_of_str path) then Inl ''helper path is not valid UTF-8''
       else if (\<exists>c \<in> set path. c \<in> unsafe_chars) \<or> list_ex is_control (chars path) then
         Inl ''helper path contains characters unsafe for privileged execution''
       else Inr [''osascript'', ''-e'', macos_script path uid])"

text \<open>\<open>status\<close> is what running the command gives: an error, or whether it succeeded.\<close>

definition spawn_macos :: "string + string option \<Rightarrow> nat \<Rightarrow> (string list \<Rightarrow> string + bool) \<Rightarrow> string + unit" where
  "spawn_macos exe uid status =
     and_then (macos_command exe uid) (\<lambda>cmd.
     and_then (status cmd) (\<lambda>ok. if ok then Inr () else Inl ''elevation cancelled or failed''))"

section \<open>Linux\<close>

definition linux_command :: "string + string option \<Rightarrow> nat \<Rightarrow> string + string list" where
  "linux_command exe uid =
     and_then (helper_path exe) (\<lambda>path.
       if \<not> utf8_valid (bytes_of_str path) then Inl ''helper path is not valid UTF-8''
       else if \<not> prefix ''/'' path \<or> list_ex is_control (chars path) then
         Inl (''helper path is not a plain absolute path '' @ [CHR 0xE2, CHR 0x80, CHR 0x94] @ '' refusing privileged spawn'')
       else Inr [''pkexec'', path, show_nat uid])"

datatype spawn_error = Not_Found | Spawn_Error string

definition spawn_linux :: "string + string option \<Rightarrow> nat \<Rightarrow> (string list \<Rightarrow> spawn_error + unit) \<Rightarrow> string + unit" where
  "spawn_linux exe uid start =
     and_then (linux_command exe uid) (\<lambda>cmd.
       case start cmd of
         Inr _ \<Rightarrow> Inr ()
       | Inl Not_Found \<Rightarrow>
           Inl (''pkexec not found '' @ [CHR 0xE2, CHR 0x80, CHR 0x94]
                @ '' install polkit, or run the helper manually as root: sudo '' @ cmd ! 1 @ '' '' @ cmd ! 2)
       | Inl (Spawn_Error e) \<Rightarrow> Inl e)"

section \<open>Windows\<close>

text \<open>
  The path goes to the system as it is, with a terminating zero, and no arguments;
  \<open>shell_execute\<close> is its answer to a verb and a file, a number above 32 on success.
\<close>

definition helper_path_windows :: "string + string option \<Rightarrow> string + string" where
  "helper_path_windows exe =
     and_then exe (\<lambda>dir. and_then (ok_or ''no exe dir'' dir) (\<lambda>d. Inr (windows_join d ''yellow-vpn-helper.exe'')))"

definition spawn_windows :: "string + string option \<Rightarrow> (string \<Rightarrow> string \<Rightarrow> int) \<Rightarrow> string + unit" where
  "spawn_windows exe shell_execute =
     and_then (helper_path_windows exe) (\<lambda>path.
       if shell_execute ''runas'' path \<le> 32 then Inl ''elevation cancelled or failed (UAC)'' else Inr ())"

section \<open>Waiting for the helper\<close>

text \<open>The loop is the same on every platform; on Windows it opens the pipe, and the last error says so.\<close>

text \<open>
  \<open>open_at k\<close> is the outcome of the \<open>k\<close>-th attempt to open the socket.  The results
  carry the time slept, in milliseconds.
\<close>

fun poll_helper :: "(nat \<Rightarrow> 'c option) \<Rightarrow> nat \<Rightarrow> nat \<Rightarrow> nat \<Rightarrow> (string + 'c) \<times> nat" where
  "poll_helper open_at k 0 slept = (Inl ''helper did not come up (socket never appeared)'', slept)"
| "poll_helper open_at k (Suc n) slept =
     (case open_at k of
        Some c \<Rightarrow> (Inr c, slept)
      | None \<Rightarrow> poll_helper open_at (k + 1) n (slept + 100))"

definition connect_with_spawn :: "(nat \<Rightarrow> 'c option) \<Rightarrow> string + unit \<Rightarrow> (string + 'c) \<times> nat" where
  "connect_with_spawn open_at spawn =
     (case open_at 0 of
        Some c \<Rightarrow> (Inr c, 0)
      | None \<Rightarrow>
          (case spawn of
             Inl e \<Rightarrow> (Inl e, 0)
           | Inr _ \<Rightarrow> poll_helper open_at 1 150 0))"

section \<open>What the script means\<close>

text \<open>An AppleScript string literal, after its opening quote: the text, and what follows it.\<close>

fun as_literal :: "string \<Rightarrow> (string \<times> string) option" where
  "as_literal [] = None"
| "as_literal (c # s) =
     (if c = CHR 0x22 then Some ([], s)
      else if c = CHR 0x5C then (case s of [] \<Rightarrow> None | d # t \<Rightarrow> map_option (\<lambda>(a, r). (d # a, r)) (as_literal t))
      else map_option (\<lambda>(a, r). (c # a, r)) (as_literal s))"

text \<open>The shell command of a \<open>do shell script\<close> statement that asks for administrator privileges, and nothing else.\<close>

definition shell_script_of :: "string \<Rightarrow> string option" where
  "shell_script_of script =
     opt_bind (strip_prefix (''do shell script '' @ [CHR 0x22]) script) (\<lambda>s.
     opt_bind (as_literal s) (\<lambda>(cmd, rest). if rest = '' with administrator privileges'' then Some cmd else None))"

text \<open>
  The words of a simple shell command, by spaces and single quotes; \<open>None\<close> if there
  is anything else outside quotes that the shell would expand or run.  The
  redirections and the final ampersand are words of their own.
\<close>

definition shell_active :: "char set" where
  "shell_active = {CHR ''$'', CHR ''`'', CHR 0x5C, CHR 0x22, CHR '';'', CHR ''|'', CHR ''('', CHR '')'', CHR ''*'', CHR ''?'',
     CHR ''['', CHR ''~'', CHR ''#'', CHR ''{'', CHR 0x0A}"

fun sh_words :: "bool \<Rightarrow> string option \<Rightarrow> string \<Rightarrow> string list option" where
  "sh_words quoted w [] = (if quoted then None else Some (case w of None \<Rightarrow> [] | Some x \<Rightarrow> [x]))"
| "sh_words quoted w (c # s) =
     (if quoted then
        (if c = CHR 0x27 then sh_words False w s else sh_words True (Some (unwrap_or [] w @ [c])) s)
      else if c = CHR 0x27 then sh_words True (Some (unwrap_or [] w)) s
      else if c = CHR '' '' then
        (case w of None \<Rightarrow> sh_words False None s | Some x \<Rightarrow> map_option (\<lambda>ws. x # ws) (sh_words False None s))
      else if c \<in> shell_active then None
      else sh_words False (Some (unwrap_or [] w @ [c])) s)"

lemma as_literal_plain:
  "(\<forall>c \<in> set s. c \<noteq> CHR 0x22 \<and> c \<noteq> CHR 0x5C) \<Longrightarrow> as_literal (s @ CHR 0x22 # rest) = Some (s, rest)"
  by (induction s) auto

lemma sh_words_quoted:
  "(\<forall>c \<in> set p. c \<noteq> CHR 0x27) \<Longrightarrow> sh_words True (Some w) (p @ CHR 0x27 # s) = sh_words False (Some (w @ p)) s"
  by (induction p arbitrary: w) auto

lemma sh_words_plain:
  "(\<forall>c \<in> set p. c \<noteq> CHR 0x27 \<and> c \<noteq> CHR '' '' \<and> c \<notin> shell_active) \<Longrightarrow>
   sh_words False (Some w) (p @ s) = sh_words False (Some (w @ p)) s"
  by (induction p arbitrary: w) auto

lemma sh_words_start:
  assumes "p \<noteq> []" "\<forall>c \<in> set p. c \<noteq> CHR 0x27 \<and> c \<noteq> CHR '' '' \<and> c \<notin> shell_active"
  shows "sh_words False None (p @ s) = sh_words False (Some p) s"
  using assms sh_words_plain[of "tl p" "[hd p]" s] by (cases p) simp_all

text \<open>
  C30: nothing in the helper's path can become a command run as root.  Whenever the
  script is built at all, AppleScript reads it as one \<open>do shell script\<close> statement with
  one string, and the shell reads that string as a command whose program is exactly
  the path of the helper, whose only argument is the user's number, in the
  background with its output discarded.
\<close>

theorem macos_script_safe:
  assumes "macos_command exe uid = Inr cmd"
  shows "\<exists>path script shell_cmd. helper_path exe = Inr path \<and> cmd = [''osascript'', ''-e'', script]
    \<and> shell_script_of script = Some shell_cmd
    \<and> sh_words False None shell_cmd = Some [path, show_nat uid, ''>/dev/null'', ''2>&1'', ''&'']"
proof -
  obtain path where path: "helper_path exe = Inr path" "cmd = [''osascript'', ''-e'', macos_script path uid]"
    and safe: "\<And>c. c \<in> set path \<Longrightarrow> c \<notin> unsafe_chars"
    using assms by (auto simp: macos_command_def and_then_Inr_iff split: if_splits)
  have digit: "c \<noteq> CHR 0x22 \<and> c \<noteq> CHR 0x5C \<and> c \<noteq> CHR 0x27 \<and> c \<noteq> CHR '' '' \<and> c \<notin> shell_active"
    if "c \<in> set (show_nat uid)" for c
  proof -
    have "48 \<le> code c \<and> code c \<le> 57" using that set_show_nat by blast
    then show ?thesis by (auto simp: shell_active_def)
  qed
  let ?cmd = "CHR 0x27 # path @ CHR 0x27 # CHR '' '' # show_nat uid @ '' >/dev/null 2>&1 &''"
  have script: "macos_script path uid = (''do shell script '' @ [CHR 0x22]) @ ?cmd @ CHR 0x22 # '' with administrator privileges''"
    by (simp add: macos_script_def Let_def)
  have "as_literal (?cmd @ CHR 0x22 # '' with administrator privileges'') = Some (?cmd, '' with administrator privileges'')"
    using safe digit by (intro as_literal_plain) (auto simp: unsafe_chars_def)
  then have "shell_script_of (macos_script path uid) = Some ?cmd"
    unfolding shell_script_of_def script by (simp add: strip_prefix_def opt_bind_def)
  moreover have "sh_words False None ?cmd = Some [path, show_nat uid, ''>/dev/null'', ''2>&1'', ''&'']"
  proof -
    have "sh_words False None ?cmd = sh_words False (Some path) (CHR '' '' # show_nat uid @ '' >/dev/null 2>&1 &'')"
      using sh_words_quoted[of path "[]"] safe by (auto simp: unsafe_chars_def)
    also have "\<dots> = map_option (\<lambda>ws. path # ws) (sh_words False None (show_nat uid @ '' >/dev/null 2>&1 &''))"
      by simp
    also have "sh_words False None (show_nat uid @ '' >/dev/null 2>&1 &'')
        = sh_words False (Some (show_nat uid)) '' >/dev/null 2>&1 &''"
      using sh_words_start[of "show_nat uid"] digit by simp
    also have "\<dots> = Some [show_nat uid, ''>/dev/null'', ''2>&1'', ''&'']"
      by (simp add: shell_active_def)
    finally show ?thesis by simp
  qed
  ultimately show ?thesis using path by blast
qed

lemma macos_script_safe_witness:
  "\<exists>script shell_cmd. macos_command (Inr (Some ''/Applications/Yellow VPN.app/Contents/MacOS'')) 501 = Inr [''osascript'', ''-e'', script]
    \<and> shell_script_of script = Some shell_cmd
    \<and> sh_words False None shell_cmd = Some [''/Applications/Yellow VPN.app/Contents/MacOS/yellow-vpn-helper'', show_nat 501,
         ''>/dev/null'', ''2>&1'', ''&'']"
proof -
  let ?exe = "Inr (Some ''/Applications/Yellow VPN.app/Contents/MacOS'') :: string + string option"
  have "is_ok (macos_command ?exe 501)" by code_simp
  then obtain cmd where cmd: "macos_command ?exe 501 = Inr cmd" by (auto simp: is_ok_def split: sum.splits)
  moreover have "helper_path ?exe = Inr ''/Applications/Yellow VPN.app/Contents/MacOS/yellow-vpn-helper''" by code_simp
  ultimately show ?thesis using macos_script_safe[OF cmd] by auto
qed

section \<open>The wait is bounded\<close>

lemma poll_helper_found:
  "poll_helper open_at k n slept = (Inr c, t) \<Longrightarrow>
     \<exists>i < n. open_at (k + i) = Some c \<and> (\<forall>j < i. open_at (k + j) = None) \<and> t = slept + 100 * i"
proof (induction open_at k n slept rule: poll_helper.induct)
  case (2 open_at k n slept)
  show ?case
  proof (cases "open_at k")
    case None
    then obtain i where i: "i < n" "open_at (k + 1 + i) = Some c" "\<forall>j < i. open_at (k + 1 + j) = None"
      "t = slept + 100 + 100 * i" using 2 by auto
    have "open_at (k + j) = None" if "j < Suc i" for j using that i(3) None by (cases j) auto
    then show ?thesis using i by (intro exI[of _ "Suc i"]) auto
  qed (use 2 in auto)
qed simp

lemma poll_helper_not_found:
  "poll_helper open_at k n slept = (Inl e, t) \<Longrightarrow> (\<forall>j < n. open_at (k + j) = None) \<and> t = slept + 100 * n"
proof (induction open_at k n slept rule: poll_helper.induct)
  case (2 open_at k n slept)
  then have rec: "open_at k = None" "\<forall>j < n. open_at (k + 1 + j) = None" "t = slept + 100 + 100 * n"
    by (auto split: option.splits)
  have "open_at (k + j) = None" if "j < Suc n" for j using that rec(1,2) by (cases j) auto
  then show ?case using rec(3) by simp
qed simp

text \<open>
  The helper is started only when none answers, and at most once; the wait for it
  is bounded.  A connection is the first of at most 151 attempts that succeeds, and
  giving up takes exactly fifteen seconds, or no time at all when the elevation was
  refused.
\<close>

theorem connect_with_spawn_outcome:
  "case connect_with_spawn open_at spawn of
     (Inr c, t) \<Rightarrow> \<exists>k \<le> 150. open_at k = Some c \<and> (\<forall>j < k. open_at j = None) \<and> t = 100 * (k - 1)
        \<and> (0 < k \<longrightarrow> spawn = Inr ())
   | (Inl e, t) \<Rightarrow> open_at 0 = None
        \<and> (spawn = Inl e \<and> t = 0 \<or> spawn = Inr () \<and> (\<forall>j \<le> 150. open_at j = None) \<and> t = 15000)"
proof (cases "open_at 0")
  case (Some c)
  then show ?thesis by (auto simp: connect_with_spawn_def)
next
  case None
  show ?thesis
  proof (cases spawn)
    case (Inl e)
    then show ?thesis using None by (simp add: connect_with_spawn_def)
  next
    case (Inr x)
    obtain r t where p: "poll_helper open_at 1 150 0 = (r, t)" by fastforce
    have run: "connect_with_spawn open_at spawn = (r, t)" using None Inr p by (simp add: connect_with_spawn_def)
    show ?thesis
    proof (cases r)
      case (Inl e)
      have all: "\<forall>j < 150. open_at (1 + j) = None" "t = 15000"
        using poll_helper_not_found p Inl by fastforce+
      have "open_at j = None" if "j \<le> 150" for j using that None all(1) by (cases j) auto
      then show ?thesis using run Inl all(2) None \<open>spawn = Inr x\<close> by simp
    next
      case (Inr c)
      obtain i where i: "i < 150" "open_at (1 + i) = Some c" "\<forall>j < i. open_at (1 + j) = None" "t = 100 * i"
        using poll_helper_found[of open_at 1 150 0 c t] p Inr by auto
      have "open_at j = None" if "j < Suc i" for j using that None i(3) by (cases j) auto
      then show ?thesis using run Inr i \<open>spawn = Inr x\<close> by (auto intro!: exI[of _ "Suc i"])
    qed
  qed
qed

lemma connect_with_spawn_outcome_witness:
  "\<exists>t. connect_with_spawn (\<lambda>k. if k = 3 then Some ''pipe'' else None) (Inr ()) = (Inr ''pipe'', t) \<and> t = 200"
proof -
  let ?open = "\<lambda>k :: nat. if k = 3 then Some ''pipe'' else None"
  obtain t where run: "connect_with_spawn ?open (Inr ()) = (Inr ''pipe'', t)"
    by (simp add: connect_with_spawn_def eval_nat_numeral)
  then show ?thesis using connect_with_spawn_outcome[of ?open "Inr ()"] by (auto split: if_splits)
qed

end
