(* ===== verification/Profile_Store.thy ===== *)
theory Profile_Store
  imports Cli_Profile "HOL-Library.Multiset"
begin

text \<open>
  The connection profiles of the desktop backend (\<open>src-tauri/src/profiles.rs\<close>): one
  table of a SQLite database.  The statements are modelled by what SQL says of them:
  an \<open>INTEGER PRIMARY KEY AUTOINCREMENT\<close> gives numbers that are never used again,
  \<open>INSERT\<close>, \<open>UPDATE\<close> and \<open>DELETE\<close> with a key act on one row, \<open>ADD COLUMN\<close> leaves \<open>NULL\<close> in
  the rows there are.  In which order \<open>ORDER BY\<close> leaves rows of the same name is up to
  the library: a parameter.  Errors of the disk are not modelled.
\<close>

section \<open>The file\<close>

text \<open>\<open>db_path\<close> (\<open>lib.rs\<close>): the directory for data of the user, by platform; creating it may fail silently.\<close>

definition data_dir_windows :: "string option \<Rightarrow> string \<Rightarrow> string" where
  "data_dir_windows appdata temp = unwrap_or temp appdata"

definition data_dir_macos :: "string option \<Rightarrow> string \<Rightarrow> string" where
  "data_dir_macos home_dir temp = unwrap_or temp (map_option (\<lambda>h. path_join h ''Library/Application Support'') home_dir)"

definition data_dir_linux :: "string option \<Rightarrow> string option \<Rightarrow> string \<Rightarrow> string" where
  "data_dir_linux xdg home_dir temp =
     (case xdg of Some d \<Rightarrow> d | None \<Rightarrow> unwrap_or temp (map_option (\<lambda>h. path_join h ''.local/share'') home_dir))"

definition db_path :: "string \<Rightarrow> string" where
  "db_path base = path_join (path_join base ''yellow-vpn'') ''profiles.db''"

section \<open>The table\<close>

record new_profile =
  np_name :: string
  np_host :: string
  np_port :: "16 word"
  np_username :: string
  np_password :: string
  np_protocol :: string
  np_insecure :: bool
  np_cert :: "string option"
  np_realm :: "string option"

text \<open>A row as it is stored: integers for the port and the flag.\<close>

record row =
  rw_id :: int
  rw_name :: string
  rw_host :: string
  rw_port :: int
  rw_username :: string
  rw_password :: string
  rw_protocol :: string
  rw_insecure :: int
  rw_cert :: "string option"
  rw_realm :: "string option"

text \<open>\<open>db_created\<close> is whether the table exists, \<open>db_sequence\<close> the last number given out.\<close>

record db =
  db_created :: bool
  db_has_realm :: bool
  db_rows :: "row list"
  db_sequence :: int

datatype db_error = Query_Returned_No_Rows | Integral_Value_Out_Of_Range | Sqlite_Full | No_Such_Table

section \<open>The operations\<close>

text \<open>\<open>CREATE TABLE IF NOT EXISTS\<close>, without the column \<open>realm\<close>.\<close>

definition create_table :: "db \<Rightarrow> db" where
  "create_table d =
     (if db_created d then d else d\<lparr>db_created := True, db_has_realm := False, db_rows := [], db_sequence := 0\<rparr>)"

definition add_realm :: "db \<Rightarrow> db" where
  "add_realm d = d\<lparr>db_has_realm := True, db_rows := map (\<lambda>r. r\<lparr>rw_realm := None\<rparr>) (db_rows d)\<rparr>"

definition db_init :: "db \<Rightarrow> db" where
  "db_init d = (let d1 = create_table d in if db_has_realm d1 then d1 else add_realm d1)"

definition row_to_profile :: "row \<Rightarrow> db_error + int \<times> new_profile" where
  "row_to_profile r =
     (if rw_port r < 0 \<or> 65536 \<le> rw_port r then Inl Integral_Value_Out_Of_Range
      else Inr (rw_id r, \<lparr>np_name = rw_name r, np_host = rw_host r, np_port = word_of_int (rw_port r),
        np_username = rw_username r, np_password = rw_password r, np_protocol = rw_protocol r,
        np_insecure = (rw_insecure r \<noteq> 0), np_cert = rw_cert r, np_realm = rw_realm r\<rparr>))"

definition row_of :: "int \<Rightarrow> new_profile \<Rightarrow> row" where
  "row_of i p = \<lparr>rw_id = i, rw_name = np_name p, rw_host = np_host p, rw_port = uint (np_port p),
     rw_username = np_username p, rw_password = np_password p, rw_protocol = np_protocol p,
     rw_insecure = (if np_insecure p then 1 else 0), rw_cert = np_cert p, rw_realm = np_realm p\<rparr>"

definition db_get :: "int \<Rightarrow> db \<Rightarrow> db_error + int \<times> new_profile" where
  "db_get i d = (case find (\<lambda>r. rw_id r = i) (db_rows d) of None \<Rightarrow> Inl Query_Returned_No_Rows | Some r \<Rightarrow> row_to_profile r)"

definition db_create :: "new_profile \<Rightarrow> db \<Rightarrow> (db_error + int \<times> new_profile) \<times> db" where
  "db_create p d =
     (if \<not> db_created d then (Inl No_Such_Table, d)
      else if db_sequence d = 2 ^ 63 - 1 then (Inl Sqlite_Full, d)
      else let i = db_sequence d + 1;
               d1 = d\<lparr>db_rows := db_rows d @ [row_of i p], db_sequence := i\<rparr> in
           (db_get i d1, d1))"

definition db_update :: "int \<Rightarrow> new_profile \<Rightarrow> db \<Rightarrow> (db_error + int \<times> new_profile) \<times> db" where
  "db_update i p d =
     (if \<not> db_created d then (Inl No_Such_Table, d)
      else let d1 = d\<lparr>db_rows := map (\<lambda>r. if rw_id r = i then row_of i p else r) (db_rows d)\<rparr> in
           (db_get i d1, d1))"

definition db_delete :: "int \<Rightarrow> db \<Rightarrow> (db_error + unit) \<times> db" where
  "db_delete i d =
     (if \<not> db_created d then (Inl No_Such_Table, d)
      else (Inr (), d\<lparr>db_rows := filter (\<lambda>r. rw_id r \<noteq> i) (db_rows d)\<rparr>))"

fun collect_rows :: "row list \<Rightarrow> db_error + (int \<times> new_profile) list" where
  "collect_rows [] = Inr []"
| "collect_rows (r # rs) = and_then (row_to_profile r) (\<lambda>p. and_then (collect_rows rs) (\<lambda>ps. Inr (p # ps)))"

definition db_list :: "(row list \<Rightarrow> row list) \<Rightarrow> db \<Rightarrow> db_error + (int \<times> new_profile) list" where
  "db_list order_by d = (if \<not> db_created d then Inl No_Such_Table else collect_rows (order_by (db_rows d)))"

section \<open>The store as a map\<close>

text \<open>Rows that the program has written, with the key as SQLite keeps it.\<close>

definition db_ok :: "db \<Rightarrow> bool" where
  "db_ok d \<longleftrightarrow> db_created d \<and> db_has_realm d \<and> distinct (map rw_id (db_rows d))
     \<and> list_all (\<lambda>r. 0 < rw_id r \<and> rw_id r \<le> db_sequence d \<and> (\<exists>p. r = row_of (rw_id r) p)) (db_rows d)
     \<and> 0 \<le> db_sequence d \<and> db_sequence d < 2 ^ 63"

definition profiles_of :: "db \<Rightarrow> int \<Rightarrow> new_profile option" where
  "profiles_of d i = (case db_get i d of Inr (_, p) \<Rightarrow> Some p | Inl _ \<Rightarrow> None)"

lemma row_to_profile_row_of [simp]: "row_to_profile (row_of i p) = Inr (i, p)"
proof -
  have "uint (np_port p) < 65536" using uint_lt2p[of "np_port p"] by simp
  then show ?thesis by (simp add: row_to_profile_def row_of_def)
qed

lemma row_of_id [simp]: "rw_id (row_of i p) = i" "rw_name (row_of i p) = np_name p"
  by (simp_all add: row_of_def)

lemma find_map_id:
  "find (\<lambda>r. rw_id r = i) (map (\<lambda>r. if rw_id r = j then row_of j p else r) rows)
   = map_option (\<lambda>r. if rw_id r = j then row_of j p else r) (find (\<lambda>r. rw_id r = i) rows)"
  by (induction rows) auto

lemma find_filter_id:
  "find (\<lambda>r. rw_id r = i) (filter (\<lambda>r. rw_id r \<noteq> j) rows) = (if i = j then None else find (\<lambda>r. rw_id r = i) rows)"
  by (induction rows) auto

lemma find_append_id:
  "find (\<lambda>r. rw_id r = i) (rows @ [q]) =
     (case find (\<lambda>r. rw_id r = i) rows of Some r \<Rightarrow> Some r | None \<Rightarrow> if rw_id q = i then Some q else None)"
  by (induction rows) auto

lemma find_row:
  "db_ok d \<Longrightarrow> find (\<lambda>r. rw_id r = i) (db_rows d) = Some r \<Longrightarrow> \<exists>p. r = row_of i p \<and> 0 < i \<and> i \<le> db_sequence d"
  by (auto simp: db_ok_def list_all_iff find_Some_iff)

lemma db_get_ok:
  assumes "db_ok d"
  shows "db_get i d = (case profiles_of d i of Some p \<Rightarrow> Inr (i, p) | None \<Rightarrow> Inl Query_Returned_No_Rows)"
  using find_row[OF assms, of i]
  by (cases "find (\<lambda>r. rw_id r = i) (db_rows d)") (auto simp: db_get_def profiles_of_def)

lemma profiles_of_new:
  assumes "db_ok d" "profiles_of d i = Some p"
  shows "0 < i \<and> i \<le> db_sequence d"
  using find_row[OF assms(1), of i] assms(2)
  by (cases "find (\<lambda>r. rw_id r = i) (db_rows d)") (auto simp: db_get_def profiles_of_def)

section \<open>The operations on the map\<close>

lemma db_create_ok:
  assumes "db_ok d" "db_sequence d < 2 ^ 63 - 1"
  defines "i \<equiv> db_sequence d + 1"
  shows "\<exists>d'. db_create p d = (Inr (i, p), d') \<and> db_ok d' \<and> profiles_of d' = (profiles_of d)(i \<mapsto> p)
     \<and> db_sequence d' = i"
proof -
  let ?d = "d\<lparr>db_rows := db_rows d @ [row_of i p], db_sequence := i\<rparr>"
  have fresh: "find (\<lambda>r. rw_id r = i) (db_rows d) = None"
    using assms(1) by (auto simp: find_None_iff db_ok_def list_all_iff i_def)
  have ok: "db_ok ?d" using assms(1,2) by (force simp: db_ok_def list_all_iff i_def)
  have "profiles_of ?d j = ((profiles_of d)(i \<mapsto> p)) j" for j
    using fresh by (auto simp: profiles_of_def db_get_def find_append_id split: option.splits)
  moreover have "db_get i ?d = Inr (i, p)" using fresh by (simp add: db_get_def find_append_id)
  ultimately show ?thesis using assms(1,2) ok by (auto simp: db_create_def db_ok_def Let_def i_def)
qed

lemma db_update_ok:
  assumes "db_ok d"
  shows "\<exists>d'. db_update i p d =
       ((case profiles_of d i of Some _ \<Rightarrow> Inr (i, p) | None \<Rightarrow> Inl Query_Returned_No_Rows), d')
     \<and> db_ok d' \<and> db_sequence d' = db_sequence d
     \<and> profiles_of d' = (case profiles_of d i of Some _ \<Rightarrow> (profiles_of d)(i \<mapsto> p) | None \<Rightarrow> profiles_of d)"
proof -
  let ?d = "d\<lparr>db_rows := map (\<lambda>r. if rw_id r = i then row_of i p else r) (db_rows d)\<rparr>"
  have ids: "map rw_id (db_rows ?d) = map rw_id (db_rows d)" by simp
  have ok: "db_ok ?d" using assms unfolding db_ok_def ids by (auto simp: list_all_iff)
  have "profiles_of ?d j = (case profiles_of d i of Some _ \<Rightarrow> (profiles_of d)(i \<mapsto> p) | None \<Rightarrow> profiles_of d) j" for j
    using find_row[OF assms, of j] find_row[OF assms, of i]
    by (cases "find (\<lambda>r. rw_id r = j) (db_rows d)"; cases "find (\<lambda>r. rw_id r = i) (db_rows d)")
       (auto simp: profiles_of_def db_get_def find_map_id)
  then have map: "profiles_of ?d = (case profiles_of d i of Some _ \<Rightarrow> (profiles_of d)(i \<mapsto> p) | None \<Rightarrow> profiles_of d)"
    by (rule ext)
  have "db_created d" using assms by (simp add: db_ok_def)
  then show ?thesis
    using ok map db_get_ok[OF ok, of i] by (auto simp: db_update_def Let_def split: option.splits)
qed

lemma db_delete_ok:
  assumes "db_ok d"
  shows "\<exists>d'. db_delete i d = (Inr (), d') \<and> db_ok d' \<and> profiles_of d' = (profiles_of d)(i := None)
     \<and> db_sequence d' = db_sequence d"
proof -
  let ?d = "d\<lparr>db_rows := filter (\<lambda>r. rw_id r \<noteq> i) (db_rows d)\<rparr>"
  have "db_ok ?d" using assms by (auto simp: db_ok_def list_all_iff distinct_map_filter)
  moreover have "profiles_of ?d j = ((profiles_of d)(i := None)) j" for j
    by (simp add: profiles_of_def db_get_def find_filter_id)
  ultimately show ?thesis using assms by (auto simp: db_delete_def db_ok_def)
qed

lemma collect_rows_ok:
  "list_all (\<lambda>r. \<exists>p. r = row_of (rw_id r) p) rows \<Longrightarrow>
   \<exists>ps. collect_rows rows = Inr ps \<and> map (\<lambda>(i, p). row_of i p) ps = rows"
proof (induction rows)
  case (Cons r rows)
  then obtain ps p where ps: "collect_rows rows = Inr ps" "map (\<lambda>(i, p). row_of i p) ps = rows"
    and p: "r = row_of (rw_id r) p" by auto
  have "row_to_profile r = Inr (rw_id r, p)" using row_to_profile_row_of[of "rw_id r" p] p by simp
  then show ?case using ps p by auto
qed simp

lemma row_of_inject: "row_of i p = row_of j q \<longleftrightarrow> i = j \<and> p = q"
  by (metis row_to_profile_row_of prod.inject sum.inject(2))

lemma profiles_of_row:
  assumes "db_ok d"
  shows "profiles_of d i = Some p \<longleftrightarrow> row_of i p \<in> set (db_rows d)"
proof
  assume "profiles_of d i = Some p"
  then obtain r where r: "find (\<lambda>r. rw_id r = i) (db_rows d) = Some r"
    by (cases "find (\<lambda>r. rw_id r = i) (db_rows d)") (auto simp: profiles_of_def db_get_def)
  then obtain q where q: "r = row_of i q" using find_row[OF assms] by blast
  then have "q = p" using r \<open>profiles_of d i = Some p\<close> by (simp add: profiles_of_def db_get_def)
  moreover have "r \<in> set (db_rows d)" using r by (auto simp: find_Some_iff)
  ultimately show "row_of i p \<in> set (db_rows d)" using q by simp
next
  assume mem: "row_of i p \<in> set (db_rows d)"
  then obtain r where r: "find (\<lambda>r. rw_id r = i) (db_rows d) = Some r"
    by (cases "find (\<lambda>r. rw_id r = i) (db_rows d)") (auto simp: find_None_iff)
  then have "r \<in> set (db_rows d)" "rw_id r = i" by (auto simp: find_Some_iff)
  then have "r = row_of i p"
    using mem assms inj_onD[of rw_id "set (db_rows d)" r "row_of i p"] by (simp add: db_ok_def distinct_map)
  then show "profiles_of d i = Some p" using r by (simp add: profiles_of_def db_get_def)
qed

section \<open>The contract\<close>

text \<open>
  C27: the profile store is a map from numbers to profiles.  On a database in the state
  the program keeps, creating a profile adds it under a number that was never used
  before, also not by a deleted profile, and returns it unchanged; updating
  replaces exactly the profile with that number, and fails without a change if there
  is none; deleting removes it and nothing else; and the list holds exactly the
  profiles of the map, in the order of their names.
\<close>

theorem store_refines_map:
  assumes "db_ok d" "db_sequence d < 2 ^ 63 - 1"
    "mset (order_by (db_rows d)) = mset (db_rows d)" "sorted (map rw_name (order_by (db_rows d)))"
  shows "(\<exists>d' i. db_create p d = (Inr (i, p), d') \<and> db_ok d' \<and> profiles_of d' = (profiles_of d)(i \<mapsto> p)
      \<and> profiles_of d i = None \<and> (\<forall>j. j \<le> db_sequence d \<longrightarrow> j \<noteq> i) \<and> i \<le> db_sequence d')
    \<and> (\<exists>d'. db_update i p d =
         ((case profiles_of d i of Some _ \<Rightarrow> Inr (i, p) | None \<Rightarrow> Inl Query_Returned_No_Rows), d') \<and> db_ok d'
      \<and> profiles_of d' = (case profiles_of d i of Some _ \<Rightarrow> (profiles_of d)(i \<mapsto> p) | None \<Rightarrow> profiles_of d))
    \<and> (\<exists>d'. db_delete i d = (Inr (), d') \<and> db_ok d' \<and> profiles_of d' = (profiles_of d)(i := None)
      \<and> db_sequence d' = db_sequence d)
    \<and> (\<exists>ps. db_list order_by d = Inr ps \<and> distinct (map fst ps) \<and> map_of ps = profiles_of d
      \<and> sorted (map (\<lambda>(i, p). np_name p) ps))"
proof -
  have set: "set (order_by (db_rows d)) = set (db_rows d)" using assms(3) by (metis set_mset_mset)
  have "list_all (\<lambda>r. \<exists>p. r = row_of (rw_id r) p) (order_by (db_rows d))"
    using assms(1) set by (auto simp: db_ok_def list_all_iff)
  then obtain ps where ps: "collect_rows (order_by (db_rows d)) = Inr ps"
    "map (\<lambda>(i, p). row_of i p) ps = order_by (db_rows d)"
    using collect_rows_ok by blast
  have list: "db_list order_by d = Inr ps" using assms(1) ps(1) by (simp add: db_list_def db_ok_def)
  have ids: "map fst ps = map rw_id (order_by (db_rows d))"
    and names: "map (\<lambda>(i, p). np_name p) ps = map rw_name (order_by (db_rows d))"
    unfolding ps(2)[symmetric] by (simp_all add: comp_def case_prod_beta)
  have "mset (map rw_id (order_by (db_rows d))) = mset (map rw_id (db_rows d))" using assms(3) by simp
  then have dist: "distinct (map fst ps)"
    using assms(1) unfolding ids db_ok_def by (metis mset_eq_imp_distinct_iff)
  have "map_of ps j = Some q \<longleftrightarrow> profiles_of d j = Some q" for j q
  proof -
    have "map_of ps j = Some q \<longleftrightarrow> (j, q) \<in> set ps" using dist by simp
    also have "\<dots> \<longleftrightarrow> row_of j q \<in> set (map (\<lambda>(i, p). row_of i p) ps)" by (auto simp: row_of_inject)
    also have "\<dots> \<longleftrightarrow> profiles_of d j = Some q" using profiles_of_row[OF assms(1)] ps(2) set by simp
    finally show ?thesis .
  qed
  then have map: "map_of ps = profiles_of d" by (intro ext) (metis option.exhaust)
  let ?new = "db_sequence d + 1"
  have "profiles_of d ?new = None" using profiles_of_new[OF assms(1), of ?new] by (cases "profiles_of d ?new") auto
  then show ?thesis
    using db_create_ok[OF assms(1,2), of p] db_update_ok[OF assms(1), of i p] db_delete_ok[OF assms(1), of i]
      list dist map names assms(4)
    by (intro conjI) (force, blast, blast, simp)
qed

definition example_profile :: "string \<Rightarrow> new_profile" where
  "example_profile n = \<lparr>np_name = n, np_host = ''h'', np_port = 443, np_username = ''u'', np_password = ''pw'',
     np_protocol = ''Checkpoint'', np_insecure = True, np_cert = None, np_realm = None\<rparr>"

text \<open>Two profiles, the second earlier in the alphabet; others have been deleted.\<close>

definition example_db :: db where
  "example_db = \<lparr>db_created = True, db_has_realm = True,
     db_rows = [row_of 2 (example_profile ''work''), row_of 5 (example_profile ''home'')], db_sequence = 7\<rparr>"

lemma store_refines_map_witness:
  "\<exists>d' i. db_create (example_profile ''lab'') example_db = (Inr (i, example_profile ''lab''), d') \<and> i \<notin> {2, 5, 7}
     \<and> profiles_of d' 2 = Some (example_profile ''work'') \<and> profiles_of d' i = Some (example_profile ''lab'')"
proof -
  have rows: "rw_id (row_of i q) = i \<and> (\<exists>p. row_of i q = row_of i p)" for i q by auto
  have ok: "db_ok example_db" using rows by (auto simp: db_ok_def example_db_def)
  have fields: "db_sequence example_db = 7" by (simp add: example_db_def)
  have work: "profiles_of example_db 2 = Some (example_profile ''work'')"
    by (simp add: profiles_of_def db_get_def example_db_def)
  obtain d' i where new: "db_create (example_profile ''lab'') example_db = (Inr (i, example_profile ''lab''), d')"
    "profiles_of d' = (profiles_of example_db)(i \<mapsto> example_profile ''lab'')" "\<forall>j. j \<le> 7 \<longrightarrow> j \<noteq> i"
    using conjunct1[OF store_refines_map[OF ok, of "sort_key rw_name" "example_profile ''lab''" 0]]
    by (auto simp: fields)
  have "i \<noteq> 2" "i \<noteq> 5" "i \<noteq> 7" using new(3)[rule_format, of 2] new(3)[rule_format, of 5] new(3)[rule_format, of 7] by auto
  then show ?thesis using new(1,2) work by (intro exI[of _ d'] exI[of _ i]) simp
qed

section \<open>Opening\<close>

text \<open>
  Opening a database of any age loses nothing.  On a fresh database, one of the
  first release without the column for the realm, or a current one, \<open>init\<close> leaves a
  store in good state with the same profiles, those of the first release without a
  realm; and doing it again changes nothing.
\<close>

theorem init_keeps_profiles:
  assumes "db_created d \<Longrightarrow> db_ok (d\<lparr>db_has_realm := True\<rparr>)"
  shows "db_ok (db_init d) \<and> db_init (db_init d) = db_init d
    \<and> profiles_of (db_init d) = (if \<not> db_created d then Map.empty
        else if db_has_realm d then profiles_of d
        else (\<lambda>i. map_option (\<lambda>p. p\<lparr>np_realm := None\<rparr>) (profiles_of d i)))"
proof (cases "db_created d")
  case False
  then show ?thesis
    by (auto simp: db_init_def create_table_def add_realm_def db_ok_def profiles_of_def db_get_def Let_def)
next
  case True
  note ok = assms[OF True]
  show ?thesis
  proof (cases "db_has_realm d")
    case True
    then have "d\<lparr>db_has_realm := True\<rparr> = d" by simp
    then have "db_ok d" using ok by simp
    then show ?thesis using True \<open>db_created d\<close> by (simp add: db_init_def create_table_def)
  next
    case False
    have init: "db_init d = add_realm d" using False \<open>db_created d\<close> by (simp add: db_init_def create_table_def)
    have row: "(row_of i p)\<lparr>rw_realm := None\<rparr> = row_of i (p\<lparr>np_realm := None\<rparr>)" for i p by (simp add: row_of_def)
    have ids: "map rw_id (db_rows (add_realm d)) = map rw_id (db_rows d)" by (simp add: add_realm_def)
    have "db_ok (add_realm d)"
      using ok row unfolding db_ok_def ids by (simp add: add_realm_def list_all_iff) metis
    moreover have "profiles_of (add_realm d) i = map_option (\<lambda>p. p\<lparr>np_realm := None\<rparr>) (profiles_of d i)" for i
    proof -
      have "find (\<lambda>r. rw_id r = i) (map (\<lambda>r. r\<lparr>rw_realm := None\<rparr>) rows)
          = map_option (\<lambda>r. r\<lparr>rw_realm := None\<rparr>) (find (\<lambda>r. rw_id r = i) rows)" for rows :: "row list"
        by (induction rows) auto
      then show ?thesis
        using find_row[OF ok, of i]
        by (cases "find (\<lambda>r. rw_id r = i) (db_rows d)") (auto simp: profiles_of_def db_get_def add_realm_def row)
    qed
    moreover have "db_init (add_realm d) = add_realm d"
      using \<open>db_created d\<close> by (simp add: db_init_def create_table_def add_realm_def)
    ultimately show ?thesis using False \<open>db_created d\<close> by (auto simp: init)
  qed
qed

lemma init_keeps_profiles_witness:
  "profiles_of (db_init (example_db\<lparr>db_has_realm := False\<rparr>)) 5 = Some (example_profile ''home'')"
proof -
  have "db_ok ((example_db\<lparr>db_has_realm := False\<rparr>)\<lparr>db_has_realm := True\<rparr>)"
    by (auto simp: db_ok_def example_db_def)
  from init_keeps_profiles[OF this] show ?thesis
    by (simp add: profiles_of_def db_get_def example_db_def example_profile_def)
qed

end
