(* ===== verification/Store_History.thy ===== *)
theory Store_History
  imports Profile_Store
begin

text \<open>
  The life of the profile store under the commands of the window
  (\<open>src-tauri/src/lib.rs\<close>, \<open>profile_create\<close>, \<open>profile_update\<close>, \<open>profile_delete\<close>): any
  sequence of commands, against a map with a counter.  The locale states the
  contract of one command; the history of a whole sequence is proved from it once.
\<close>

section \<open>A map with a counter\<close>

datatype 'p store_op = Create 'p | Update int 'p | Delete int

datatype 'p reply = Stored int 'p | Removed | No_Such | Broken

fun map_step :: "'p store_op \<Rightarrow> (int \<Rightarrow> 'p option) \<times> int \<Rightarrow> 'p reply \<times> (int \<Rightarrow> 'p option) \<times> int" where
  "map_step (Create p) (m, n) = (Stored (n + 1) p, m(n + 1 \<mapsto> p), n + 1)"
| "map_step (Update i p) (m, n) =
     (case m i of None \<Rightarrow> (No_Such, m, n) | Some _ \<Rightarrow> (Stored i p, m(i \<mapsto> p), n))"
| "map_step (Delete i) (m, n) = (Removed, m(i := None), n)"

fun run_steps :: "('o \<Rightarrow> 's \<Rightarrow> 'r \<times> 's) \<Rightarrow> 'o list \<Rightarrow> 's \<Rightarrow> 'r list \<times> 's" where
  "run_steps step [] s = ([], s)"
| "run_steps step (x # xs) s = (let (r, s1) = step x s; (rs, s2) = run_steps step xs s1 in (r # rs, s2))"

text \<open>The numbers that creating gave.\<close>

fun created :: "'p store_op list \<Rightarrow> 'p reply list \<Rightarrow> int list" where
  "created (Create p # xs) (Stored i q # rs) = i # created xs rs"
| "created (x # xs) (r # rs) = created xs rs"
| "created _ _ = []"

lemma map_step_counter: "map_step x (m, n) = (r, m', n') \<Longrightarrow> n \<le> n' \<and> n' \<le> n + 1"
  by (cases "(x, m, n)" rule: map_step.cases) (auto split: option.splits)

lemma map_run_created:
  "run_steps map_step xs (m, n) = (rs, m', n') \<Longrightarrow> n \<le> n' \<and> sorted_wrt (<) (created xs rs) \<and> (\<forall>i \<in> set (created xs rs). n < i)"
proof (induction xs arbitrary: m n rs)
  case (Cons x xs)
  obtain r m1 n1 where one: "map_step x (m, n) = (r, m1, n1)" by (metis prod_cases3)
  obtain rs1 where rest: "run_steps map_step xs (m1, n1) = (rs1, m', n')" "rs = r # rs1"
    using Cons.prems one by (auto simp: Let_def split: prod.splits)
  note ih = Cons.IH[OF rest(1)]
  have mono: "n \<le> n1" using map_step_counter[OF one] by simp
  show ?case
  proof (cases x)
    case (Create p)
    then have "n1 = n + 1" "r = Stored (n + 1) p" using one by auto
    then show ?thesis using ih rest(2) Create by auto
  next
    case (Update i p)
    then show ?thesis using ih mono rest(2) by (cases r) fastforce+
  next
    case (Delete i)
    then show ?thesis using ih mono rest(2) by (cases r) fastforce+
  qed
qed simp

lemma map_run_gone:
  "run_steps map_step xs (m, n) = (rs, m', n') \<Longrightarrow> i \<le> n \<Longrightarrow> m i = None \<Longrightarrow> m' i = None"
proof (induction xs arbitrary: m n rs)
  case (Cons x xs)
  obtain r m1 n1 where one: "map_step x (m, n) = (r, m1, n1)" by (metis prod_cases3)
  then obtain rs1 where rest: "run_steps map_step xs (m1, n1) = (rs1, m', n')"
    using Cons.prems by (auto simp: Let_def split: prod.splits)
  have "m1 i = None" using one Cons.prems(2,3) by (cases x) (auto split: option.splits if_splits)
  then show ?case using Cons.IH[OF rest] map_step_counter[OF one] Cons.prems(2) by simp
qed simp

section \<open>The contract of one command\<close>

locale counted_store =
  fixes good :: "'d \<Rightarrow> bool" and abs :: "'d \<Rightarrow> (int \<Rightarrow> 'p option) \<times> int" and limit :: int
    and step :: "'p store_op \<Rightarrow> 'd \<Rightarrow> 'p reply \<times> 'd"
  assumes step_ok: "good d \<Longrightarrow> snd (abs d) < limit \<Longrightarrow> step x d = (r, d') \<Longrightarrow>
      good d' \<and> map_step x (abs d) = (r, abs d')"
begin

lemma run_ok:
  "good d \<Longrightarrow> snd (abs d) + int (length xs) \<le> limit \<Longrightarrow> run_steps step xs d = (rs, d') \<Longrightarrow>
     good d' \<and> run_steps map_step xs (abs d) = (rs, abs d')"
proof (induction xs arbitrary: d rs)
  case (Cons x xs)
  obtain r d1 where one: "step x d = (r, d1)" by fastforce
  obtain rs1 where rest: "run_steps step xs d1 = (rs1, d')" "rs = r # rs1"
    using Cons.prems(3) one by (auto simp: Let_def split: prod.splits)
  have sim: "good d1" "map_step x (abs d) = (r, abs d1)"
    using step_ok[OF Cons.prems(1) _ one] Cons.prems(2) by auto
  have "snd (abs d1) \<le> snd (abs d) + 1" using map_step_counter sim(2) by (metis prod.collapse)
  then show ?case using Cons.IH[OF sim(1) _ rest(1)] sim(2) rest(2) Cons.prems(2) by (simp add: Let_def)
qed simp

lemma numbers_fresh:
  assumes "good d" "snd (abs d) + int (length xs) \<le> limit" "run_steps step xs d = (rs, d')"
  shows "sorted_wrt (<) (created xs rs) \<and> (\<forall>i \<in> set (created xs rs). snd (abs d) < i)
    \<and> (\<forall>i \<le> snd (abs d). fst (abs d) i = None \<longrightarrow> fst (abs d') i = None)"
proof -
  have run: "run_steps map_step xs (fst (abs d), snd (abs d)) = (rs, fst (abs d'), snd (abs d'))"
    using run_ok[OF assms] by simp
  show ?thesis using map_run_created[OF run] map_run_gone[OF run] by blast
qed

end

section \<open>The commands\<close>

text \<open>What the window is told; the texts of the errors are left out.\<close>

definition stored :: "(db_error + int \<times> new_profile) \<times> db \<Rightarrow> new_profile reply \<times> db" where
  "stored rd =
     (case rd of
        (Inr (i, p), d) \<Rightarrow> (Stored i p, d)
      | (Inl Query_Returned_No_Rows, d) \<Rightarrow> (No_Such, d)
      | (Inl _, d) \<Rightarrow> (Broken, d))"

definition profile_command :: "new_profile store_op \<Rightarrow> db \<Rightarrow> new_profile reply \<times> db" where
  "profile_command x d =
     (case x of
        Create p \<Rightarrow> stored (db_create p d)
      | Update i p \<Rightarrow> stored (db_update i p d)
      | Delete i \<Rightarrow> (case db_delete i d of (Inr _, d') \<Rightarrow> (Removed, d') | (Inl _, d') \<Rightarrow> (Broken, d')))"

interpretation profiles: counted_store db_ok "\<lambda>d. (profiles_of d, db_sequence d)" "2 ^ 63 - 1" profile_command
proof unfold_locales
  fix d x r d'
  assume ok: "db_ok d" "snd (profiles_of d, db_sequence d) < 2 ^ 63 - 1" and step: "profile_command x d = (r, d')"
  show "db_ok d' \<and> map_step x (profiles_of d, db_sequence d) = (r, profiles_of d', db_sequence d')"
  proof (cases x)
    case (Create p)
    then show ?thesis using db_create_ok[OF ok(1), of p] ok(2) step by (auto simp: profile_command_def stored_def)
  next
    case (Update i p)
    then show ?thesis using db_update_ok[OF ok(1), of i p] step
      by (cases "profiles_of d i") (auto simp: profile_command_def stored_def)
  next
    case (Delete i)
    then show ?thesis using db_delete_ok[OF ok(1), of i] step by (auto simp: profile_command_def)
  qed
qed

text \<open>
  C28: the store of the profiles behaves like a map with a counter over its whole life.
  On a database in the state that the program keeps, any sequence of creations, updates and
  deletions answers as the map does, every answer included, and leaves a database
  in that state with the contents of the map; the numbers given to new profiles
  grow, so that none is given twice; and a number whose profile is gone never
  comes to stand for another one.
\<close>

theorem store_history:
  assumes "db_ok d" "db_sequence d + int (length xs) \<le> 2 ^ 63 - 1" "run_steps profile_command xs d = (rs, d')"
  shows "db_ok d'
    \<and> run_steps map_step xs (profiles_of d, db_sequence d) = (rs, profiles_of d', db_sequence d')
    \<and> sorted_wrt (<) (created xs rs) \<and> (\<forall>i \<in> set (created xs rs). db_sequence d < i)
    \<and> (\<forall>i \<le> db_sequence d. profiles_of d i = None \<longrightarrow> profiles_of d' i = None)"
  using profiles.run_ok[of d xs rs d'] profiles.numbers_fresh[of d xs rs d'] assms by simp

theorem store_history_witness:
  "\<exists>rs d'. run_steps profile_command [Create (example_profile ''lab''), Delete 8, Create (example_profile ''new'')] example_db = (rs, d')
     \<and> created [Create (example_profile ''lab''), Delete 8, Create (example_profile ''new'')] rs = [8, 9]
     \<and> rs = [Stored 8 (example_profile ''lab''), Removed, Stored 9 (example_profile ''new'')]
     \<and> profiles_of d' 8 = None \<and> profiles_of d' 9 = Some (example_profile ''new'')"
proof -
  let ?xs = "[Create (example_profile ''lab''), Delete 8, Create (example_profile ''new'')]"
  have ok: "db_ok example_db" by (auto simp: db_ok_def example_db_def)
  have seq: "db_sequence example_db = 7" by (simp add: example_db_def)
  obtain rs d' where run: "run_steps profile_command ?xs example_db = (rs, d')" by fastforce
  have "run_steps map_step ?xs (profiles_of example_db, 7) = (rs, profiles_of d', db_sequence d')"
    using store_history[OF ok _ run] seq by simp
  then have "rs = [Stored 8 (example_profile ''lab''), Removed, Stored 9 (example_profile ''new'')]"
    "profiles_of d' = (profiles_of example_db)(8 \<mapsto> example_profile ''lab'', 8 := None, 9 \<mapsto> example_profile ''new'')"
    by auto
  then show ?thesis using run by auto
qed

end
