(* ===== verification/Wintun.thy ===== *)
theory Wintun
  imports Cstp Platform
begin

text \<open>
  The fallback of the Windows desktop that fetches the Wintun library
  (\<open>src-tauri/src/wintun.rs\<close>): it is loaded into the elevated helper, so nothing may
  be installed that is not the pinned release.  The HTTP client, the digest and the
  archive format are third-party code: parameters.
\<close>

definition WINTUN_ZIP_SHA256 :: string where
  "WINTUN_ZIP_SHA256 = ''07c256185d6ee3652e09fa55c0b673e2624b565e02c4b9091c79ca7d2f24ef51''"

definition EMIT_STEP :: nat where "EMIT_STEP = 256 * 1024"

record progress =
  pg_stage :: string
  pg_downloaded :: nat
  pg_total :: nat

text \<open>A chunk of the body, or the error of reading it; the list ends with the body.\<close>

text \<open>The loop: the bytes so far and the last amount reported; the result, and what was reported.\<close>

fun download :: "nat \<Rightarrow> (string + bytes) list \<Rightarrow> bytes \<Rightarrow> nat \<Rightarrow> progress list \<Rightarrow> (string + bytes) \<times> progress list" where
  "download expected [] buf last_emitted evs = (Inr buf, evs)"
| "download expected (Inl e # chunks) buf last_emitted evs = (Inl (''download failed: '' @ e), evs)"
| "download expected (Inr chunk # chunks) buf last_emitted evs =
     (let buf1 = buf @ chunk; downloaded = length buf1 in
      if EMIT_STEP \<le> downloaded - last_emitted then
        download expected chunks buf1 downloaded
          (evs @ [\<lparr>pg_stage = ''download'', pg_downloaded = downloaded, pg_total = expected\<rparr>])
      else download expected chunks buf1 last_emitted evs)"

record wintun_env =
  we_exe_dir :: "string + string option"
  we_exists :: "string \<Rightarrow> bool"
  we_arch :: string
  we_client :: "string option"
  we_response :: "string + nat option"
  we_chunks :: "(string + bytes) list"
  we_sha256 :: "bytes \<Rightarrow> bytes"
  we_archive :: "bytes \<Rightarrow> string + (string \<Rightarrow> (string + bytes) option)"
  we_write :: "string \<Rightarrow> string option"

text \<open>The architectures of a Windows build.\<close>

definition arch_name :: "string \<Rightarrow> string" where
  "arch_name target_arch =
     (if target_arch = ''x86_64'' then ''amd64'' else if target_arch = ''aarch64'' then ''arm64'' else ''x86'')"

definition archive_entry :: "string \<Rightarrow> string" where
  "archive_entry target_arch = ''wintun/bin/'' @ arch_name target_arch @ ''/wintun.dll''"

text \<open>The check, the extraction and the writing; the file that was written, if any.\<close>

definition install_wintun :: "wintun_env \<Rightarrow> string \<Rightarrow> bytes \<Rightarrow> (string + bool) \<times> (string \<times> bytes) option" where
  "install_wintun env target buf =
     (let got = hex_encode (we_sha256 env buf) in
      if got \<noteq> WINTUN_ZIP_SHA256 then
        (Inl (''wintun archive integrity check failed (sha256 '' @ got @ '', expected '' @ WINTUN_ZIP_SHA256 @ '') ''
              @ [CHR 0xE2, CHR 0x80, CHR 0x94] @ '' refusing to install''), None)
      else case we_archive env buf of
        Inl e \<Rightarrow> (Inl (''invalid archive: '' @ e), None)
      | Inr by_name \<Rightarrow>
          (case by_name (archive_entry (we_arch env)) of
             None \<Rightarrow> (Inl (''wintun.dll for '' @ [CHR 0x27] @ arch_name (we_arch env) @ [CHR 0x27] @ '' not found in archive''), None)
           | Some (Inl e) \<Rightarrow> (Inl e, None)
           | Some (Inr dll) \<Rightarrow>
               (case we_write env target of
                  Some e \<Rightarrow> (Inl (''cannot write '' @ target @ '': '' @ e), None)
                | None \<Rightarrow> (Inr False, Some (target, dll)))))"

definition ensure_wintun :: "wintun_env \<Rightarrow> (string + bool) \<times> (string \<times> bytes) option \<times> progress list" where
  "ensure_wintun env =
     (case we_exe_dir env of
        Inl e \<Rightarrow> (Inl (''cannot locate executable: '' @ e), None, [])
      | Inr None \<Rightarrow> (Inl ''executable has no parent directory'', None, [])
      | Inr (Some dir) \<Rightarrow>
     (let target = windows_join dir ''wintun.dll'' in
      if we_exists env target then (Inr True, None, [])
      else case we_client env of
        Some e \<Rightarrow> (Inl e, None, [])
      | None \<Rightarrow>
     (case we_response env of
        Inl e \<Rightarrow> (Inl (''download failed: '' @ e), None, [])
      | Inr content_length \<Rightarrow>
          let expected = unwrap_or 0 content_length;
              (got, evs) = download expected (we_chunks env) [] 0 [\<lparr>pg_stage = ''download'', pg_downloaded = 0, pg_total = expected\<rparr>] in
          (case got of
             Inl e \<Rightarrow> (Inl e, None, evs)
           | Inr buf \<Rightarrow>
               let evs1 = evs @ [\<lparr>pg_stage = ''download'', pg_downloaded = length buf, pg_total = expected\<rparr>];
                   (r, written) = install_wintun env target buf in
               (r, written,
                if hex_encode (we_sha256 env buf) = WINTUN_ZIP_SHA256
                then evs1 @ [\<lparr>pg_stage = ''extract'', pg_downloaded = length buf, pg_total = expected\<rparr>] else evs1)))))"

section \<open>Only the pinned release is installed\<close>

lemma download_bytes:
  "download expected chunks buf last_emitted evs = (Inr b, evs') \<Longrightarrow> \<exists>data. chunks = map Inr data \<and> b = buf @ concat data"
proof (induction expected chunks buf last_emitted evs rule: download.induct)
  case (3 expected chunk chunks buf last_emitted evs)
  then obtain data where "chunks = map Inr data \<and> b = (buf @ chunk) @ concat data"
    by (auto simp: Let_def split: if_splits)
  then show ?case by (intro exI[of _ "chunk # data"]) simp
qed simp_all

definition body_length :: "(string + bytes) list \<Rightarrow> nat" where
  "body_length chunks = sum_list (map (\<lambda>c. case c of Inr b \<Rightarrow> length b | Inl e \<Rightarrow> 0) chunks)"

lemma body_length_simps [simp]:
  "body_length [] = 0" "body_length (Inl e # chunks) = body_length chunks"
  "body_length (Inr b # chunks) = length b + body_length chunks"
  by (simp_all add: body_length_def)

lemma download_events:
  "download expected chunks buf last_emitted evs = (r, evs') \<Longrightarrow> last_emitted \<le> length buf \<Longrightarrow>
   length evs * EMIT_STEP \<le> EMIT_STEP + last_emitted \<Longrightarrow>
   length evs' * EMIT_STEP \<le> EMIT_STEP + length buf + body_length chunks"
proof (induction expected chunks buf last_emitted evs rule: download.induct)
  case (3 expected chunk chunks buf last_emitted evs)
  note prems = "3.prems"
  show ?case
  proof (cases "EMIT_STEP \<le> length (buf @ chunk) - last_emitted")
    case True
    then have "length evs' * EMIT_STEP \<le> EMIT_STEP + length (buf @ chunk) + body_length chunks"
      using prems by (intro "3.IH"(1)[OF refl refl]) (simp_all add: Let_def)
    then show ?thesis by simp
  next
    case False
    then have "length evs' * EMIT_STEP \<le> EMIT_STEP + length (buf @ chunk) + body_length chunks"
      using prems by (intro "3.IH"(2)[OF refl refl]) (simp_all add: Let_def)
    then show ?thesis by simp
  qed
qed auto

lemma install_written:
  "install_wintun env target buf = (r, Some (path, dll)) \<Longrightarrow>
     path = target \<and> hex_encode (we_sha256 env buf) = WINTUN_ZIP_SHA256
     \<and> (\<exists>by_name. we_archive env buf = Inr by_name \<and> by_name (archive_entry (we_arch env)) = Some (Inr dll))"
  by (auto simp: install_wintun_def Let_def split: if_splits sum.splits option.splits)

lemma install_result: "install_wintun env target buf = (r, w) \<Longrightarrow> (w \<noteq> None \<longleftrightarrow> r = Inr False)"
  by (auto simp: install_wintun_def Let_def split: if_splits sum.splits option.splits)


definition pinned_digest :: bytes where
  "pinned_digest = [0x07, 0xC2, 0x56, 0x18, 0x5D, 0x6E, 0xE3, 0x65, 0x2E, 0x09, 0xFA, 0x55, 0xC0, 0xB6, 0x73, 0xE2, 0x62, 0x4B, 0x56, 0x5E, 0x02, 0xC4, 0xB9, 0x09, 0x1C, 0x79, 0xCA, 0x7D, 0x2F, 0x24, 0xEF, 0x51]"

text \<open>An archive in two chunks, taken for the release by the digest.\<close>

definition example_download :: wintun_env where
  "example_download = \<lparr>we_exe_dir = Inr (Some ''C:''), we_exists = (\<lambda>_. False), we_arch = ''x86_64'', we_client = None,
     we_response = Inr None, we_chunks = [Inr [1, 2], Inr [3]], we_sha256 = (\<lambda>_. pinned_digest),
     we_archive = (\<lambda>b. Inr (\<lambda>n. if n = ''wintun/bin/amd64/wintun.dll'' then Some (Inr (rev b)) else None)),
     we_write = (\<lambda>_. None)\<rparr>"


end
