(* ===== verification/Cli_Print.thy ===== *)
theory Cli_Print
  imports Cli_Commands
begin

text \<open>
  What the command line client prints by itself (\<open>vpn-cli/src/main.rs\<close>): the list of
  the profiles, the warning about a profile that others can read, the prompt on
  Windows.
\<close>

definition protocol_name :: "protocol \<Rightarrow> string" where
  "protocol_name p =
     (case p of AnyConnect \<Rightarrow> ''AnyConnect'' | Checkpoint \<Rightarrow> ''Check Point SNX'' | FortiGate \<Rightarrow> ''FortiGate SSL VPN'')"

text \<open>\<open>mode\<close> is the mode of the file, if it can be asked for.\<close>

definition warn_if_world_readable :: "32 word option \<Rightarrow> string \<Rightarrow> string option" where
  "warn_if_world_readable mode path =
     (case mode of
        None \<Rightarrow> None
      | Some m \<Rightarrow>
          if and m 0x3F \<noteq> 0 then
            Some (''yellow-vpn: warning: '' @ path @ '' is readable by other users (mode ''
              @ show_radix 8 (unat (and m 0x1FF)) @ ''); run: chmod 600 '' @ path)
          else None)"

text \<open>\<open>read_dir\<close> gives the names of the entries of a directory that can be read.\<close>

definition cmd_profiles :: "cli_env \<Rightarrow> (string \<Rightarrow> string list option) \<Rightarrow> string list \<Rightarrow> string + string list" where
  "cmd_profiles env read_dir args =
     and_then (parse_args args) (\<lambda>(s, _).
       case profile_dir (ce_dirs env) (ce_is_dir env) (st_profile_dir s) of
         None \<Rightarrow> Inl ''cannot determine the profile directory; pass --profile-dir''
       | Some dir \<Rightarrow>
           (case read_dir dir of
              None \<Rightarrow> Inr [''no profiles yet ('' @ dir @ '' does not exist)'']
            | Some entries \<Rightarrow>
                let names = profile_names entries in
                if names = [] then Inr [''no profiles in '' @ dir]
                else Inr ((''profiles in '' @ dir @ '':'') # map (\<lambda>n. ''  '' @ n) names)))"

definition prompt_password_windows :: "bool \<Rightarrow> string + string \<Rightarrow> string + string" where
  "prompt_password_windows is_terminal read =
     (if \<not> is_terminal then
        Inl ''no password available; set %YELLOW_VPN_PASSWORD% or use --password-stdin''
      else and_then (map_err (\<lambda>e. ''reading password: '' @ e) read) (\<lambda>line.
        let p = trim_end_newlines line in if p = [] then Inl ''empty password'' else Inr p))"

section \<open>What is listed can be loaded\<close>

lemma cmd_profiles_simps:
  "parse_args args = Inr (s, p) \<Longrightarrow> profile_dir (ce_dirs env) (ce_is_dir env) (st_profile_dir s) = Some dir \<Longrightarrow>
   read_dir dir = Some entries \<Longrightarrow>
     cmd_profiles env read_dir args =
       (if profile_names entries = [] then Inr [''no profiles in '' @ dir]
        else Inr ((''profiles in '' @ dir @ '':'') # map (\<lambda>n. ''  '' @ n) (profile_names entries)))"
  by (simp only: cmd_profiles_def and_then.simps prod.case option.case Let_def)

text \<open>
  A listed name that is not refused stands for the file of that name in the same
  directory: \<open>connect --profile\<close> with the same directory reads exactly that file.
\<close>

lemma listed_is_loaded:
  assumes "read_dir dir = Some entries" "name \<in> set (profile_names entries)" "\<not> name_refused name"
    "parse_args args = Inr (s, None)" "parse_args args' = Inr (s, Some name)"
    "profile_dir (ce_dirs env) (ce_is_dir env) (st_profile_dir s) = Some dir"
    "ce_read_file env (path_join dir (name @ ''.conf'')) = Inr text" "parse_profile (ce_order env) text = Inr p"
  shows "(\<exists>out. cmd_profiles env read_dir args = Inr out \<and> ''  '' @ name \<in> set out)
    \<and> name @ ''.conf'' \<in> set entries \<and> command_settings env args' = Inr (merge_over p s)"
proof -
  have "\<exists>out. cmd_profiles env read_dir args = Inr out \<and> ''  '' @ name \<in> set out"
    using cmd_profiles_simps[OF assms(4) assms(6), of read_dir entries] assms(1,2) by auto
  moreover have "name @ ''.conf'' \<in> set entries"
    using assms(2) by (auto simp: profile_names_def set_map_filter conf_stem_Some)
  moreover have "load_profile (ce_order env) (ce_read_file env) dir name = Inr p"
    using assms(3,7,8) by (simp only: load_profile_def if_False Let_def map_err.simps and_then.simps)
  ultimately show ?thesis
    using assms(5,6) by (simp only: command_settings_def and_then.simps prod.case option.case ok_or.simps)
qed

text \<open>
  A file whose name has two dots in a row is listed, and refused when it is asked
  for by the name that is listed.
\<close>

lemma listed_but_refused:
  "''a..b'' \<in> set (profile_names [''a..b.conf'']) \<and> name_refused ''a..b''"
  by code_simp

end
