(* ===== verification/Spec2Isabelle.thy ===== *)
theory Spec2Isabelle
  imports Client_Signout Forward_Correct Ppp_Early Forti_Auth Forti_Config Anyconnect_Auth Http_Correct
    Cli_Correct Cli_Caps Gui_Interleave Desktop_Chain Android_Run
    Tls_Connect Signals Helper_Socket Helper_Sid Spawn Store_History Wintun Cli_Print
begin

text \<open>
  A verification development for yellow-vpn, a VPN client for three kinds of gateway
  (AnyConnect, Check Point SNX, FortiGate).  One engine (\<open>crates/vpn-engine\<close>) is
  driven by a command line client (\<open>vpn-cli\<close>), by an elevated helper (\<open>vpn-helper\<close>)
  to which the desktop backend (\<open>src-tauri\<close>) speaks over a pipe (\<open>vpn-ipc\<close>), and by
  an Android service through JNI.

  \<^bold>\<open>Conventions.\<close>  Bytes are \<open>8 word\<close>; lengths, times (milliseconds) and counters are
  \<open>nat\<close> with the width of the source written out where a cast or an overflow is
  possible.  A Rust \<open>String\<close> is the list of its UTF-8 bytes as characters.  A
  \<open>Result\<close> is a sum, \<open>Inl\<close> the error.  Where the code can panic or block for ever the
  result is an \<open>outcome\<close>: \<open>Returned\<close>, \<open>Panicked\<close>, \<open>Hangs\<close>.  A connection is a \<open>stream\<close>:
  the script of what arrives and when, of which writes fail, the bytes sent and the
  clock; a \<open>network\<close> is the list of the connections that dialling will give.  Both
  are universally quantified, so a theorem holds against every peer.

  \<^bold>\<open>Prelude.\<close>  Base (words, big-endian conversions, results, outcomes, the
  collections \<open>wire\<close> and \<open>res\<close>), Text (the part of \<open>str\<close> and of integer parsing that
  is used), Ipv4, Net_Io (reads with and without a timeout), Errors (\<open>error.rs\<close>,
  \<open>config.rs\<close>), Session_Params; Transition (reachable states of a step relation, and the
  locale \<open>invariant_of\<close>, interpreted for the helper, the backend and the Android bridge).

  \<^bold>\<open>Codecs.\<close>  Stream_Decoder states the contract of the buffered decoders as the
  locale \<open>stream_decoder\<close> (a decoder may wait, but more bytes never change what it
  has decoded) and \<open>frame_codec\<close> (what is encoded is decoded); both are interpreted
  for CSTP (Cstp, \<open>tunnel.rs\<close>), SLIM (Slim, \<open>checkpoint/framing.rs\<close>), the FortiGate
  envelope (Forti_Framing, \<open>fortigate/framing.rs\<close>), PPP (Ppp, \<open>fortigate/ppp.rs\<close>) and
  the three framers (Framer, \<open>framer.rs\<close>, locale \<open>tunnel_framer\<close>): how reads cut the
  stream does not matter, and a batch of packets arrives as it was sent.  Ccc and
  Ccc_Correct hold the S-expressions of Check Point (\<open>checkpoint/ccc.rs\<close>) with their
  round trip; Cipher the password obfuscation.

  \<^bold>\<open>Gateways.\<close>  AnyConnect: Anyconnect_Auth (\<open>auth.rs\<close>), Cstp.  Check Point: Cp_Auth
  (login, sign-out), Cp_Session (the hello and the splitting of address ranges),
  Subnets (the split is a partition), Cp_Exchange (the exchange of hellos).
  FortiGate: Http and Http_Correct (\<open>fortigate/http.rs\<close>: chunked bodies, the bounded
  reader, the retry of the keep-alive session), Forti_Auth, Forti_Config (the scanner
  of the configuration), Ppp_Negotiate with Ppp_Invariants, Ppp_Correct and Ppp_Early
  (\<open>negotiate\<close> ends in bounded time with a bounded number of frames, agrees on an
  address, and keeps the data packets that arrive early).

  \<^bold>\<open>Engine.\<close>  Routing (\<open>routing.rs\<close>; the locale \<open>route_table\<close> states the laws of the
  kernel's table: installation is all or nothing), Forward and Forward_Correct
  (\<open>forward.rs\<close>: every arm of the select; which arms are ready at each turn is an
  input; delivery, dead-peer detection and the ways the loop ends), Client
  (\<open>client.rs\<close>, \<open>fortigate/session.rs\<close>: the three connection paths, the pipeline,
  backoff and the supervisor), Client_Correct (routes restored, trust in the
  certificate, backoff bounds), Client_Events (the order of events, the delays),
  Client_Signout (when a Check Point session is released).  Tls_Connect
  (\<open>tunnel.rs\<close>): which peers a connection is made to, with the verifier that the
  configuration installs.  Platform (\<open>platform/\<close>, \<open>tun_device.rs\<close>): the checks made
  before a tunnel and the construction of the device, with their errors.  Signals
  (\<open>signal.rs\<close>): how a signal, or the failure to listen for one, reaches the loops.

  \<^bold>\<open>Around the engine.\<close>  Helper models the service of \<open>vpn-helper\<close> with the engines it
  starts, as a step relation; Helper_Refine proves that it implements a controller
  with one tunnel, by a simulation over all runs.  Gui models the desktop backend
  one critical section at a time; Gui_Correct and Gui_Interleave show what an
  uninterrupted connect does, what every interleaving keeps, that the status
  follows the engine, and where it does not.  Cli_Args, Cli_Profile, Cli_Commands
  and Cli_Print model \<open>vpn-cli\<close>; Cli_Args_Correct, Cli_Correct and Cli_Caps show that arguments and
  profiles mean what they say, that \<open>probe\<close> predicts \<open>connect\<close>, and that the terminal
  is restored.  Android models \<open>jni_bridge.rs\<close>: the configuration, and the shutdown
  handle under interleaved calls; Gui_Android shows that the backend's payload for
  the Android service and the helper's reading of a command agree, and Android_Run
  that a whole run there is the desktop's, with what the service is told.

  \<^bold>\<open>Privileges and storage.\<close>  Helper_Socket models the Unix main of the helper over a
  small file system whose every intermediate state is recorded: at no moment can
  another user open the socket.  Helper_Pipe models the Windows main and the
  descriptor of its pipe, Helper_Sid the lookup of the user it is for.  Pipe_Lines models the lines between the backend and the
  helper, with a pipe that may break in the middle of one.  Spawn (\<open>src-tauri/src/pipe.rs\<close>) models the elevated
  start of the helper on each platform, with a reading of the script by AppleScript and by the shell,
  and the wait for its socket.  Profile_Store (\<open>profiles.rs\<close>) implements a map from
  numbers to profiles on an SQL table, and Store_History follows it over any sequence of
  commands; Wintun (\<open>wintun.rs\<close>) writes only a file that
  comes from the archive with the pinned digest.

  \<^bold>\<open>The whole.\<close>  Desktop_Chain joins the links between window and engine; the theorems
  of this file are about several components at once: from the commands of the window
  to the engines, from the events of an engine to the window, and from the settings
  to the TLS connection.

  \<^bold>\<open>Bounds.\<close>  Loops that read from the network recurse on the script of the stream and
  are bounded by the clock where the code has a deadline; where it has none the
  result can be \<open>Hangs\<close>.  The supervisor recurses on the list of attempts it is
  given; running out of it is \<open>Hangs\<close>, a client that is still running.  The parser of
  S-expressions and the argument loop terminate because they consume input; the
  PPP negotiation has the 40 rounds of the code.

  \<^bold>\<open>Not modelled.\<close>  TCP, the TLS handshake, the certificate chain check, SHA-256, the
  text of JSON, the ZIP reader and the HTTP client of the downloader are third-party
  code: parameters.  So are the answers of the operating system (processes, the TUN
  device, the route socket, the Windows SID and descriptor calls).  A write to the
  gateway succeeds or fails; one that never completes, which would suspend the
  forwarding task with its shutdown and its keepalives, is not modelled.  Left out are
  disk errors of SQLite, window and notification calls, logging, help texts and the
  marshalling of JNI.
\<close>

section \<open>From the window to the engines\<close>

text \<open>
  C12: no tunnel survives its desktop, and only what was sent is done.  The backend
  sends any commands over a pipe that may break anywhere, the service reads the
  lines with engines ending early or late: in the end the service has left its loop
  and no engine runs that was not told to stop; every command it executed is the
  one sent in that place; and every command whose sending succeeded was executed,
  unless a shutdown came before it.
\<close>

theorem desktop_commands_served:
  assumes "\<forall>c \<in> set cs. json_text to_json from_json c" "pw_sent w = []"
    "map snd ins = helper_inputs from_json (pw_sent (snd (send_commands to_json cs w)))" "serves ins xs h"
  shows "hp_served h \<and> live h = []
    \<and> (\<forall>i c. i < length xs \<and> snd (xs ! i) = Command c \<longrightarrow> i < length cs \<and> c = cs ! i)
    \<and> (\<forall>i. i < length cs \<and> fst (send_commands to_json cs w) ! i = Inr () \<and> Cmd_Shutdown \<notin> set (take i cs)
         \<longrightarrow> i < length xs \<and> snd (xs ! i) = Command (cs ! i))"
  by (rule commands_served[OF assms])

theorem desktop_commands_served_witness:
  "hp_served chain_helper \<and> live chain_helper = [] \<and> snd (chain_inputs ! 0) = Command chain_connect
   \<and> length (hp_running chain_helper) = 1"
proof -
  have "fst (send_commands chain_to_json [chain_connect, Cmd_Shutdown] chain_pipe) ! 0 = Inr ()" by code_simp
  moreover have "length (hp_running chain_helper) = 1" by code_simp
  ultimately show ?thesis
    using desktop_commands_served[OF chain_json _ chain_read chain_serves] by (auto simp: chain_pipe_def)
qed

section \<open>From the engines to the window\<close>



section \<open>From the settings to the connection\<close>

text \<open>
  C24: a fingerprint that is not blank is never dropped on the desktop.  Whether it
  comes from the GUI through the helper or from a profile or the command line, and
  whatever else is set, a configuration exists only if the fingerprint reads as 32
  bytes; a TLS connection then comes about only with a peer whose certificate has
  exactly that digest and who holds its key.
\<close>

theorem desktop_pin_enforced:
  assumes "asks_verifier tls_hs" "trim s \<noteq> []"
    and "(\<exists>w pw. wc_cert_sha256 w = Some s \<and> config_from_wire w pw = Inr cfg)
      \<or> (\<exists>env args settings pw. command_settings env args = Inr settings \<and> st_servercert settings = Some s
           \<and> fst (connect_setup env args) = Inr (cfg, pw))"
    and "connect_tls cr tls_hs server_name tcp (cfg_host cfg) (cfg_port cfg) (cert_trust_of cfg) = Inr p"
  shows "\<exists>pin. parse_sha256_fingerprint s = Inr pin \<and> length pin = 32 \<and> cr_sha256 cr (pr_cert p) = pin
    \<and> cr_signature cr (pr_message p) (pr_cert p) (pr_signature p) = Inr ()"
proof -
  obtain pin where pin: "parse_sha256_fingerprint s = Inr pin" "cfg_cert_sha256 cfg = Some pin"
    using assms(3)
  proof (elim disjE exE conjE)
    fix w pw assume "wc_cert_sha256 w = Some s" "config_from_wire w pw = Inr cfg"
    then show thesis
      using that assms(2) by (cases "parse_sha256_fingerprint s") (auto simp: config_from_wire_def)
  next
    fix env args settings pw
    assume cli: "command_settings env args = Inr settings" "st_servercert settings = Some s"
      "fst (connect_setup env args) = Inr (cfg, pw)"
    have "pinned_cert settings = Inr (cfg_cert_sha256 cfg)" by (rule connect_setup_cert[OF cli(1,3)])
    then show thesis
      using that cli(2) assms(2) by (cases "parse_sha256_fingerprint s") (auto simp: pinned_cert_def)
  qed
  have "cert_trust_of cfg = Pinned pin" using pin(2) by (simp add: cert_trust_of_def)
  then show ?thesis
    using connect_tls_accepted[OF assms(1,4)] pin parse_sha256_fingerprint_length[OF pin(1)]
    by (auto simp: verify_server_cert_def pinned_verify_def Let_def split: if_splits)
qed

text \<open>A connection that is made, with a fingerprint and no verification asked for at once.\<close>

theorem desktop_pin_enforced_witness:
  "cr_sha256 tls_witness_crypto (pr_cert (tls_witness_peer 0xaa)) = replicate 32 0xaa
   \<and> config_from_wire (example_wire\<lparr>wc_cert_sha256 := Some (replicate 64 (CHR ''a'')), wc_insecure := True\<rparr>) ''pw''
      = Inr (\<lparr>cfg_host = ''h'', cfg_port = 443, cfg_username = ''u'', cfg_password = Some ''pw'', cfg_verbose = False,
          cfg_cert_sha256 = Some (replicate 32 0xaa), cfg_insecure = True, cfg_protocol = FortiGate, cfg_realm = []\<rparr>)"
proof -
  let ?s = "replicate 64 (CHR ''a'')"
  let ?w = "example_wire\<lparr>wc_cert_sha256 := Some ?s, wc_insecure := True\<rparr>"
  let ?cfg = "\<lparr>cfg_host = ''h'', cfg_port = 443, cfg_username = ''u'', cfg_password = Some ''pw'', cfg_verbose = False,
          cfg_cert_sha256 = Some (replicate 32 0xaa), cfg_insecure = True, cfg_protocol = FortiGate, cfg_realm = []\<rparr>"
  have nonblank: "trim ?s \<noteq> []" by code_simp
  have pin: "parse_sha256_fingerprint ?s = Inr (replicate 32 0xaa)" by code_simp
  have cfg: "config_from_wire ?w ''pw'' = Inr ?cfg"
    using nonblank pin by (simp add: config_from_wire_def example_wire_def)
  have wire: "wc_cert_sha256 ?w = Some ?s" by simp
  have run: "connect_tls tls_witness_crypto tls_witness_handshake Inr (\<lambda>h p. Inr (tls_witness_peer 0xaa))
      (cfg_host ?cfg) (cfg_port ?cfg) (cert_trust_of ?cfg) = Inr (tls_witness_peer 0xaa)" by code_simp
  have "\<exists>pin'. parse_sha256_fingerprint ?s = Inr pin' \<and> length pin' = 32
      \<and> cr_sha256 tls_witness_crypto (pr_cert (tls_witness_peer 0xaa)) = pin'
      \<and> cr_signature tls_witness_crypto (pr_message (tls_witness_peer 0xaa)) (pr_cert (tls_witness_peer 0xaa))
          (pr_signature (tls_witness_peer 0xaa)) = Inr ()"
    by (rule desktop_pin_enforced[OF tls_witness_handshake_asks nonblank _ run]) (use wire cfg in blast)
  then show ?thesis using pin cfg by auto
qed

end
